theory Spec2Isabelle
  imports Complex_Main
begin

section \<open>Python values shared by the whole program\<close>

text \<open>
  The program is one Python file, \<^verbatim>\<open>dnim-cwgangp.py\<close>. Every exception it can raise
  aborts the run (there is no \<^verbatim>\<open>try\<close> anywhere), so a fallible function returns
  \<open>py_error + 'a\<close> and the state of a failed call is dropped.
\<close>

datatype py_error = IndexError | KeyError | ValueError | RuntimeError | StopIteration

text \<open>Python list indexing: a negative index counts from the end.\<close>

definition py_index :: "'a list \<Rightarrow> int \<Rightarrow> py_error + 'a" where
  "py_index xs i =
     (if 0 \<le> i \<and> i < int (length xs) then Inr (xs ! nat i)
      else if i < 0 \<and> - int (length xs) \<le> i then Inr (xs ! nat (int (length xs) + i))
      else Inl IndexError)"

text \<open>
  A tensor is its shape and its elements in row-major order. Elements are reals: the
  rounding of 32-bit floats is outside this model.
\<close>

record tensor =
  shape :: "nat list"
  elems :: "real list"

text \<open>\<^verbatim>\<open>t.unsqueeze(0)\<close>: a new leading axis of size one.\<close>

definition unsqueeze0 :: "tensor \<Rightarrow> tensor" where
  "unsqueeze0 t = t\<lparr>shape := 1 # shape t\<rparr>"

text \<open>
  The loader's collate function stacks the samples of a batch along a new leading axis;
  samples of different shapes cannot be stacked.
\<close>

definition stack :: "tensor list \<Rightarrow> py_error + tensor" where
  "stack ts =
     (case ts of
        [] \<Rightarrow> Inl RuntimeError
      | t # _ \<Rightarrow>
          if list_all (\<lambda>u. shape u = shape t) ts
          then Inr \<lparr>shape = length ts # shape t, elems = concat (map elems ts)\<rparr>
          else Inl RuntimeError)"

section \<open>The dataset: \<^verbatim>\<open>DNIMWrapper\<close>\<close>

text \<open>
  \<^verbatim>\<open>data = np.load(path)\<close> is an array of pairs; \<^verbatim>\<open>data[:, 0]\<close> becomes
  \<^verbatim>\<open>self.days\<close> and \<^verbatim>\<open>data[:, 1]\<close> becomes \<^verbatim>\<open>self.nights\<close>.
\<close>

record DNIMWrapper =
  days :: "tensor list"
  nights :: "tensor list"

definition DNIMWrapper_init :: "(tensor \<times> tensor) list \<Rightarrow> DNIMWrapper" where
  "DNIMWrapper_init data = \<lparr>days = map fst data, nights = map snd data\<rparr>"

definition DNIMWrapper_len :: "DNIMWrapper \<Rightarrow> nat" where
  "DNIMWrapper_len ds = length (days ds)"

text \<open>\<^verbatim>\<open>x, y = self.days[item], self.nights[item]; return x, y, y\<close>\<close>

definition DNIMWrapper_getitem ::
  "DNIMWrapper \<Rightarrow> int \<Rightarrow> py_error + (tensor \<times> tensor \<times> tensor)" where
  "DNIMWrapper_getitem ds item =
     (case py_index (days ds) item of
        Inl e \<Rightarrow> Inl e
      | Inr x \<Rightarrow>
          (case py_index (nights ds) item of
             Inl e \<Rightarrow> Inl e
           | Inr y \<Rightarrow> Inr (x, y, y)))"

text \<open>\<^verbatim>\<open>sample[1]\<close> of a sample triple.\<close>

definition item1 :: "'a \<times> 'b \<times> 'c \<Rightarrow> 'b" where
  "item1 s = fst (snd s)"

section \<open>The adversarial model wrapper: \<^verbatim>\<open>CGANModel\<close>\<close>

text \<open>
  Parameters are named by the submodule that owns them, the position of the layer in
  that submodule and the layer's slot.
\<close>

datatype submodule = Generator | Discriminator

datatype slot = Weight | Bias

type_synonym pname = "submodule \<times> nat \<times> slot"

type_synonym pstore = "pname \<Rightarrow> real list"

text \<open>
  The two networks are fields of the wrapper. A network reads the module's mode
  (training or evaluation), the current parameter values and its inputs, and may raise on
  a shape it cannot process. \<open>state_hooks\<close> is the dictionary \<^verbatim>\<open>self._state_hooks\<close>.
\<close>

record CGANModel =
  discriminator :: "bool \<Rightarrow> pstore \<Rightarrow> tensor \<Rightarrow> tensor \<Rightarrow> py_error + tensor"
  generator :: "bool \<Rightarrow> pstore \<Rightarrow> tensor \<Rightarrow> py_error + tensor"
  state_hooks :: "string \<rightharpoonup> tensor"
  training :: bool
  pvalues :: pstore
  pgrads :: "pname \<rightharpoonup> real list"

text \<open>
  \<^verbatim>\<open>format_images\<close> is imported from \<^verbatim>\<open>gan_utils\<close>, which is not part of the
  source at hand; it is a parameter \<open>fi\<close> of every function that calls it.
\<close>

type_synonym formatter = "tensor \<Rightarrow> py_error + tensor"

definition generate ::
  "formatter \<Rightarrow> CGANModel \<Rightarrow> tensor \<Rightarrow> py_error + (tensor \<times> CGANModel)" where
  "generate fi m y =
     (case generator m (training m) (pvalues m) y of
        Inl e \<Rightarrow> Inl e
      | Inr xfake \<Rightarrow>
          (let h1 = (state_hooks m)(''xfake'' \<mapsto> xfake);
               h2 = h1(''y'' \<mapsto> y)
           in case fi xfake of
                Inl e \<Rightarrow> Inl e
              | Inr g \<Rightarrow> Inr (xfake, m\<lparr>state_hooks := h2(''generated_images'' \<mapsto> g)\<rparr>)))"

definition discriminate :: "CGANModel \<Rightarrow> tensor \<Rightarrow> tensor \<Rightarrow> py_error + tensor" where
  "discriminate m x y = discriminator m (training m) (pvalues m) x y"

definition y_fake ::
  "formatter \<Rightarrow> CGANModel \<Rightarrow> tensor \<Rightarrow> py_error + (tensor \<times> CGANModel)" where
  "y_fake fi m y =
     (case generate fi m y of
        Inl e \<Rightarrow> Inl e
      | Inr (xfake, m') \<Rightarrow>
          (case discriminate m' xfake y of
             Inl e \<Rightarrow> Inl e
           | Inr yfake \<Rightarrow> Inr (yfake, m')))"

definition y_real ::
  "formatter \<Rightarrow> CGANModel \<Rightarrow> tensor \<Rightarrow> tensor \<Rightarrow> py_error + (tensor \<times> CGANModel)" where
  "y_real fi m xreal y =
     (case discriminate m xreal y of
        Inl e \<Rightarrow> Inl e
      | Inr yreal \<Rightarrow>
          (let h1 = (state_hooks m)(''xreal'' \<mapsto> xreal)
           in case fi xreal of
                Inl e \<Rightarrow> Inl e
              | Inr r \<Rightarrow> Inr (yreal, m\<lparr>state_hooks := h1(''real_images'' \<mapsto> r)\<rparr>)))"

text \<open>
  \<^verbatim>\<open>return self.y_real(xreal, y), self.y_fake(y)\<close>: Python evaluates the tuple from
  left to right.
\<close>

definition forward ::
  "formatter \<Rightarrow> CGANModel \<Rightarrow> tensor \<Rightarrow> tensor \<Rightarrow>
     py_error + ((tensor \<times> tensor) \<times> CGANModel)" where
  "forward fi m xreal y =
     (case y_real fi m xreal y of
        Inl e \<Rightarrow> Inl e
      | Inr (yreal, m1) \<Rightarrow>
          (case y_fake fi m1 y of
             Inl e \<Rightarrow> Inl e
           | Inr (yfake, m2) \<Rightarrow> Inr ((yreal, yfake), m2)))"

text \<open>
  \<^verbatim>\<open>CWGANDiscriminatorLoss.discriminate\<close>: the loss object holds a reference to the
  model, so it reads the model's dictionary as it is when the loss is computed.
\<close>

definition CWGANDiscriminatorLoss_discriminate ::
  "CGANModel \<Rightarrow> tensor \<Rightarrow> py_error + tensor" where
  "CWGANDiscriminatorLoss_discriminate m xmix =
     (case state_hooks m ''y'' of
        None \<Rightarrow> Inl KeyError
      | Some y \<Rightarrow> discriminate m xmix y)"

text \<open>A run of \<^verbatim>\<open>y_real\<close> calls, each with its own image and condition.\<close>

fun y_real_calls ::
  "formatter \<Rightarrow> CGANModel \<Rightarrow> (tensor \<times> tensor) list \<Rightarrow> py_error + CGANModel" where
  "y_real_calls fi m [] = Inr m"
| "y_real_calls fi m ((xreal, y) # cs) =
     (case y_real fi m xreal y of
        Inl e \<Rightarrow> Inl e
      | Inr (_, m') \<Rightarrow> y_real_calls fi m' cs)"

section \<open>Network layers\<close>

text \<open>
  The layers are those of \<^verbatim>\<open>torch.nn\<close>, modelled by what they do to a shape.
  \<open>Conv2d cin cout k s p\<close> and \<open>ConvTranspose2d cin cout k s p\<close> carry the channel
  counts, kernel size, stride and padding the source passes. \<open>Reshape\<close> is the
  module of \<^verbatim>\<open>gan_utils\<close>.
\<close>

datatype layer =
    Conv2d nat nat nat nat nat
  | ConvTranspose2d nat nat nat nat nat
  | InstanceNorm2d nat
  | InstanceNorm1d nat
  | LeakyReLU
  | Dropout real
  | Linear nat nat
  | Reshape "int list"
  | Sigmoid

text \<open>
  Two checks of the normalization layers differ between releases of the library, so
  they are switches of the model: whether instance normalization rejects an input with a
  single spatial element, and whether \<open>InstanceNorm1d\<close> accepts an input of rank two.
\<close>

record torch_lib =
  norm_rejects_single :: bool
  norm1d_accepts_rank2 :: bool

text \<open>
  Modelled from the spec: the module \<^verbatim>\<open>Reshape\<close> of \<^verbatim>\<open>gan_utils\<close>, which is not
  part of the source at hand. It is the spec's flattening step,
  \<^verbatim>\<open>tensor.view(*dims)\<close>: at most one dimension is \<open>-1\<close> and is inferred from the number
  of elements.
\<close>

definition view_shape :: "int list \<Rightarrow> nat list \<Rightarrow> py_error + nat list" where
  "view_shape dims sh =
     (let total = prod_list sh;
          known = prod_list (map nat (filter (\<lambda>d. d \<noteq> -1) dims))
      in if list_ex (\<lambda>d. d < -1) dims \<or> 1 < length (filter (\<lambda>d. d = -1) dims)
         then Inl RuntimeError
         else if list_all (\<lambda>d. d \<noteq> -1) dims
         then (if known = total then Inr (map nat dims) else Inl RuntimeError)
         else if 0 < known \<and> total mod known = 0
         then Inr (map (\<lambda>d. if d = -1 then total div known else nat d) dims)
         else Inl RuntimeError)"

fun layer_shape :: "torch_lib \<Rightarrow> layer \<Rightarrow> nat list \<Rightarrow> py_error + nat list" where
  "layer_shape lib (Conv2d cin cout k s p) sh =
     (case sh of
        [n, c, h, w] \<Rightarrow>
          if c = cin \<and> k \<le> h + 2 * p \<and> k \<le> w + 2 * p
          then Inr [n, cout, (h + 2 * p - k) div s + 1, (w + 2 * p - k) div s + 1]
          else Inl RuntimeError
      | _ \<Rightarrow> Inl RuntimeError)"
| "layer_shape lib (ConvTranspose2d cin cout k s p) sh =
     (case sh of
        [n, c, h, w] \<Rightarrow>
          if c = cin \<and> 0 < h \<and> 0 < w \<and> 2 * p < (h - 1) * s + k \<and> 2 * p < (w - 1) * s + k
          then Inr [n, cout, (h - 1) * s + k - 2 * p, (w - 1) * s + k - 2 * p]
          else Inl RuntimeError
      | _ \<Rightarrow> Inl RuntimeError)"
| "layer_shape lib (InstanceNorm2d c) sh =
     (case sh of
        [n, c', h, w] \<Rightarrow>
          if c' \<noteq> c then Inl RuntimeError
          else if norm_rejects_single lib \<and> h * w = 1 then Inl ValueError
          else Inr sh
      | _ \<Rightarrow> Inl ValueError)"
| "layer_shape lib (InstanceNorm1d c) sh =
     (case sh of
        [n, c', l] \<Rightarrow>
          if c' \<noteq> c then Inl RuntimeError
          else if norm_rejects_single lib \<and> l = 1 then Inl ValueError
          else Inr sh
      | [n, l] \<Rightarrow> if norm1d_accepts_rank2 lib then Inr sh else Inl ValueError
      | _ \<Rightarrow> Inl ValueError)"
| "layer_shape lib LeakyReLU sh = Inr sh"
| "layer_shape lib (Dropout p) sh = Inr sh"
| "layer_shape lib (Linear fin fout) sh =
     (if sh \<noteq> [] \<and> last sh = fin then Inr (butlast sh @ [fout]) else Inl RuntimeError)"
| "layer_shape lib (Reshape dims) sh = view_shape dims sh"
| "layer_shape lib Sigmoid sh = Inr sh"

definition sigmoid :: "real \<Rightarrow> real" where
  "sigmoid x = 1 / (1 + exp (- x))"

definition leaky_relu :: "real \<Rightarrow> real" where
  "leaky_relu x = (if 0 \<le> x then x else x / 100)"

text \<open>
  The arithmetic of a layer with weights, statistics or a random mask (convolutions,
  linear maps, normalization, dropout) is a parameter \<open>num\<close>: what is modelled of such
  a layer is its shape. The activations and the reshape are computed.
\<close>

type_synonym arith = "layer \<Rightarrow> tensor \<Rightarrow> real list"

definition layer_elems :: "arith \<Rightarrow> layer \<Rightarrow> tensor \<Rightarrow> real list" where
  "layer_elems num l t =
     (case l of
        Sigmoid \<Rightarrow> map sigmoid (elems t)
      | LeakyReLU \<Rightarrow> map leaky_relu (elems t)
      | Reshape _ \<Rightarrow> elems t
      | _ \<Rightarrow> num l t)"

definition apply_layer :: "torch_lib \<Rightarrow> arith \<Rightarrow> layer \<Rightarrow> tensor \<Rightarrow> py_error + tensor" where
  "apply_layer lib num l t =
     (case layer_shape lib l (shape t) of
        Inl e \<Rightarrow> Inl e
      | Inr s \<Rightarrow> Inr \<lparr>shape = s, elems = layer_elems num l t\<rparr>)"

text \<open>\<^verbatim>\<open>nn.Sequential\<close>: the layers in order; \<open>i\<close> is the position of the next one.\<close>

fun sequential ::
  "torch_lib \<Rightarrow> (nat \<Rightarrow> arith) \<Rightarrow> nat \<Rightarrow> layer list \<Rightarrow> tensor \<Rightarrow> py_error + tensor" where
  "sequential lib num i [] t = Inr t"
| "sequential lib num i (l # ls) t =
     (case apply_layer lib (num i) l t of
        Inl e \<Rightarrow> Inl e
      | Inr t' \<Rightarrow> sequential lib num (Suc i) ls t')"

text \<open>The shapes alone, layer by layer.\<close>

fun sequential_shape :: "torch_lib \<Rightarrow> layer list \<Rightarrow> nat list \<Rightarrow> py_error + nat list" where
  "sequential_shape lib [] sh = Inr sh"
| "sequential_shape lib (l # ls) sh =
     (case layer_shape lib l sh of
        Inl e \<Rightarrow> Inl e
      | Inr sh' \<Rightarrow> sequential_shape lib ls sh')"

section \<open>Command-line arguments\<close>

record Args =
  save_directory :: string
  batch_size :: int
  epochs :: int
  image_frequency :: int
  log_image_frequency :: int
  generator_frequency :: int
  discriminator_lr :: real
  generator_lr :: real
  penalty_weight :: real
  discriminator_instancenorm :: bool
  generator_instancenorm :: bool
  cuda :: bool

text \<open>\<^verbatim>\<open>[m for m in [...] if m is not None]\<close>\<close>

definition not_none :: "'a option list \<Rightarrow> 'a list" where
  "not_none ms = concat (map (\<lambda>m. case m of None \<Rightarrow> [] | Some x \<Rightarrow> [x]) ms)"

section \<open>The two networks\<close>

definition CGeneratorNetwork :: "Args \<Rightarrow> layer list" where
  "CGeneratorNetwork args = not_none [
     Some (Conv2d 3 32 3 1 3),
     (if generator_instancenorm args then Some (InstanceNorm2d 32) else None),
     Some LeakyReLU,
     Some (Dropout (1 / 2)),
     Some (Conv2d 32 64 4 2 1),
     (if generator_instancenorm args then Some (InstanceNorm2d 64) else None),
     Some LeakyReLU,
     Some (Dropout (1 / 2)),
     Some (Conv2d 64 128 4 2 1),
     (if generator_instancenorm args then Some (InstanceNorm2d 128) else None),
     Some LeakyReLU,
     Some (Dropout (1 / 2)),
     Some (Conv2d 128 256 4 2 1),
     (if generator_instancenorm args then Some (InstanceNorm2d 256) else None),
     Some LeakyReLU,
     Some (Dropout (1 / 2)),
     Some (ConvTranspose2d 256 128 4 2 1),
     (if generator_instancenorm args then Some (InstanceNorm2d 128) else None),
     Some LeakyReLU,
     Some (Dropout (1 / 2)),
     Some (ConvTranspose2d 128 64 4 2 1),
     (if generator_instancenorm args then Some (InstanceNorm2d 64) else None),
     Some LeakyReLU,
     Some (Dropout (1 / 2)),
     Some (ConvTranspose2d 64 32 4 2 0),
     (if generator_instancenorm args then Some (InstanceNorm2d 32) else None),
     Some LeakyReLU,
     Some (Conv2d 32 3 3 1 0),
     Some Sigmoid]"

definition CGeneratorNetwork_forward ::
  "torch_lib \<Rightarrow> (nat \<Rightarrow> arith) \<Rightarrow> Args \<Rightarrow> tensor \<Rightarrow> py_error + tensor" where
  "CGeneratorNetwork_forward lib num args y = sequential lib num 0 (CGeneratorNetwork args) y"

definition CDiscriminatorNetwork_trunk :: "Args \<Rightarrow> layer list" where
  "CDiscriminatorNetwork_trunk args = not_none [
     Some (Conv2d 6 64 4 2 1),
     (if discriminator_instancenorm args then Some (InstanceNorm2d 64) else None),
     Some LeakyReLU,
     Some (Conv2d 64 128 4 2 1),
     (if discriminator_instancenorm args then Some (InstanceNorm2d 128) else None),
     Some LeakyReLU,
     Some (Reshape [-1, 128 * 8 * 8]),
     Some (Linear (128 * 8 * 8) 1024),
     (if discriminator_instancenorm args then Some (InstanceNorm1d 1024) else None),
     Some LeakyReLU,
     Some (Linear 1024 1),
     Some (Reshape [-1])]"

text \<open>
  \<^verbatim>\<open>torch.cat((x, y), dim=1)\<close>: the two tensors agree on every axis but the second,
  and each batch element of the result is that of \<open>x\<close> followed by that of \<open>y\<close>.
\<close>

definition rows :: "tensor \<Rightarrow> real list list" where
  "rows t =
     (let r = prod_list (tl (shape t))
      in map (\<lambda>i. take r (drop (i * r) (elems t))) [0 ..< hd (shape t)])"

definition cat_dim1 :: "tensor \<Rightarrow> tensor \<Rightarrow> py_error + tensor" where
  "cat_dim1 x y =
     (let sx = shape x; sy = shape y
      in if 2 \<le> length sx \<and> length sx = length sy \<and> hd sx = hd sy \<and> drop 2 sx = drop 2 sy
         then Inr \<lparr>shape = hd sx # (sx ! 1 + sy ! 1) # drop 2 sx,
                   elems = concat (map (\<lambda>(a, b). a @ b) (zip (rows x) (rows y)))\<rparr>
         else Inl RuntimeError)"

definition CDiscriminatorNetwork_forward ::
  "torch_lib \<Rightarrow> (nat \<Rightarrow> arith) \<Rightarrow> Args \<Rightarrow> tensor \<Rightarrow> tensor \<Rightarrow> py_error + tensor" where
  "CDiscriminatorNetwork_forward lib num args x y =
     (case cat_dim1 x y of
        Inl e \<Rightarrow> Inl e
      | Inr h \<Rightarrow> sequential lib num 0 (CDiscriminatorNetwork_trunk args) h)"

section \<open>Strings: file names of the saved images\<close>

definition digit_char :: "nat \<Rightarrow> char" where
  "digit_char d = ''0123456789'' ! (d mod 10)"

function decimal :: "nat \<Rightarrow> string" where
  "decimal n = (if n < 10 then [digit_char n] else decimal (n div 10) @ [digit_char (n mod 10)])"
  by pat_completeness auto
termination
  by (relation "measure (\<lambda>n. n)") auto

declare decimal.simps [simp del]

text \<open>\<^verbatim>\<open>'{:08d}'.format(i)\<close>: the sign counts towards the width of eight.\<close>

definition format_08d :: "int \<Rightarrow> string" where
  "format_08d i =
     (if 0 \<le> i
      then (let s = decimal (nat i) in replicate (8 - length s) CHR ''0'' @ s)
      else (let s = decimal (nat (- i)) in CHR ''-'' # replicate (7 - length s) CHR ''0'' @ s))"

text \<open>\<^verbatim>\<open>os.path.join(a, b)\<close> on a POSIX system.\<close>

definition os_path_join :: "string \<Rightarrow> string \<Rightarrow> string" where
  "os_path_join a b =
     (if b \<noteq> [] \<and> hd b = CHR ''/'' then b
      else if a = [] \<or> last a = CHR ''/'' then a @ b
      else a @ ''/'' @ b)"

section \<open>Optimizers and gradients\<close>

text \<open>
  \<^verbatim>\<open>module.parameters()\<close>: the weight and bias of every convolution and linear
  layer; the normalization layers are built without affine parameters.
\<close>

fun has_parameters :: "layer \<Rightarrow> bool" where
  "has_parameters (Conv2d _ _ _ _ _) = True"
| "has_parameters (ConvTranspose2d _ _ _ _ _) = True"
| "has_parameters (Linear _ _) = True"
| "has_parameters _ = False"

definition module_parameters :: "submodule \<Rightarrow> layer list \<Rightarrow> pname list" where
  "module_parameters sm ls =
     concat (map (\<lambda>(i, l). if has_parameters l then [(sm, i, Weight), (sm, i, Bias)] else [])
                 (zip [0 ..< length ls] ls))"

text \<open>
  An Adam optimizer over the parameters it was built with. The update rule itself (with
  its moment estimates) is a parameter \<open>upd\<close>: it gets the learning rate, the number of
  steps taken so far, the parameter's name, its value and its gradient.
\<close>

record optimizer =
  param_ids :: "pname list"
  lr :: real
  step_count :: nat

type_synonym update_rule = "real \<Rightarrow> nat \<Rightarrow> pname \<Rightarrow> real list \<Rightarrow> real list \<Rightarrow> real list"

definition Adam :: "pname list \<Rightarrow> real \<Rightarrow> optimizer" where
  "Adam ps rate = \<lparr>param_ids = ps, lr = rate, step_count = 0\<rparr>"

text \<open>\<^verbatim>\<open>opt.zero_grad()\<close>: the gradients of the optimizer's parameters are zeroed.\<close>

definition zero_grad :: "optimizer \<Rightarrow> CGANModel \<Rightarrow> CGANModel" where
  "zero_grad opt m =
     m\<lparr>pgrads := fold (\<lambda>p g. case g p of None \<Rightarrow> g | Some v \<Rightarrow> g(p \<mapsto> map (\<lambda>_. 0) v))
                       (param_ids opt) (pgrads m)\<rparr>"

text \<open>
  A loss is the scalar and the gradient it has with respect to each parameter in its
  graph. \<^verbatim>\<open>loss.backward()\<close> adds those gradients to the stored ones, of whichever
  network.
\<close>

record loss =
  loss_value :: real
  loss_grad :: "pname \<rightharpoonup> real list"

definition backward :: "loss \<Rightarrow> CGANModel \<Rightarrow> CGANModel" where
  "backward l m =
     m\<lparr>pgrads := (\<lambda>p. case loss_grad l p of
                         None \<Rightarrow> pgrads m p
                       | Some d \<Rightarrow>
                           Some (case pgrads m p of
                                   None \<Rightarrow> d
                                 | Some g \<Rightarrow> map (\<lambda>(a, b). a + b) (zip g d)))\<rparr>"

text \<open>
  \<^verbatim>\<open>opt.step()\<close>: every parameter of the optimizer that has a gradient gets its new
  value; no other parameter is written.
\<close>

definition optimizer_step ::
  "update_rule \<Rightarrow> optimizer \<Rightarrow> CGANModel \<Rightarrow> optimizer \<times> CGANModel" where
  "optimizer_step upd opt m =
     (opt\<lparr>step_count := Suc (step_count opt)\<rparr>,
      m\<lparr>pvalues := fold (\<lambda>p v. case pgrads m p of
                                  None \<Rightarrow> v
                                | Some g \<Rightarrow> v(p := upd (lr opt) (step_count opt) p (v p) g))
                        (param_ids opt) (pvalues m)\<rparr>)"

text \<open>The gradient a parameter holds after \<^verbatim>\<open>zero_grad\<close> and \<^verbatim>\<open>backward\<close>: the
  new gradient \<open>d\<close>, added to zeros where a gradient was stored before.\<close>

definition accumulated :: "real list option \<Rightarrow> real list \<Rightarrow> real list" where
  "accumulated old d =
     (case old of
        None \<Rightarrow> d
      | Some g \<Rightarrow> map (\<lambda>(a, b). a + b) (zip (map (\<lambda>_. 0) g) d))"

section \<open>What the program takes from its libraries\<close>

text \<open>
  The numeric work is done by libraries and by two modules that are not part of the source
  at hand (\<^verbatim>\<open>gan_utils\<close>, \<^verbatim>\<open>wgan_loss\<close>). Each is a field of the environment
  below; the program's own control flow is modelled in full around them.
  \<^item> \<open>torch\<close>: the library's release-dependent checks;
  \<^item> \<open>layer_arith\<close>: the arithmetic of the layers, given the mode, the parameter values
    and the network;
  \<^item> \<open>format_images\<close>: \<^verbatim>\<open>gan_utils.format_images\<close>;
  \<^item> \<open>write_png\<close>: the bytes that the pixel pipeline of \<^verbatim>\<open>save_images\<close> (squeeze,
    permute, scale by 255, cast to 8 bits, PNG encoding) produces from the formatted grid;
  \<^item> \<open>adam_rule\<close>: the update rule of Adam;
  \<^item> \<open>mix\<close>: the random interpolation of a real and a generated batch;
  \<^item> \<open>d_loss\<close> and \<open>g_loss\<close>: the scalar losses and their gradients;
  \<^item> \<open>np_random\<close>: the raw values NumPy's generator hands out, by the number of the draw;
  \<^item> \<open>shuffle\<close>: the loader's permutation of the indices, by epoch.
\<close>

record env =
  torch :: torch_lib
  layer_arith :: "bool \<Rightarrow> pstore \<Rightarrow> submodule \<Rightarrow> nat \<Rightarrow> arith"
  format_images :: formatter
  write_png :: "tensor \<Rightarrow> py_error + nat list"
  adam_rule :: update_rule
  mix :: "tensor \<Rightarrow> tensor \<Rightarrow> py_error + tensor"
  d_loss :: "CGANModel \<Rightarrow> tensor \<times> tensor \<Rightarrow> tensor \<Rightarrow> loss"
  g_loss :: "CGANModel \<Rightarrow> tensor \<Rightarrow> loss"
  np_random :: "nat \<Rightarrow> nat"
  shuffle :: "nat \<Rightarrow> nat list"

text \<open>\<^verbatim>\<open>CGANModel(args, discriminator=CDiscriminatorNetwork(args), generator=CGeneratorNetwork(args))\<close>\<close>

definition CGANModel_init :: "env \<Rightarrow> Args \<Rightarrow> pstore \<Rightarrow> CGANModel" where
  "CGANModel_init ev args init_values =
     \<lparr>discriminator = (\<lambda>tr vs. CDiscriminatorNetwork_forward (torch ev)
                                   (layer_arith ev tr vs Discriminator) args),
      generator = (\<lambda>tr vs. CGeneratorNetwork_forward (torch ev)
                              (layer_arith ev tr vs Generator) args),
      state_hooks = Map.empty,
      training = True,
      pvalues = init_values,
      pgrads = Map.empty\<rparr>"

text \<open>
  \<^verbatim>\<open>np.random.randint(low, high)\<close> draws from the discrete uniform distribution on the
  half-open interval: the values it can return, each with its probability.
\<close>

definition randint_distribution :: "int \<Rightarrow> int \<Rightarrow> (int \<times> real) list" where
  "randint_distribution low high =
     map (\<lambda>i. (i, 1 / real_of_int (high - low))) [low .. high - 1]"

text \<open>
  One draw is one outcome of that distribution; which one is decided by the raw value \<open>u\<close>
  of NumPy's generator. An empty interval is an error.
\<close>

definition pick :: "nat \<Rightarrow> ('a \<times> real) list \<Rightarrow> 'a" where
  "pick u outcomes = fst (outcomes ! (u mod length outcomes))"

definition np_random_randint :: "nat \<Rightarrow> int \<Rightarrow> int \<Rightarrow> py_error + int" where
  "np_random_randint u low high =
     (if low < high then Inr (pick u (randint_distribution low high)) else Inl ValueError)"

section \<open>The discriminator's criterion\<close>

text \<open>
  Modelled from the spec: \<^verbatim>\<open>WGANDiscriminatorLoss.forward\<close> of the module
  \<^verbatim>\<open>wgan_loss\<close>, which is not part of the source at hand. By section 4.4 of the spec it
  takes the cached real and generated batches, interpolates them, scores the interpolated
  batch through the \<^verbatim>\<open>discriminate\<close> method (the one the source overrides) and
  combines the scores with the gradient penalty.
\<close>

definition WGANDiscriminatorLoss_forward ::
  "env \<Rightarrow> CGANModel \<Rightarrow> tensor \<times> tensor \<Rightarrow> tensor \<Rightarrow> py_error + loss" where
  "WGANDiscriminatorLoss_forward ev m input target =
     (case state_hooks m ''xreal'' of
        None \<Rightarrow> Inl KeyError
      | Some xreal \<Rightarrow>
          (case state_hooks m ''xfake'' of
             None \<Rightarrow> Inl KeyError
           | Some xfake \<Rightarrow>
               (case mix ev xreal xfake of
                  Inl e \<Rightarrow> Inl e
                | Inr xmix \<Rightarrow>
                    (case CWGANDiscriminatorLoss_discriminate m xmix of
                       Inl e \<Rightarrow> Inl e
                     | Inr ymix \<Rightarrow> Inr (d_loss ev m input ymix)))))"

section \<open>The trainer and its loader\<close>

text \<open>
  \<^verbatim>\<open>DataLoader(DNIMWrapper(), batch_size=args.batch_size, shuffle=True)\<close>: every epoch
  the shuffled indices are cut into batches of \<open>batch_size\<close>; the last batch may be
  shorter and is kept.
\<close>

function chunks :: "nat \<Rightarrow> 'a list \<Rightarrow> 'a list list" where
  "chunks n xs = (if n = 0 \<or> xs = [] then [] else take n xs # chunks n (drop n xs))"
  by pat_completeness auto
termination
  by (relation "measure (\<lambda>(n, xs). length xs)") auto

declare chunks.simps [simp del]

record DataLoader =
  loader_dataset :: DNIMWrapper
  loader_batch_size :: nat

definition dnim_cgan_data_loader :: "Args \<Rightarrow> (tensor \<times> tensor) list \<Rightarrow> py_error + DataLoader" where
  "dnim_cgan_data_loader args data =
     (if batch_size args \<le> 0 then Inl ValueError
      else Inr \<lparr>loader_dataset = DNIMWrapper_init data,
                loader_batch_size = nat (batch_size args)\<rparr>)"

fun collect :: "('e + 'a) list \<Rightarrow> 'e + 'a list" where
  "collect [] = Inr []"
| "collect (r # rs) =
     (case r of
        Inl e \<Rightarrow> Inl e
      | Inr x \<Rightarrow> (case collect rs of Inl e \<Rightarrow> Inl e | Inr xs \<Rightarrow> Inr (x # xs)))"

text \<open>
  One batch of the loader: the samples at the given indices, collated component by
  component.
\<close>

definition fetch_batch ::
  "DNIMWrapper \<Rightarrow> nat list \<Rightarrow> py_error + (tensor \<times> tensor \<times> tensor)" where
  "fetch_batch ds idxs =
     (case collect (map (\<lambda>i. DNIMWrapper_getitem ds (int i)) idxs) of
        Inl e \<Rightarrow> Inl e
      | Inr ss \<Rightarrow>
          (case stack (map fst ss) of
             Inl e \<Rightarrow> Inl e
           | Inr b0 \<Rightarrow>
               (case stack (map item1 ss) of
                  Inl e \<Rightarrow> Inl e
                | Inr b1 \<Rightarrow>
                    (case stack (map (\<lambda>s. snd (snd s)) ss) of
                       Inl e \<Rightarrow> Inl e
                     | Inr b2 \<Rightarrow> Inr (b0, b1, b2)))))"

text \<open>
  \<^verbatim>\<open>trainer.bind_loader('train', train_loader, num_inputs=2)\<close>: the first two
  components of a batch are the arguments of the model's forward pass, in order, and the
  third is the target.
\<close>

definition training_inputs ::
  "DNIMWrapper \<Rightarrow> nat list \<Rightarrow> py_error + ((tensor \<times> tensor) \<times> tensor)" where
  "training_inputs ds idxs =
     (case fetch_batch ds idxs of
        Inl e \<Rightarrow> Inl e
      | Inr (b0, b1, b2) \<Rightarrow> Inr ((b0, b1), b2))"

text \<open>
  The trainer is the framework's. Of its state the model keeps what the program sets or
  reads, and the three fields its loop is driven by: the iterator over the loader (absent
  until the first batch is fetched), the number of iterators made so far, which tells the
  shuffles apart, and the epoch counter.
\<close>

record Trainer =
  model :: CGANModel
  trainer_optimizer :: optimizer
  train_loader :: DataLoader
  loader_iter :: "nat list list option"
  iterators_made :: nat
  epoch_count :: nat
  max_num_epochs :: int
  trainer_save_directory :: string
  written_files :: "(string \<times> nat list) list"
  np_random_draws :: nat
  iteration_count :: nat

text \<open>
  One training iteration of the trainer (the framework's loop, as section 4.6 of the spec
  describes it): the discriminator's gradients are zeroed, the model is applied to the
  inputs, the criterion is evaluated and differentiated, and the trainer's optimizer
  steps.
\<close>

definition train_iteration :: "env \<Rightarrow> Trainer \<Rightarrow> nat list \<Rightarrow> py_error + Trainer" where
  "train_iteration ev tr idxs =
     (case training_inputs (loader_dataset (train_loader tr)) idxs of
        Inl e \<Rightarrow> Inl e
      | Inr ((xreal, y), target) \<Rightarrow>
          (let m1 = zero_grad (trainer_optimizer tr) (model tr)
           in case forward (format_images ev) m1 xreal y of
                Inl e \<Rightarrow> Inl e
              | Inr (prediction, m2) \<Rightarrow>
                  (case WGANDiscriminatorLoss_forward ev m2 prediction target of
                     Inl e \<Rightarrow> Inl e
                   | Inr l \<Rightarrow>
                       (let m3 = backward l m2;
                            (opt', m4) = optimizer_step (adam_rule ev) (trainer_optimizer tr) m3
                        in Inr (tr\<lparr>model := m4, trainer_optimizer := opt',
                                   iteration_count := Suc (iteration_count tr)\<rparr>)))))"

section \<open>The image-sampling callback: \<^verbatim>\<open>CGenerateDataCallback\<close>\<close>

record CGenerateDataCallback =
  gdc_count :: int
  gdc_image_count :: int
  gdc_frequency :: int
  gdc_gridsize :: int
  gdc_dataset :: DNIMWrapper
  gdc_y :: tensor

definition CGenerateDataCallback_init ::
  "Args \<Rightarrow> (tensor \<times> tensor) list \<Rightarrow> py_error + CGenerateDataCallback" where
  "CGenerateDataCallback_init args data =
     (let ds = DNIMWrapper_init data
      in case DNIMWrapper_getitem ds 0 of
           Inl e \<Rightarrow> Inl e
         | Inr s \<Rightarrow>
             Inr \<lparr>gdc_count = 0, gdc_image_count = 0, gdc_frequency = image_frequency args,
                  gdc_gridsize = 1, gdc_dataset = ds, gdc_y = unsqueeze0 (item1 s)\<rparr>)"

text \<open>\<^verbatim>\<open>generate\<close>: evaluation mode, generate from the fixed condition, training mode.\<close>

definition CGenerateDataCallback_generate ::
  "env \<Rightarrow> CGenerateDataCallback \<Rightarrow> Trainer \<Rightarrow> py_error + (tensor \<times> Trainer)" where
  "CGenerateDataCallback_generate ev cb tr =
     (let m1 = (model tr)\<lparr>training := False\<rparr>;
          y = gdc_y cb
      in case generate (format_images ev) m1 y of
           Inl e \<Rightarrow> Inl e
         | Inr (generated, m2) \<Rightarrow> Inr (generated, tr\<lparr>model := m2\<lparr>training := True\<rparr>\<rparr>))"

definition save_images ::
  "env \<Rightarrow> CGenerateDataCallback \<Rightarrow> Trainer \<Rightarrow> py_error + (CGenerateDataCallback \<times> Trainer)" where
  "save_images ev cb tr =
     (let path = os_path_join (trainer_save_directory tr) ''generated_images'';
          image_path = os_path_join path (format_08d (gdc_image_count cb) @ ''.png'');
          cb1 = cb\<lparr>gdc_image_count := gdc_image_count cb + 1\<rparr>
      in case CGenerateDataCallback_generate ev cb1 tr of
           Inl e \<Rightarrow> Inl e
         | Inr (generated, tr1) \<Rightarrow>
             (case format_images ev generated of
                Inl e \<Rightarrow> Inl e
              | Inr grid \<Rightarrow>
                  (case write_png ev grid of
                     Inl e \<Rightarrow> Inl e
                   | Inr bytes \<Rightarrow>
                       Inr (cb1, tr1\<lparr>written_files := written_files tr1 @ [(image_path, bytes)]\<rparr>))))"

definition CGenerateDataCallback_end_of_training_iteration ::
  "env \<Rightarrow> CGenerateDataCallback \<Rightarrow> Trainer \<Rightarrow> py_error + (CGenerateDataCallback \<times> Trainer)" where
  "CGenerateDataCallback_end_of_training_iteration ev cb tr =
     (let cb1 = cb\<lparr>gdc_count := gdc_count cb + 1\<rparr>
      in if gdc_count cb1 > gdc_frequency cb1
         then (case save_images ev cb1 tr of
                 Inl e \<Rightarrow> Inl e
               | Inr (cb2, tr2) \<Rightarrow> Inr (cb2\<lparr>gdc_count := 0\<rparr>, tr2))
         else Inr (cb1, tr))"

section \<open>The generator-training callback: \<^verbatim>\<open>CGeneratorTrainingCallback\<close>\<close>

record CGeneratorTrainingCallback =
  gtc_opt :: optimizer
  gtc_batch_size :: int
  gtc_count :: int
  gtc_frequency :: int
  gtc_dataset :: DNIMWrapper
  gtc_len :: int

definition CGeneratorTrainingCallback_init ::
  "Args \<Rightarrow> pname list \<Rightarrow> (tensor \<times> tensor) list \<Rightarrow> CGeneratorTrainingCallback" where
  "CGeneratorTrainingCallback_init args parameters data =
     (let ds = DNIMWrapper_init data
      in \<lparr>gtc_opt = Adam parameters (generator_lr args), gtc_batch_size = batch_size args,
          gtc_count = 0, gtc_frequency = generator_frequency args, gtc_dataset = ds,
          gtc_len = int (DNIMWrapper_len ds)\<rparr>)"

text \<open>
  The condition of one generator step:
  \<^verbatim>\<open>Variable(self.dataset[np.random.randint(0, self.len)][1]).unsqueeze(0)\<close>.
\<close>

definition train_generator_condition ::
  "CGeneratorTrainingCallback \<Rightarrow> nat \<Rightarrow> py_error + tensor" where
  "train_generator_condition cb u =
     (case np_random_randint u 0 (gtc_len cb) of
        Inl e \<Rightarrow> Inl e
      | Inr i \<Rightarrow>
          (case DNIMWrapper_getitem (gtc_dataset cb) i of
             Inl e \<Rightarrow> Inl e
           | Inr s \<Rightarrow> Inr (unsqueeze0 (item1 s))))"

definition train_generator ::
  "env \<Rightarrow> CGeneratorTrainingCallback \<Rightarrow> Trainer \<Rightarrow>
     py_error + (CGeneratorTrainingCallback \<times> Trainer)" where
  "train_generator ev cb tr =
     (case train_generator_condition cb (np_random ev (np_random_draws tr)) of
        Inl e \<Rightarrow> Inl e
      | Inr y \<Rightarrow>
          (case y_fake (format_images ev) (model tr) y of
             Inl e \<Rightarrow> Inl e
           | Inr (yfake, m1) \<Rightarrow>
               (let l = g_loss ev m1 yfake;
                    m2 = zero_grad (gtc_opt cb) m1;
                    m3 = backward l m2;
                    (opt', m4) = optimizer_step (adam_rule ev) (gtc_opt cb) m3
                in Inr (cb\<lparr>gtc_opt := opt'\<rparr>,
                        tr\<lparr>model := m4, np_random_draws := Suc (np_random_draws tr)\<rparr>))))"

definition CGeneratorTrainingCallback_end_of_training_iteration ::
  "env \<Rightarrow> CGeneratorTrainingCallback \<Rightarrow> Trainer \<Rightarrow>
     py_error + (CGeneratorTrainingCallback \<times> Trainer)" where
  "CGeneratorTrainingCallback_end_of_training_iteration ev cb tr =
     (let cb1 = cb\<lparr>gtc_count := gtc_count cb + 1\<rparr>
      in if gtc_count cb1 > gtc_frequency cb1
         then (case train_generator ev cb1 tr of
                 Inl e \<Rightarrow> Inl e
               | Inr (cb2, tr2) \<Rightarrow> Inr (cb2\<lparr>gtc_count := 0\<rparr>, tr2))
         else Inr (cb1, tr))"

section \<open>The run\<close>

text \<open>
  The trainer with its two callbacks, in the order \<^verbatim>\<open>run\<close> registers them: after each
  training iteration the image callback is told first, the generator callback second.
\<close>

record session =
  trainer :: Trainer
  image_callback :: CGenerateDataCallback
  generator_callback :: CGeneratorTrainingCallback

definition fit_iteration :: "env \<Rightarrow> session \<Rightarrow> nat list \<Rightarrow> py_error + session" where
  "fit_iteration ev st idxs =
     (case train_iteration ev (trainer st) idxs of
        Inl e \<Rightarrow> Inl e
      | Inr tr1 \<Rightarrow>
          (case CGenerateDataCallback_end_of_training_iteration ev (image_callback st) tr1 of
             Inl e \<Rightarrow> Inl e
           | Inr (gdc, tr2) \<Rightarrow>
               (case CGeneratorTrainingCallback_end_of_training_iteration ev
                       (generator_callback st) tr2 of
                  Inl e \<Rightarrow> Inl e
                | Inr (gtc, tr3) \<Rightarrow>
                    Inr \<lparr>trainer = tr3, image_callback = gdc, generator_callback = gtc\<rparr>)))"

text \<open>The batches of the \<open>k\<close>-th iterator over the loader: the \<open>k\<close>-th shuffle, cut up.\<close>

definition loader_batches :: "env \<Rightarrow> Trainer \<Rightarrow> nat \<Rightarrow> nat list list" where
  "loader_batches ev tr k = chunks (loader_batch_size (train_loader tr)) (shuffle ev k)"

text \<open>
  The trainer's \<^verbatim>\<open>fetch_next_batch\<close>. The iterator is made when it is absent. When it is
  exhausted, a new iterator is made, \<^emph>\<open>the epoch counter is advanced\<close>, and the first batch
  of the new iterator is fetched; a new iterator that is empty ends the run with
  \<^verbatim>\<open>StopIteration\<close>.
\<close>

definition fetch_next_batch :: "env \<Rightarrow> Trainer \<Rightarrow> py_error + (nat list \<times> Trainer)" where
  "fetch_next_batch ev tr =
     (let (it, made) =
            (case loader_iter tr of
               None \<Rightarrow> (loader_batches ev tr (iterators_made tr), Suc (iterators_made tr))
             | Some it \<Rightarrow> (it, iterators_made tr))
      in case it of
           b # rest \<Rightarrow> Inr (b, tr\<lparr>loader_iter := Some rest, iterators_made := made\<rparr>)
         | [] \<Rightarrow>
             (case loader_batches ev tr made of
                b # rest \<Rightarrow>
                  Inr (b, tr\<lparr>loader_iter := Some rest, iterators_made := Suc made,
                             epoch_count := Suc (epoch_count tr)\<rparr>)
              | [] \<Rightarrow> Inl StopIteration))"

text \<open>
  The trainer's \<^verbatim>\<open>stop_fitting\<close>, with the limit \<^verbatim>\<open>set_max_num_epochs\<close> has set and no
  limit on the iterations.
\<close>

definition stop_fitting :: "Trainer \<Rightarrow> bool" where
  "stop_fitting tr = (max_num_epochs tr \<le> int (epoch_count tr))"

text \<open>One pass of the training loop: fetch a batch, train on it, tell the callbacks.\<close>

definition fit_step :: "env \<Rightarrow> session \<Rightarrow> py_error + session" where
  "fit_step ev st =
     (case fetch_next_batch ev (trainer st) of
        Inl e \<Rightarrow> Inl e
      | Inr (b, tr) \<Rightarrow> fit_iteration ev (st\<lparr>trainer := tr\<rparr>) b)"

text \<open>
  The number of passes the loop has ahead of it: the batches left in the iterator, the
  batches of the iterators of the epochs still to come, and one more. The epoch counter
  only reaches the limit while the first batch after the last epoch is fetched, and that
  batch is trained on before the loop tests the counter again.
\<close>

definition remaining :: "env \<Rightarrow> Trainer \<Rightarrow> nat" where
  "remaining ev tr =
     (if stop_fitting tr then 0
      else (let (it, made) =
                  (case loader_iter tr of
                     None \<Rightarrow> (loader_batches ev tr (iterators_made tr), Suc (iterators_made tr))
                   | Some it \<Rightarrow> (it, iterators_made tr))
            in length it +
               sum_list (map (\<lambda>k. length (loader_batches ev tr k))
                             [made ..< made + (nat (max_num_epochs tr) - Suc (epoch_count tr))]) +
               1))"

text \<open>
  \<^verbatim>\<open>trainer.fit()\<close>: the loop tests \<^verbatim>\<open>stop_fitting\<close> before every pass and has no other
  exit.
\<close>

function fit_loop :: "env \<Rightarrow> session \<Rightarrow> py_error + session" where
  "fit_loop ev st =
     (if stop_fitting (trainer st) then Inr st
      else (case fit_step ev st of
              Inl e \<Rightarrow> Inl e
            | Inr st' \<Rightarrow> fit_loop ev st'))"
  by pat_completeness auto

definition fit :: "env \<Rightarrow> session \<Rightarrow> py_error + session" where
  "fit ev st = fit_loop ev st"

text \<open>The trainer as \<^verbatim>\<open>run\<close> builds it, before \<^verbatim>\<open>trainer.fit()\<close>.\<close>

definition initial_trainer :: "env \<Rightarrow> Args \<Rightarrow> DataLoader \<Rightarrow> pstore \<Rightarrow> Trainer" where
  "initial_trainer ev args loader init_values =
     \<lparr>model = CGANModel_init ev args init_values,
      trainer_optimizer =
        Adam (module_parameters Discriminator (CDiscriminatorNetwork_trunk args))
             (discriminator_lr args),
      train_loader = loader,
      loader_iter = None,
      iterators_made = 0,
      epoch_count = 0,
      max_num_epochs = epochs args,
      trainer_save_directory = save_directory args,
      written_files = [],
      np_random_draws = 0,
      iteration_count = 0\<rparr>"

text \<open>The trainer and the two callbacks as \<^verbatim>\<open>run\<close> has them when it calls \<^verbatim>\<open>fit\<close>.\<close>

definition initial_session ::
  "env \<Rightarrow> Args \<Rightarrow> (tensor \<times> tensor) list \<Rightarrow> pstore \<Rightarrow> py_error + session" where
  "initial_session ev args data init_values =
     (case dnim_cgan_data_loader args data of
        Inl e \<Rightarrow> Inl e
      | Inr loader \<Rightarrow>
          (let tr = initial_trainer ev args loader init_values
           in case CGenerateDataCallback_init args data of
                Inl e \<Rightarrow> Inl e
              | Inr gdc \<Rightarrow>
                  (let gtc = CGeneratorTrainingCallback_init args
                               (module_parameters Generator (CGeneratorNetwork args)) data
                   in Inr \<lparr>trainer = tr, image_callback = gdc, generator_callback = gtc\<rparr>)))"

definition run ::
  "env \<Rightarrow> Args \<Rightarrow> (tensor \<times> tensor) list \<Rightarrow> pstore \<Rightarrow> py_error + session" where
  "run ev args data init_values =
     (case initial_session ev args data init_values of
        Inl e \<Rightarrow> Inl e
      | Inr st \<Rightarrow> fit ev st)"

text \<open>
  The sessions a run goes through: the one it starts from, and the one after each pass of
  the loop that the loop does make.
\<close>

inductive reachable ::
  "env \<Rightarrow> Args \<Rightarrow> (tensor \<times> tensor) list \<Rightarrow> pstore \<Rightarrow> session \<Rightarrow> bool"
  for ev args data init_values where
    start: "initial_session ev args data init_values = Inr st \<Longrightarrow>
            reachable ev args data init_values st"
  | pass: "reachable ev args data init_values st \<Longrightarrow> \<not> stop_fitting (trainer st) \<Longrightarrow>
           fit_step ev st = Inr st' \<Longrightarrow> reachable ev args data init_values st'"

section \<open>The schedule of a run\<close>

text \<open>
  What the claims about the schedule count: the steps of the two optimizers, the two
  callbacks' counters and frequencies, the index of the next image and the paths of the
  image files written so far.
\<close>

record schedule =
  disc_steps :: nat
  gen_steps :: nat
  gen_count :: int
  gen_frequency :: int
  img_count :: int
  img_frequency :: int
  img_index :: int
  img_files :: "string list"
  img_directory :: string

text \<open>The schedule of a session, read off its trainer and callbacks.\<close>

definition schedule_of :: "session \<Rightarrow> schedule" where
  "schedule_of st =
     \<lparr>disc_steps = step_count (trainer_optimizer (trainer st)),
      gen_steps = step_count (gtc_opt (generator_callback st)),
      gen_count = gtc_count (generator_callback st),
      gen_frequency = gtc_frequency (generator_callback st),
      img_count = gdc_count (image_callback st),
      img_frequency = gdc_frequency (image_callback st),
      img_index = gdc_image_count (image_callback st),
      img_files = map fst (written_files (trainer st)),
      img_directory = trainer_save_directory (trainer st)\<rparr>"

text \<open>The path \<^verbatim>\<open>save_images\<close> computes for the image with index \<open>k\<close>.\<close>

definition image_path :: "string \<Rightarrow> int \<Rightarrow> string" where
  "image_path dir k =
     os_path_join (os_path_join dir ''generated_images'') (format_08d k @ ''.png'')"

text \<open>
  One training iteration on the schedule alone: the trainer's optimizer steps, then the
  image callback counts and tests \<^verbatim>\<open>self.count > self.frequency\<close>, then the generator
  callback does the same. That every iteration of a session is such a tick is lemma
  \<open>fit_iteration_tick\<close> below.
\<close>

definition tick :: "schedule \<Rightarrow> schedule" where
  "tick s =
     (let s1 = s\<lparr>disc_steps := Suc (disc_steps s)\<rparr>;
          s2 = (if img_count s1 + 1 > img_frequency s1
                then s1\<lparr>img_count := 0, img_index := img_index s1 + 1,
                        img_files := img_files s1 @ [image_path (img_directory s1) (img_index s1)]\<rparr>
                else s1\<lparr>img_count := img_count s1 + 1\<rparr>)
      in if gen_count s2 + 1 > gen_frequency s2
         then s2\<lparr>gen_count := 0, gen_steps := Suc (gen_steps s2)\<rparr>
         else s2\<lparr>gen_count := gen_count s2 + 1\<rparr>)"

definition initial_schedule :: "Args \<Rightarrow> schedule" where
  "initial_schedule args =
     \<lparr>disc_steps = 0, gen_steps = 0, gen_count = 0,
      gen_frequency = generator_frequency args,
      img_count = 0, img_frequency = image_frequency args, img_index = 0,
      img_files = [], img_directory = save_directory args\<rparr>"

text \<open>
  The number of training iterations of a run: every batch of the iterators of its epochs,
  and one more when there is an epoch at all.
\<close>

definition iterations :: "env \<Rightarrow> Args \<Rightarrow> nat" where
  "iterations ev args =
     (if epochs args \<le> 0 then 0
      else sum_list (map (\<lambda>e. length (chunks (nat (batch_size args)) (shuffle ev e)))
                         [0 ..< nat (epochs args)]) + 1)"

section \<open>Observations and sample inputs\<close>

text \<open>The shape of a result, or the error.\<close>

definition result_shape :: "py_error + tensor \<Rightarrow> py_error + nat list" where
  "result_shape r = (case r of Inl e \<Rightarrow> Inl e | Inr t \<Rightarrow> Inr (shape t))"

text \<open>An image of the nominal size, three channels of 32 by 32 pixels, of one colour.\<close>

definition image :: "real \<Rightarrow> tensor" where
  "image c = \<lparr>shape = [3, 32, 32], elems = replicate 3072 c\<rparr>"

text \<open>A batch of \<open>n\<close> images of \<open>c\<close> channels, \<open>h\<close> by \<open>w\<close> pixels, of one colour.\<close>

definition batch_of :: "nat \<Rightarrow> nat \<Rightarrow> nat \<Rightarrow> nat \<Rightarrow> real \<Rightarrow> tensor" where
  "batch_of n c h w v = \<lparr>shape = [n, c, h, w], elems = replicate (n * c * h * w) v\<rparr>"

text \<open>A dataset of four (day, night) pairs; the days are bright, the nights dark.\<close>

definition example_data :: "(tensor \<times> tensor) list" where
  "example_data =
     [(image 1, image 0), (image (3 / 4), image (1 / 4)),
      (image (7 / 8), image (1 / 8)), (image (5 / 8), image (3 / 8))]"

text \<open>The defaults of the argument parser, without an accelerator.\<close>

definition default_args :: Args where
  "default_args =
     \<lparr>save_directory = ''output/dnim_cwgangp/v1'', batch_size = 3, epochs = 100,
      image_frequency = 10, log_image_frequency = 100, generator_frequency = 10,
      discriminator_lr = 3 / 10000, generator_lr = 3 / 10000, penalty_weight = 20,
      discriminator_instancenorm = False, generator_instancenorm = True, cuda = False\<rparr>"

definition strict_lib :: torch_lib where
  "strict_lib = \<lparr>norm_rejects_single = True, norm1d_accepts_rank2 = False\<rparr>"

text \<open>
  The arithmetic of networks whose weights and biases are all zero: every layer with
  parameters, every normalization and every dropout returns zeros of its output shape.
\<close>

definition zero_arith :: "torch_lib \<Rightarrow> nat \<Rightarrow> arith" where
  "zero_arith lib i l t =
     (case layer_shape lib l (shape t) of
        Inl e \<Rightarrow> []
      | Inr s \<Rightarrow> replicate (prod_list s) 0)"

text \<open>
  A wrapper around two probes instead of networks: the generator returns its input and the
  discriminator returns the condition it was given, which makes the condition of every
  call visible in the result.
\<close>

definition probe_model :: CGANModel where
  "probe_model =
     \<lparr>discriminator = (\<lambda>tr vs x y. Inr y),
      generator = (\<lambda>tr vs y. Inr y),
      state_hooks = Map.empty,
      training = True,
      pvalues = (\<lambda>p. []),
      pgrads = Map.empty\<rparr>"

text \<open>
  Networks of zero weights, a formatter that returns the image as it is, plain gradient
  descent in place of Adam's rule, the interpolation with mixing coefficient one, losses
  with a gradient of one for every parameter, a stream of raw random values and a loader
  that rotates the four indices.
\<close>

definition example_env :: env where
  "example_env =
     \<lparr>torch = strict_lib,
      layer_arith = (\<lambda>tr vs sm. zero_arith strict_lib),
      format_images = Inr,
      write_png = (\<lambda>t. Inr (map (\<lambda>v. nat \<lfloor>v * 255\<rfloor> mod 256) (elems t))),
      adam_rule = (\<lambda>rate k p v g. map (\<lambda>(a, b). a - rate * b) (zip v g)),
      mix = (\<lambda>a b. if shape a = shape b then Inr a else Inl RuntimeError),
      d_loss = (\<lambda>m scores ymix. \<lparr>loss_value = 0, loss_grad = (\<lambda>p. Some [1])\<rparr>),
      g_loss = (\<lambda>m yfake. \<lparr>loss_value = 0, loss_grad = (\<lambda>p. Some [1])\<rparr>),
      np_random = (\<lambda>k. 5 + 3 * k),
      shuffle = (\<lambda>e. rotate e [0, 1, 2, 3])\<rparr>"

text \<open>The configuration of the spec's end-to-end scenario.\<close>

definition scenario_args :: Args where
  "scenario_args =
     default_args\<lparr>batch_size := 2, epochs := 2, image_frequency := 1,
                  generator_frequency := 1\<rparr>"

text \<open>Ten epochs of two batches with the default frequencies.\<close>

definition ten_epochs_args :: Args where
  "ten_epochs_args = default_args\<lparr>batch_size := 2, epochs := 10\<rparr>"

definition example_loader :: DataLoader where
  "example_loader = \<lparr>loader_dataset = DNIMWrapper_init example_data, loader_batch_size = 3\<rparr>"

definition example_trainer :: Trainer where
  "example_trainer = initial_trainer example_env default_args example_loader (\<lambda>p. [0])"

definition example_generator_callback :: CGeneratorTrainingCallback where
  "example_generator_callback =
     CGeneratorTrainingCallback_init default_args
       (module_parameters Generator (CGeneratorNetwork default_args)) example_data"

section \<open>Conditions under which a run returns\<close>

text \<open>Images of the nominal size, and a dataset of \<open>n\<close> pairs of them.\<close>

definition nominal :: "tensor \<Rightarrow> bool" where
  "nominal t = (shape t = [3, 32, 32])"

definition nominal_dataset :: "nat \<Rightarrow> DNIMWrapper \<Rightarrow> bool" where
  "nominal_dataset n ds =
     (length (days ds) = n \<and> length (nights ds) = n \<and>
      list_all nominal (days ds) \<and> list_all nominal (nights ds))"

text \<open>A wrapper whose two networks are the ones \<^verbatim>\<open>run\<close> builds from the arguments.\<close>

definition built :: "env \<Rightarrow> Args \<Rightarrow> CGANModel \<Rightarrow> bool" where
  "built ev args m =
     (discriminator m = discriminator (CGANModel_init ev args (\<lambda>p. [])) \<and>
      generator m = generator (CGANModel_init ev args (\<lambda>p. [])))"

text \<open>
  An environment whose formatter and image writer never raise, whose interpolation keeps the
  shape of batches of equal shape, and whose library accepts the normalization of the
  discriminator.
\<close>

definition total_env :: "env \<Rightarrow> Args \<Rightarrow> bool" where
  "total_env ev args =
     ((\<forall>t. \<exists>r. format_images ev t = Inr r) \<and>
      (\<forall>t. \<exists>b. write_png ev t = Inr b) \<and>
      (\<forall>a b. shape a = shape b \<longrightarrow> (\<exists>x. mix ev a b = Inr x \<and> shape x = shape a)) \<and>
      \<not> (discriminator_instancenorm args \<and> \<not> norm1d_accepts_rank2 (torch ev)))"

text \<open>A session on a nominal dataset of \<open>d\<close> pairs, ready for a training iteration.\<close>

definition valid_batch :: "nat \<Rightarrow> nat list \<Rightarrow> bool" where
  "valid_batch d b = (b \<noteq> [] \<and> list_all (\<lambda>i. i < d) b)"

definition ready :: "env \<Rightarrow> Args \<Rightarrow> nat \<Rightarrow> session \<Rightarrow> bool" where
  "ready ev args d st =
     (0 < d \<and> built ev args (model (trainer st)) \<and>
      nominal_dataset d (loader_dataset (train_loader (trainer st))) \<and>
      0 < loader_batch_size (train_loader (trainer st)) \<and>
      (case loader_iter (trainer st) of None \<Rightarrow> True | Some it \<Rightarrow> list_all (valid_batch d) it) \<and>
      shape (gdc_y (image_callback st)) = [1, 3, 32, 32] \<and>
      nominal_dataset d (gtc_dataset (generator_callback st)) \<and>
      gtc_len (generator_callback st) = int d)"

text \<open>A loader whose every shuffle is a non-empty list of indices of the dataset.\<close>

definition valid_shuffles :: "env \<Rightarrow> nat \<Rightarrow> bool" where
  "valid_shuffles ev d = (\<forall>e. shuffle ev e \<noteq> [] \<and> list_all (\<lambda>i. i < d) (shuffle ev e))"

section \<open>Properties of the model wrapper\<close>

lemma generate_hooks_y:
  "generate fi m y = Inr (xf, m') \<Longrightarrow> state_hooks m' ''y'' = Some y"
  by (auto simp: generate_def Let_def split: sum.splits)

lemma generate_fields:
  "generate fi m y = Inr (xf, m') \<Longrightarrow>
     discriminator m' = discriminator m \<and> generator m' = generator m \<and>
     training m' = training m \<and> pvalues m' = pvalues m \<and> pgrads m' = pgrads m"
  by (auto simp: generate_def Let_def split: sum.splits)

lemma y_real_hooks_y:
  "y_real fi m xreal y = Inr (r, m') \<Longrightarrow> state_hooks m' ''y'' = state_hooks m ''y''"
  by (auto simp: y_real_def Let_def split: sum.splits)

lemma y_real_fields:
  "y_real fi m xreal y = Inr (r, m') \<Longrightarrow>
     discriminator m' = discriminator m \<and> generator m' = generator m \<and>
     training m' = training m \<and> pvalues m' = pvalues m \<and> pgrads m' = pgrads m"
  by (auto simp: y_real_def Let_def split: sum.splits)

lemma y_fake_hooks_y:
  "y_fake fi m y = Inr (r, m') \<Longrightarrow> state_hooks m' ''y'' = Some y"
  by (auto simp: y_fake_def split: sum.splits dest: generate_hooks_y)

lemma y_fake_fields:
  "y_fake fi m y = Inr (r, m') \<Longrightarrow>
     discriminator m' = discriminator m \<and> generator m' = generator m \<and>
     training m' = training m \<and> pvalues m' = pvalues m \<and> pgrads m' = pgrads m"
  by (auto simp: y_fake_def split: sum.splits dest: generate_fields)

lemma forward_hooks_y:
  "forward fi m xreal y = Inr (r, m') \<Longrightarrow> state_hooks m' ''y'' = Some y"
  by (auto simp: forward_def split: sum.splits dest: y_fake_hooks_y)

lemma y_real_calls_keep:
  "y_real_calls fi m cs = Inr m' \<Longrightarrow>
     state_hooks m' ''y'' = state_hooks m ''y'' \<and> discriminator m' = discriminator m \<and>
     training m' = training m \<and> pvalues m' = pvalues m"
proof (induction cs arbitrary: m)
  case Nil
  then show ?case by simp
next
  case (Cons c cs)
  obtain xreal y where c: "c = (xreal, y)" by (cases c)
  from Cons.prems c obtain r m1 where
    s: "y_real fi m xreal y = Inr (r, m1)" and rest: "y_real_calls fi m1 cs = Inr m'"
    by (auto split: sum.splits)
  from Cons.IH [OF rest] y_real_hooks_y [OF s] y_real_fields [OF s]
  show ?case by simp
qed

section \<open>Properties of the dataset and the loader\<close>

lemma py_index_nat:
  "py_index xs (int i) = (if i < length xs then Inr (xs ! i) else Inl IndexError)"
  by (simp add: py_index_def)

lemma getitem_nat:
  "DNIMWrapper_getitem ds (int i) = Inr s \<Longrightarrow>
     s = (days ds ! i, nights ds ! i, nights ds ! i) \<and>
     i < length (days ds) \<and> i < length (nights ds)"
  by (auto simp: DNIMWrapper_getitem_def py_index_nat split: sum.splits if_splits)

lemma collect_getitem:
  "collect (map (\<lambda>i. DNIMWrapper_getitem ds (int i)) idxs) = Inr ss \<Longrightarrow>
     ss = map (\<lambda>i. (days ds ! i, nights ds ! i, nights ds ! i)) idxs"
proof (induction idxs arbitrary: ss)
  case Nil
  then show ?case by simp
next
  case (Cons i idxs)
  from Cons.prems obtain s rest where
    s: "DNIMWrapper_getitem ds (int i) = Inr s" and
    r: "collect (map (\<lambda>i. DNIMWrapper_getitem ds (int i)) idxs) = Inr rest" and
    ss: "ss = s # rest"
    by (auto split: sum.splits)
  from getitem_nat [OF s] Cons.IH [OF r] ss show ?case by simp
qed

lemma training_inputs_components:
  assumes "training_inputs ds idxs = Inr ((xreal, y), target)"
  shows "stack (map (\<lambda>i. days ds ! i) idxs) = Inr xreal \<and>
         stack (map (\<lambda>i. nights ds ! i) idxs) = Inr y"
proof -
  from assms obtain ss where
    c: "collect (map (\<lambda>i. DNIMWrapper_getitem ds (int i)) idxs) = Inr ss" and
    x: "stack (map fst ss) = Inr xreal" and y: "stack (map item1 ss) = Inr y"
    by (auto simp: training_inputs_def fetch_batch_def split: sum.splits)
  from collect_getitem [OF c] x y show ?thesis
    by (simp add: item1_def comp_def)
qed

lemma randint_value:
  "np_random_randint u low high =
     (if low < high then Inr (low + int (u mod nat (high - low))) else Inl ValueError)"
proof (cases "low < high")
  case True
  let ?n = "nat (high - low)"
  from True have n: "0 < ?n" by simp
  then have k: "u mod ?n < ?n" by simp
  have len: "length (randint_distribution low high) = ?n"
    by (simp add: randint_distribution_def)
  from k have "int (u mod ?n) < int ?n" by (simp only: of_nat_less_iff)
  with True have "low + int (u mod ?n) \<le> high - 1" by simp
  then have "[low .. high - 1] ! (u mod ?n) = low + int (u mod ?n)"
    by (rule nth_upto)
  with k True have "fst (randint_distribution low high ! (u mod ?n)) = low + int (u mod ?n)"
    by (simp add: randint_distribution_def)
  with True len show ?thesis
    by (simp add: np_random_randint_def pick_def)
next
  case False
  then show ?thesis by (simp add: np_random_randint_def)
qed

lemma randint_range:
  assumes "np_random_randint u low high = Inr j"
  shows "low \<le> j \<and> j < high"
proof -
  from assms have lt: "low < high" and j: "j = low + int (u mod nat (high - low))"
    by (auto simp: randint_value split: if_splits)
  from lt have "u mod nat (high - low) < nat (high - low)" by simp
  then have "int (u mod nat (high - low)) < int (nat (high - low))"
    by (simp only: of_nat_less_iff)
  with lt j show ?thesis by simp
qed

lemma train_generator_condition_night:
  assumes "train_generator_condition cb u = Inr c"
  shows "\<exists>i. i < length (nights (gtc_dataset cb)) \<and> int i < gtc_len cb \<and>
             c = unsqueeze0 (nights (gtc_dataset cb) ! i)"
proof -
  from assms obtain j s where
    j: "np_random_randint u 0 (gtc_len cb) = Inr j" and
    s: "DNIMWrapper_getitem (gtc_dataset cb) j = Inr s" and c: "c = unsqueeze0 (item1 s)"
    by (auto simp: train_generator_condition_def split: sum.splits)
  from randint_range [OF j] have "0 \<le> j" "j < gtc_len cb"
    by simp_all
  then obtain i where i: "j = int i" "int i < gtc_len cb"
    by (metis nonneg_int_cases)
  from getitem_nat [OF s [unfolded i(1)]] c i show ?thesis
    by (auto simp: item1_def)
qed

lemma image_callback_condition:
  assumes "CGenerateDataCallback_init args data = Inr cb"
  shows "data \<noteq> [] \<and> gdc_y cb = unsqueeze0 (snd (hd data)) \<and>
         gdc_frequency cb = image_frequency args \<and> gdc_count cb = 0 \<and> gdc_image_count cb = 0"
proof -
  from assms obtain s where
    s: "DNIMWrapper_getitem (DNIMWrapper_init data) (int 0) = Inr s" and
    cb: "gdc_y cb = unsqueeze0 (item1 s)" "gdc_frequency cb = image_frequency args"
        "gdc_count cb = 0" "gdc_image_count cb = 0"
    by (auto simp: CGenerateDataCallback_init_def Let_def split: sum.splits)
  from getitem_nat [OF s] have "data \<noteq> []" "item1 s = snd (hd data)"
    by (auto simp: DNIMWrapper_init_def item1_def hd_conv_nth)
  with cb show ?thesis by simp
qed

section \<open>Properties of the networks\<close>

lemma result_shape_sequential:
  "result_shape (sequential lib num i ls t) = sequential_shape lib ls (shape t)"
proof (induction ls arbitrary: i t)
  case Nil
  then show ?case by (simp add: result_shape_def)
next
  case (Cons l ls)
  show ?case
  proof (cases "layer_shape lib l (shape t)")
    case (Inl e)
    then show ?thesis by (simp add: apply_layer_def result_shape_def)
  next
    case (Inr s)
    then show ?thesis using Cons.IH by (simp add: apply_layer_def)
  qed
qed

lemma sequential_append:
  "sequential lib num i (ls @ [l]) t =
     (case sequential lib num i ls t of
        Inl e \<Rightarrow> Inl e
      | Inr t1 \<Rightarrow> apply_layer lib (num (i + length ls)) l t1)"
  by (induction ls arbitrary: i t) (auto split: sum.splits)

lemma sigmoid_range: "0 \<le> sigmoid x \<and> sigmoid x \<le> 1"
proof -
  have p: "0 < 1 + exp (- x)" by (simp add: add_pos_pos)
  have "1 / (1 + exp (- x)) \<le> 1" using p by (simp add: divide_le_eq_1_pos)
  moreover have "0 \<le> 1 / (1 + exp (- x))" using p by simp
  ultimately show ?thesis by (simp add: sigmoid_def)
qed

lemma generator_shape:
  assumes "0 < h" "0 < w" "generator_instancenorm args \<and> norm_rejects_single lib \<longrightarrow> 1 < h * w"
  shows "sequential_shape lib (CGeneratorNetwork args) [n, 3, 8 * h, 8 * w] = Inr [n, 3, 8 * h, 8 * w]"
proof -
  from assms obtain h' w' where hw: "h = Suc h'" "w = Suc w'"
    by (cases h; cases w) simp_all
  with assms(3) have "generator_instancenorm args \<and> norm_rejects_single lib \<longrightarrow> 0 < h' \<or> 0 < w'"
    by auto
  then show ?thesis
    unfolding hw by (auto simp add: CGeneratorNetwork_def not_none_def)
qed


lemma sequential_sigmoid_range:
  assumes "sequential lib num i (ls @ [Sigmoid]) t = Inr x"
  shows "list_all (\<lambda>e. 0 \<le> e \<and> e \<le> 1) (elems x)"
proof -
  from assms obtain t1 where "apply_layer lib (num (i + length ls)) Sigmoid t1 = Inr x"
    by (auto simp: sequential_append split: sum.splits)
  then have "elems x = map sigmoid (elems t1)"
    by (auto simp: apply_layer_def layer_elems_def)
  then show ?thesis
    by (simp add: list_all_iff sigmoid_range)
qed

lemma generator_ends_with_sigmoid: "\<exists>ls. CGeneratorNetwork args = ls @ [Sigmoid]"
proof -
  have "CGeneratorNetwork args = butlast (CGeneratorNetwork args) @ [Sigmoid]"
    by (simp add: CGeneratorNetwork_def not_none_def)
  then show ?thesis by blast
qed

lemma cat_dim1_shape:
  "shape x = [n, cx, h, w] \<Longrightarrow> shape y = [n, cy, h, w] \<Longrightarrow>
     result_shape (cat_dim1 x y) = Inr [n, cx + cy, h, w]"
  by (simp add: cat_dim1_def result_shape_def Let_def)

lemma trunk_shape:
  "0 < n \<Longrightarrow> sequential_shape lib (CDiscriminatorNetwork_trunk args) [n, 6, 32, 32] =
     (if discriminator_instancenorm args \<and> \<not> norm1d_accepts_rank2 lib
      then Inl ValueError else Inr [n])"
  by (simp add: CDiscriminatorNetwork_trunk_def not_none_def view_shape_def)

section \<open>Claims about the condition\<close>

lemmas wrapper_defs =
  generate_def y_fake_def y_real_def forward_def discriminate_def
  CWGANDiscriminatorLoss_discriminate_def probe_model_def

text \<open>
  \<^bold>\<open>Claim C10.\<close> The dictionary entry \<^verbatim>\<open>_state_hooks['y']\<close> is written by
  \<^verbatim>\<open>generate\<close> (and so by \<^verbatim>\<open>y_fake\<close>) and never by \<^verbatim>\<open>y_real\<close>, which leaves it
  as it was. The forward pass evaluates \<^verbatim>\<open>y_real\<close> first and \<^verbatim>\<open>y_fake\<close> second, so
  after every forward pass that returns, the cached condition is the \<open>y\<close> it was called
  with.
\<close>

theorem condition_cache_written_by_generate_only:
  "(generate fi m y = Inr (xfake, m1) \<longrightarrow> state_hooks m1 ''y'' = Some y) \<and>
   (y_fake fi m y = Inr (yfake, m2) \<longrightarrow> state_hooks m2 ''y'' = Some y) \<and>
   (y_real fi m xreal y = Inr (yreal, m3) \<longrightarrow> state_hooks m3 ''y'' = state_hooks m ''y'') \<and>
   (forward fi m xreal y = Inr (scores, m4) \<longrightarrow> state_hooks m4 ''y'' = Some y)"
  by (intro conjI impI)
    (erule generate_hooks_y y_fake_hooks_y y_real_hooks_y forward_hooks_y)+

text \<open>
  Claim C10 on the probe wrapper: all four calls return; \<^verbatim>\<open>y_real\<close> on a fresh wrapper
  leaves the entry absent, the three others store their condition.
\<close>

theorem condition_cache_written_by_generate_only_witness:
  "\<exists>xfake m1 yfake m2 yreal m3 scores m4.
     generate Inr probe_model (image 0) = Inr (xfake, m1) \<and> state_hooks m1 ''y'' = Some (image 0) \<and>
     y_fake Inr probe_model (image 0) = Inr (yfake, m2) \<and> state_hooks m2 ''y'' = Some (image 0) \<and>
     y_real Inr probe_model (image 1) (image 0) = Inr (yreal, m3) \<and> state_hooks m3 ''y'' = None \<and>
     forward Inr probe_model (image 1) (image 0) = Inr (scores, m4) \<and>
     state_hooks m4 ''y'' = Some (image 0)"
proof -
  obtain xfake m1 where g: "generate Inr probe_model (image 0) = Inr (xfake, m1)"
    by (simp add: wrapper_defs)
  obtain yfake m2 where f: "y_fake Inr probe_model (image 0) = Inr (yfake, m2)"
    by (simp add: wrapper_defs)
  obtain yreal m3 where r: "y_real Inr probe_model (image 1) (image 0) = Inr (yreal, m3)"
    by (simp add: wrapper_defs)
  obtain scores m4 where w: "forward Inr probe_model (image 1) (image 0) = Inr (scores, m4)"
    by (simp add: wrapper_defs)
  have "state_hooks probe_model ''y'' = None" by (simp add: probe_model_def)
  with g f r w
    condition_cache_written_by_generate_only
      [of Inr probe_model "image 0" xfake m1 yfake m2 "image 1" yreal m3 scores m4]
  show ?thesis by simp
qed

text \<open>
  Claim C3 as stated fails. On the probe wrapper, \<^verbatim>\<open>generate\<close> is called with a dark
  condition and then \<^verbatim>\<open>y_real\<close> with another condition. The most recent of the two
  calls is \<^verbatim>\<open>y_real\<close>, yet the loss scores the interpolated image with the condition
  of the earlier \<^verbatim>\<open>generate\<close>.
\<close>

theorem loss_condition_not_from_y_real:
  "(case generate Inr probe_model (unsqueeze0 (image 0)) of
      Inl e \<Rightarrow> False
    | Inr (xfake, m1) \<Rightarrow>
        (case y_real Inr m1 (unsqueeze0 (image 1)) (unsqueeze0 (image (1 / 4))) of
           Inl e \<Rightarrow> False
         | Inr (yreal, m2) \<Rightarrow>
             CWGANDiscriminatorLoss_discriminate m2 (unsqueeze0 (image (1 / 2)))
               = Inr (unsqueeze0 (image 0)) \<and>
             discriminate m2 (unsqueeze0 (image (1 / 2))) (unsqueeze0 (image (1 / 4)))
               = Inr (unsqueeze0 (image (1 / 4))) \<and>
             unsqueeze0 (image 0) \<noteq> unsqueeze0 (image (1 / 4))))"
  by (simp add: wrapper_defs unsqueeze0_def image_def)

text \<open>
  \<^bold>\<open>Claim C3, amended.\<close> When the discriminator loss scores the interpolated image, the
  condition it passes to the discriminator is the one cached by the most recent call of
  \<^verbatim>\<open>generate\<close> (directly or through \<^verbatim>\<open>y_fake\<close>); calls of \<^verbatim>\<open>y_real\<close> in between do
  not change it. The interpolated image is passed as it is, as the image argument, and the
  condition is passed as it was cached.
\<close>

theorem loss_condition_is_last_generated:
  assumes "generate fi m y = Inr (xfake, m1)" and "y_real_calls fi m1 cs = Inr m2"
  shows "CWGANDiscriminatorLoss_discriminate m2 xmix
           = discriminator m (training m) (pvalues m) xmix y"
proof -
  from generate_hooks_y [OF assms(1)] generate_fields [OF assms(1)]
       y_real_calls_keep [OF assms(2)]
  show ?thesis
    by (simp add: CWGANDiscriminatorLoss_discriminate_def discriminate_def)
qed

text \<open>
  The amended claim C3 on the probe wrapper: after \<^verbatim>\<open>generate\<close> on a dark condition and
  one call of \<^verbatim>\<open>y_real\<close> with another, the loss passes the dark condition.
\<close>

theorem loss_condition_is_last_generated_witness:
  "\<exists>xfake m1 m2.
     generate Inr probe_model (unsqueeze0 (image 0)) = Inr (xfake, m1) \<and>
     y_real_calls Inr m1 [(unsqueeze0 (image 1), unsqueeze0 (image (1 / 4)))] = Inr m2 \<and>
     CWGANDiscriminatorLoss_discriminate m2 (unsqueeze0 (image (1 / 2)))
       = Inr (unsqueeze0 (image 0))"
proof -
  obtain xfake m1 where g: "generate Inr probe_model (unsqueeze0 (image 0)) = Inr (xfake, m1)"
    by (simp add: wrapper_defs)
  then have d: "discriminator m1 = (\<lambda>tr vs x y. Inr y)"
    using generate_fields [OF g] by (simp add: probe_model_def)
  obtain m2 where
    r: "y_real_calls Inr m1 [(unsqueeze0 (image 1), unsqueeze0 (image (1 / 4)))] = Inr m2"
    by (simp add: y_real_def discriminate_def d)
  from loss_condition_is_last_generated [OF g r, of "unsqueeze0 (image (1 / 2))"] g r
  show ?thesis by (auto simp: probe_model_def)
qed

lemmas dataset_defs =
  DNIMWrapper_init_def DNIMWrapper_getitem_def DNIMWrapper_len_def py_index_def item1_def
  example_data_def

section \<open>Claims about the shapes of the networks\<close>

text \<open>
  Claim C5 as stated fails. A batch of one image of 28 by 28 pixels, the size the comment
  of the network names, comes out with 32 by 32 pixels.
\<close>

theorem generator_changes_shape_of_28:
  "shape (batch_of 1 3 28 28 0) = [1, 3, 28, 28] \<and>
   result_shape (CGeneratorNetwork_forward strict_lib (zero_arith strict_lib) default_args
                   (batch_of 1 3 28 28 0)) = Inr [1, 3, 32, 32]"
  unfolding CGeneratorNetwork_forward_def result_shape_sequential
  by (simp add: batch_of_def CGeneratorNetwork_def not_none_def default_args_def
      strict_lib_def)

text \<open>
  \<^bold>\<open>Claim C5, amended.\<close> For every batch of at least one condition image with three
  channels whose height and width are positive multiples of eight (the nominal 32 by 32
  among them; with instance normalization in a release that rejects a single spatial
  element, not 8 by 8), the generator returns a batch of the same shape. Whenever the
  generator returns, on any input, every element of its output lies in the interval from
  0 to 1.
\<close>

theorem generator_shape_and_range:
  "(0 < n \<and> 0 < h \<and> 0 < w \<and> shape y = [n, 3, 8 * h, 8 * w] \<and>
    (generator_instancenorm args \<and> norm_rejects_single lib \<longrightarrow> 1 < h * w)
      \<longrightarrow> result_shape (CGeneratorNetwork_forward lib num args y) = Inr (shape y)) \<and>
   (CGeneratorNetwork_forward lib num args y = Inr x
      \<longrightarrow> list_all (\<lambda>e. 0 \<le> e \<and> e \<le> 1) (elems x))"
proof (intro conjI impI)
  assume a: "0 < n \<and> 0 < h \<and> 0 < w \<and> shape y = [n, 3, 8 * h, 8 * w] \<and>
    (generator_instancenorm args \<and> norm_rejects_single lib \<longrightarrow> 1 < h * w)"
  then have "sequential_shape lib (CGeneratorNetwork args) (shape y) = Inr (shape y)"
    using generator_shape [of h w args lib n] by simp
  then show "result_shape (CGeneratorNetwork_forward lib num args y) = Inr (shape y)"
    by (simp add: CGeneratorNetwork_forward_def result_shape_sequential)
next
  assume r: "CGeneratorNetwork_forward lib num args y = Inr x"
  obtain ls where "CGeneratorNetwork args = ls @ [Sigmoid]"
    using generator_ends_with_sigmoid by blast
  with r show "list_all (\<lambda>e. 0 \<le> e \<and> e \<le> 1) (elems x)"
    using sequential_sigmoid_range [of lib num 0 ls y x]
    by (simp add: CGeneratorNetwork_forward_def)
qed

text \<open>
  The amended claim C5 at one image of the nominal size, with the default arguments and
  networks of zero weights.
\<close>

theorem generator_shape_and_range_witness:
  "\<exists>x. CGeneratorNetwork_forward strict_lib (zero_arith strict_lib) default_args
          (batch_of 1 3 32 32 0) = Inr x \<and>
       shape x = [1, 3, 32, 32] \<and> list_all (\<lambda>e. 0 \<le> e \<and> e \<le> 1) (elems x)"
proof -
  let ?r = "CGeneratorNetwork_forward strict_lib (zero_arith strict_lib) default_args
              (batch_of 1 3 32 32 0)"
  have s: "shape (batch_of 1 3 32 32 0) = [1, 3, 8 * 4, 8 * 4]"
    by (simp add: batch_of_def)
  have "result_shape ?r = Inr [1, 3, 32, 32]"
    using generator_shape_and_range
      [of 1 4 4 "batch_of 1 3 32 32 0" default_args strict_lib "zero_arith strict_lib"] s
    by simp
  then obtain x where x: "?r = Inr x" "shape x = [1, 3, 32, 32]"
    by (auto simp: result_shape_def split: sum.splits)
  from generator_shape_and_range
      [of 1 4 4 "batch_of 1 3 32 32 0" default_args strict_lib "zero_arith strict_lib" x] x
  show ?thesis by simp
qed

text \<open>
  Claim C6 as stated fails. For one pair of images of 64 by 64 pixels the discriminator,
  without instance normalization, returns four scores: the reshape to rows of
  \<open>128 * 8 * 8\<close> features makes four rows of the one batch element.
\<close>

theorem discriminator_four_scores_at_64:
  "shape (batch_of 1 3 64 64 1) = [1, 3, 64, 64] \<and>
   shape (batch_of 1 3 64 64 0) = [1, 3, 64, 64] \<and>
   result_shape (CDiscriminatorNetwork_forward strict_lib (zero_arith strict_lib) default_args
                   (batch_of 1 3 64 64 1) (batch_of 1 3 64 64 0)) = Inr [4]"
proof -
  have sx: "shape (batch_of 1 3 64 64 1) = [1, 3, 64, 64]"
    and sy: "shape (batch_of 1 3 64 64 0) = [1, 3, 64, 64]"
    by (simp_all add: batch_of_def)
  from cat_dim1_shape [OF sx sy] obtain t where
    t: "cat_dim1 (batch_of 1 3 64 64 1) (batch_of 1 3 64 64 0) = Inr t"
       "shape t = [1, 6, 64, 64]"
    by (auto simp: result_shape_def split: sum.splits)
  have "sequential_shape strict_lib (CDiscriminatorNetwork_trunk default_args) [1, 6, 64, 64]
          = Inr [4]"
    by (simp add: CDiscriminatorNetwork_trunk_def not_none_def view_shape_def
        default_args_def)
  with t sx sy show ?thesis
    by (simp add: CDiscriminatorNetwork_forward_def result_shape_sequential)
qed

text \<open>
  \<^bold>\<open>Claim C6, amended.\<close> For every batch of \<open>n\<close> pairs, \<open>n\<close> at least one, of an image
  and a condition of the nominal size (three channels, 32 by 32 pixels), the
  discriminator returns one score per batch element, a tensor of shape \<open>[n]\<close>, when the
  instance-normalization toggle is off, and also when it is on in a release whose
  \<open>InstanceNorm1d\<close> accepts the rank-two activations of the first linear layer. With the
  toggle on in a release that rejects them, the forward pass raises.
\<close>

theorem discriminator_one_score_each:
  assumes "0 < n" "shape x = [n, 3, 32, 32]" "shape y = [n, 3, 32, 32]"
  shows "result_shape (CDiscriminatorNetwork_forward lib num args x y) =
           (if discriminator_instancenorm args \<and> \<not> norm1d_accepts_rank2 lib
            then Inl ValueError else Inr [n])"
proof -
  from cat_dim1_shape [OF assms(2) assms(3)] obtain t where
    t: "cat_dim1 x y = Inr t" "shape t = [n, 6, 32, 32]"
    by (auto simp: result_shape_def split: sum.splits)
  then show ?thesis
    using trunk_shape [OF assms(1), of lib args]
    by (simp add: CDiscriminatorNetwork_forward_def result_shape_sequential)
qed

text \<open>
  The amended claim C6 at a batch of two pairs: with the toggle off, and with the toggle on
  where rank two is accepted.
\<close>

theorem discriminator_one_score_each_witness:
  "result_shape (CDiscriminatorNetwork_forward strict_lib (zero_arith strict_lib) default_args
                   (batch_of 2 3 32 32 1) (batch_of 2 3 32 32 0)) = Inr [2] \<and>
   result_shape (CDiscriminatorNetwork_forward
                   (strict_lib\<lparr>norm1d_accepts_rank2 := True\<rparr>) (zero_arith strict_lib)
                   (default_args\<lparr>discriminator_instancenorm := True\<rparr>)
                   (batch_of 2 3 32 32 1) (batch_of 2 3 32 32 0)) = Inr [2]"
proof -
  have n: "0 < (2::nat)" by simp
  have sx: "shape (batch_of 2 3 32 32 1) = [2, 3, 32, 32]"
    and sy: "shape (batch_of 2 3 32 32 0) = [2, 3, 32, 32]"
    by (simp_all add: batch_of_def)
  from discriminator_one_score_each [OF n sx sy, of strict_lib "zero_arith strict_lib" default_args]
       discriminator_one_score_each [OF n sx sy, of "strict_lib\<lparr>norm1d_accepts_rank2 := True\<rparr>"
          "zero_arith strict_lib" "default_args\<lparr>discriminator_instancenorm := True\<rparr>"]
  show ?thesis
    by (simp add: default_args_def strict_lib_def)
qed

section \<open>Effects of the optimizer\<close>

lemma zero_grad_fields [simp]:
  "discriminator (zero_grad opt m) = discriminator m"
  "generator (zero_grad opt m) = generator m"
  "state_hooks (zero_grad opt m) = state_hooks m"
  "training (zero_grad opt m) = training m"
  "pvalues (zero_grad opt m) = pvalues m"
  by (simp_all add: zero_grad_def)

lemma backward_fields [simp]:
  "discriminator (backward l m) = discriminator m"
  "generator (backward l m) = generator m"
  "state_hooks (backward l m) = state_hooks m"
  "training (backward l m) = training m"
  "pvalues (backward l m) = pvalues m"
  by (simp_all add: backward_def)

lemma fold_update_frame:
  "p \<notin> set ps \<Longrightarrow>
     fold (\<lambda>q v. case g q of None \<Rightarrow> v | Some d \<Rightarrow> v(q := f q (v q) d)) ps v0 p = v0 p"
  by (induction ps arbitrary: v0) (auto split: option.splits)

lemma optimizer_step_effect:
  assumes "optimizer_step upd opt m = (opt', m')"
  shows "param_ids opt' = param_ids opt \<and> lr opt' = lr opt \<and>
         step_count opt' = Suc (step_count opt) \<and>
         discriminator m' = discriminator m \<and> generator m' = generator m \<and>
         state_hooks m' = state_hooks m \<and> training m' = training m \<and>
         pgrads m' = pgrads m \<and>
         (\<forall>p. p \<notin> set (param_ids opt) \<longrightarrow> pvalues m' p = pvalues m p)"
  using assms by (auto simp: optimizer_step_def fold_update_frame)

text \<open>A parameter of the optimizer that has a gradient does get its new value.\<close>

lemma fold_update_hit:
  "distinct ps \<Longrightarrow> p \<in> set ps \<Longrightarrow> g p = Some d \<Longrightarrow>
     fold (\<lambda>q v. case g q of None \<Rightarrow> v | Some d \<Rightarrow> v(q := f q (v q) d)) ps v0 p = f p (v0 p) d"
proof (induction ps arbitrary: v0)
  case Nil
  then show ?case by simp
next
  case (Cons q ps)
  show ?case
  proof (cases "q = p")
    case True
    with Cons.prems have "p \<notin> set ps" by simp
    from fold_update_frame [where g = g and f = f and ?v0.0 = "v0(p := f p (v0 p) d)", OF this]
         True Cons.prems(3)
    show ?thesis by simp
  next
    case False
    with Cons.prems have "distinct ps" "p \<in> set ps" by simp_all
    from Cons.IH [OF this Cons.prems(3)] False show ?thesis
      by (simp split: option.splits)
  qed
qed

lemma optimizer_step_updates:
  assumes "distinct (param_ids opt)" "p \<in> set (param_ids opt)" "pgrads m p = Some g"
  shows "pvalues (snd (optimizer_step upd opt m)) p = upd (lr opt) (step_count opt) p (pvalues m p) g"
  using fold_update_hit [where g = "pgrads m" and f = "upd (lr opt) (step_count opt)"
      and ?v0.0 = "pvalues m", OF assms]
  by (simp add: optimizer_step_def)

lemma fold_zero_frame:
  "p \<notin> set ps \<Longrightarrow>
     fold (\<lambda>q g. case g q of None \<Rightarrow> g | Some v \<Rightarrow> g(q \<mapsto> f v)) ps g0 p = g0 p"
  by (induction ps arbitrary: g0) (auto split: option.splits)

lemma fold_zero_hit:
  "distinct ps \<Longrightarrow> p \<in> set ps \<Longrightarrow>
     fold (\<lambda>q g. case g q of None \<Rightarrow> g | Some v \<Rightarrow> g(q \<mapsto> f v)) ps g0 p = map_option f (g0 p)"
proof (induction ps arbitrary: g0)
  case Nil
  then show ?case by simp
next
  case (Cons q ps)
  show ?case
  proof (cases "q = p")
    case True
    with Cons.prems have "p \<notin> set ps" by simp
    from fold_zero_frame [where f = f, OF this] True show ?thesis
      by (simp split: option.splits)
  next
    case False
    with Cons.prems have "distinct ps" "p \<in> set ps" by simp_all
    from Cons.IH [OF this] False show ?thesis
      by (simp split: option.splits)
  qed
qed

lemma zero_grad_hit:
  "distinct (param_ids opt) \<Longrightarrow> p \<in> set (param_ids opt) \<Longrightarrow>
     pgrads (zero_grad opt m) p = map_option (map (\<lambda>_. 0)) (pgrads m p)"
  by (simp add: zero_grad_def fold_zero_hit)

lemma update_from_loss:
  assumes "distinct (param_ids opt)" "p \<in> set (param_ids opt)" "loss_grad l p = Some d"
    and "pgrads mz = pgrads (zero_grad opt m0)" "pvalues mz = pvalues m0"
  shows "pgrads (backward l mz) p = Some (accumulated (pgrads m0 p) d) \<and>
         pvalues (snd (optimizer_step upd opt (backward l mz))) p =
           upd (lr opt) (step_count opt) p (pvalues m0 p) (accumulated (pgrads m0 p) d)"
proof -
  from zero_grad_hit [OF assms(1) assms(2), of m0] assms(4)
  have z: "pgrads mz p = map_option (map (\<lambda>_. 0)) (pgrads m0 p)" by simp
  with assms(3) have g: "pgrads (backward l mz) p = Some (accumulated (pgrads m0 p) d)"
    by (cases "pgrads m0 p") (simp_all add: backward_def accumulated_def)
  from optimizer_step_updates [OF assms(1) assms(2) g, of upd] assms(5) g show ?thesis
    by simp
qed

lemma parameters_distinct:
  "distinct ks \<Longrightarrow>
     distinct (concat (map (\<lambda>(i, l). if has_parameters l then [(sm, i, Weight), (sm, i, Bias)] else [])
                           (zip ks ls)))"
proof (induction ls arbitrary: ks)
  case Nil
  then show ?case by simp
next
  case (Cons l ls)
  show ?case
  proof (cases ks)
    case Nil
    then show ?thesis by simp
  next
    case (Cons k ks')
    let ?rest = "concat (map (\<lambda>(i, l). if has_parameters l then [(sm, i, Weight), (sm, i, Bias)] else [])
                             (zip ks' ls))"
    from Cons.prems Cons have k: "k \<notin> set ks'" "distinct ks'" by simp_all
    from Cons.IH [OF k(2)] have "distinct ?rest" .
    with k(1) Cons show ?thesis by (auto dest: set_zip_leftD)
  qed
qed

lemma module_parameters_distinct: "distinct (module_parameters sm ls)"
  unfolding module_parameters_def by (rule parameters_distinct) simp

lemma module_parameters_owner:
  "p \<in> set (module_parameters sm ls) \<Longrightarrow> fst p = sm"
  by (auto simp: module_parameters_def split: if_splits)

section \<open>Effects of the training steps\<close>

lemma forward_fields:
  assumes "forward fi m xreal y = Inr (r, m')"
  shows "discriminator m' = discriminator m \<and> generator m' = generator m \<and>
         training m' = training m \<and> pvalues m' = pvalues m \<and> pgrads m' = pgrads m"
proof -
  from assms obtain a m1 b where
    "y_real fi m xreal y = Inr (a, m1)" "y_fake fi m1 y = Inr (b, m')"
    by (auto simp: forward_def split: sum.splits)
  from y_real_fields [OF this(1)] y_fake_fields [OF this(2)] show ?thesis by simp
qed

lemma train_iteration_effect:
  assumes "train_iteration ev tr idxs = Inr tr'"
  shows "param_ids (trainer_optimizer tr') = param_ids (trainer_optimizer tr) \<and>
         step_count (trainer_optimizer tr') = Suc (step_count (trainer_optimizer tr)) \<and>
         train_loader tr' = train_loader tr \<and> loader_iter tr' = loader_iter tr \<and>
         iterators_made tr' = iterators_made tr \<and> epoch_count tr' = epoch_count tr \<and> max_num_epochs tr' = max_num_epochs tr \<and>
         trainer_save_directory tr' = trainer_save_directory tr \<and>
         written_files tr' = written_files tr \<and> np_random_draws tr' = np_random_draws tr \<and>
         iteration_count tr' = Suc (iteration_count tr) \<and>
         discriminator (model tr') = discriminator (model tr) \<and>
         generator (model tr') = generator (model tr) \<and>
         training (model tr') = training (model tr) \<and>
         (\<forall>p. p \<notin> set (param_ids (trainer_optimizer tr)) \<longrightarrow>
              pvalues (model tr') p = pvalues (model tr) p)"
proof -
  from assms obtain xreal y target prediction m2 l opt' m4 where
    f: "forward (format_images ev) (zero_grad (trainer_optimizer tr) (model tr)) xreal y
          = Inr (prediction, m2)" and
    o: "optimizer_step (adam_rule ev) (trainer_optimizer tr) (backward l m2) = (opt', m4)" and
    t: "tr' = tr\<lparr>model := m4, trainer_optimizer := opt',
                  iteration_count := Suc (iteration_count tr)\<rparr>"
    by (auto simp: train_iteration_def Let_def split: sum.splits prod.splits)
  from forward_fields [OF f] optimizer_step_effect [OF o] t show ?thesis by simp
qed

lemma gdc_generate_effect:
  assumes "CGenerateDataCallback_generate ev cb tr = Inr (g, tr')"
  shows "trainer_optimizer tr' = trainer_optimizer tr \<and>
         train_loader tr' = train_loader tr \<and> loader_iter tr' = loader_iter tr \<and>
         iterators_made tr' = iterators_made tr \<and> epoch_count tr' = epoch_count tr \<and> max_num_epochs tr' = max_num_epochs tr \<and>
         trainer_save_directory tr' = trainer_save_directory tr \<and>
         written_files tr' = written_files tr \<and> np_random_draws tr' = np_random_draws tr \<and>
         iteration_count tr' = iteration_count tr \<and>
         discriminator (model tr') = discriminator (model tr) \<and>
         generator (model tr') = generator (model tr) \<and>
         training (model tr') = True \<and> pvalues (model tr') = pvalues (model tr) \<and>
         state_hooks (model tr') ''y'' = Some (gdc_y cb)"
proof -
  from assms obtain m2 where
    g: "generate (format_images ev) ((model tr)\<lparr>training := False\<rparr>) (gdc_y cb) = Inr (g, m2)"
    and t: "tr' = tr\<lparr>model := m2\<lparr>training := True\<rparr>\<rparr>"
    by (auto simp: CGenerateDataCallback_generate_def Let_def split: sum.splits)
  from generate_fields [OF g] generate_hooks_y [OF g] t show ?thesis by simp
qed

lemma save_images_effect:
  assumes "save_images ev cb tr = Inr (cb', tr')"
  shows "cb' = cb\<lparr>gdc_image_count := gdc_image_count cb + 1\<rparr> \<and>
         map fst (written_files tr') = map fst (written_files tr) @
           [os_path_join (os_path_join (trainer_save_directory tr) ''generated_images'')
              (format_08d (gdc_image_count cb) @ ''.png'')] \<and>
         trainer_optimizer tr' = trainer_optimizer tr \<and>
         train_loader tr' = train_loader tr \<and> loader_iter tr' = loader_iter tr \<and>
         iterators_made tr' = iterators_made tr \<and> epoch_count tr' = epoch_count tr \<and> max_num_epochs tr' = max_num_epochs tr \<and>
         trainer_save_directory tr' = trainer_save_directory tr \<and>
         np_random_draws tr' = np_random_draws tr \<and>
         iteration_count tr' = iteration_count tr \<and>
         discriminator (model tr') = discriminator (model tr) \<and>
         generator (model tr') = generator (model tr) \<and>
         training (model tr') = True \<and> pvalues (model tr') = pvalues (model tr)"
proof -
  from assms obtain g tr1 bytes where
    g: "CGenerateDataCallback_generate ev (cb\<lparr>gdc_image_count := gdc_image_count cb + 1\<rparr>) tr
          = Inr (g, tr1)" and
    c: "cb' = cb\<lparr>gdc_image_count := gdc_image_count cb + 1\<rparr>" and
    t: "tr' = tr1\<lparr>written_files := written_files tr1 @
          [(os_path_join (os_path_join (trainer_save_directory tr) ''generated_images'')
              (format_08d (gdc_image_count cb) @ ''.png''), bytes)]\<rparr>"
    by (auto simp: save_images_def Let_def split: sum.splits)
  from gdc_generate_effect [OF g] c t show ?thesis by simp
qed

lemma train_generator_effect:
  assumes "train_generator ev cb tr = Inr (cb', tr')"
  shows "param_ids (gtc_opt cb') = param_ids (gtc_opt cb) \<and>
         step_count (gtc_opt cb') = Suc (step_count (gtc_opt cb)) \<and>
         gtc_count cb' = gtc_count cb \<and> gtc_frequency cb' = gtc_frequency cb \<and>
         gtc_dataset cb' = gtc_dataset cb \<and> gtc_len cb' = gtc_len cb \<and>
         trainer_optimizer tr' = trainer_optimizer tr \<and>
         train_loader tr' = train_loader tr \<and> loader_iter tr' = loader_iter tr \<and>
         iterators_made tr' = iterators_made tr \<and> epoch_count tr' = epoch_count tr \<and> max_num_epochs tr' = max_num_epochs tr \<and>
         trainer_save_directory tr' = trainer_save_directory tr \<and>
         written_files tr' = written_files tr \<and>
         np_random_draws tr' = Suc (np_random_draws tr) \<and>
         iteration_count tr' = iteration_count tr \<and>
         discriminator (model tr') = discriminator (model tr) \<and>
         generator (model tr') = generator (model tr) \<and>
         training (model tr') = training (model tr) \<and>
         (\<forall>p. p \<notin> set (param_ids (gtc_opt cb)) \<longrightarrow>
              pvalues (model tr') p = pvalues (model tr) p)"
proof -
  from assms obtain y yfake m1 opt' m4 where
    f: "y_fake (format_images ev) (model tr) y = Inr (yfake, m1)" and
    o: "optimizer_step (adam_rule ev) (gtc_opt cb)
          (backward (g_loss ev m1 yfake) (zero_grad (gtc_opt cb) m1)) = (opt', m4)" and
    c: "cb' = cb\<lparr>gtc_opt := opt'\<rparr>" and
    t: "tr' = tr\<lparr>model := m4, np_random_draws := Suc (np_random_draws tr)\<rparr>"
    by (auto simp: train_generator_def Let_def split: sum.splits prod.splits)
  from y_fake_fields [OF f] optimizer_step_effect [OF o] c t show ?thesis by simp
qed

lemma total_env_format: "total_env ev args \<Longrightarrow> \<exists>r. format_images ev t = Inr r"
  by (simp add: total_env_def)

lemma total_env_png: "total_env ev args \<Longrightarrow> \<exists>b. write_png ev t = Inr b"
  by (simp add: total_env_def)

lemma total_env_mix:
  "total_env ev args \<Longrightarrow> shape a = shape b \<Longrightarrow> \<exists>x. mix ev a b = Inr x \<and> shape x = shape a"
  by (simp add: total_env_def)

lemma generator_returns:
  assumes "shape y = [n, 3, 32, 32]" "0 < n"
  shows "\<exists>x. CGeneratorNetwork_forward lib num args y = Inr x \<and> shape x = [n, 3, 32, 32]"
proof -
  have "sequential_shape lib (CGeneratorNetwork args) [n, 3, 8 * 4, 8 * 4] = Inr [n, 3, 8 * 4, 8 * 4]"
    by (rule generator_shape) simp_all
  then have "result_shape (CGeneratorNetwork_forward lib num args y) = Inr [n, 3, 32, 32]"
    using assms(1) by (simp add: CGeneratorNetwork_forward_def result_shape_sequential)
  then show ?thesis
    by (auto simp: result_shape_def split: sum.splits)
qed

lemma discriminator_returns:
  assumes "shape x = [n, 3, 32, 32]" "shape y = [n, 3, 32, 32]" "0 < n"
    "\<not> (discriminator_instancenorm args \<and> \<not> norm1d_accepts_rank2 lib)"
  shows "\<exists>s. CDiscriminatorNetwork_forward lib num args x y = Inr s \<and> shape s = [n]"
proof -
  from cat_dim1_shape [OF assms(1) assms(2)] obtain t where
    t: "cat_dim1 x y = Inr t" "shape t = [n, 6, 32, 32]"
    by (auto simp: result_shape_def split: sum.splits)
  then have "result_shape (CDiscriminatorNetwork_forward lib num args x y) = Inr [n]"
    using trunk_shape [OF assms(3), of lib args] assms(4)
    by (simp add: CDiscriminatorNetwork_forward_def result_shape_sequential)
  then show ?thesis
    by (auto simp: result_shape_def split: sum.splits)
qed

lemma built_fields:
  "discriminator m' = discriminator m \<Longrightarrow> generator m' = generator m \<Longrightarrow>
     built ev args m \<Longrightarrow> built ev args m'"
  by (simp add: built_def)

lemma generate_returns:
  assumes "built ev args m" "total_env ev args" "shape y = [n, 3, 32, 32]" "0 < n"
  shows "\<exists>xf m'. generate (format_images ev) m y = Inr (xf, m') \<and> shape xf = [n, 3, 32, 32] \<and>
           state_hooks m' ''xfake'' = Some xf \<and> state_hooks m' ''y'' = Some y \<and>
           state_hooks m' ''xreal'' = state_hooks m ''xreal''"
proof -
  from generator_returns [OF assms(3) assms(4)] obtain xf where
    xf: "CGeneratorNetwork_forward (torch ev) (layer_arith ev (training m) (pvalues m) Generator)
           args y = Inr xf" "shape xf = [n, 3, 32, 32]"
    by blast
  from total_env_format [OF assms(2)] obtain g where g: "format_images ev xf = Inr g"
    by blast
  from assms(1) xf(1) have "generator m (training m) (pvalues m) y = Inr xf"
    by (simp add: built_def CGANModel_init_def)
  with g xf(2) show ?thesis
    by (simp add: generate_def Let_def)
qed

lemma discriminate_returns:
  assumes "built ev args m" "total_env ev args"
    "shape x = [n, 3, 32, 32]" "shape y = [n, 3, 32, 32]" "0 < n"
  shows "\<exists>s. discriminate m x y = Inr s \<and> shape s = [n]"
proof -
  from assms(2) have "\<not> (discriminator_instancenorm args \<and> \<not> norm1d_accepts_rank2 (torch ev))"
    by (simp add: total_env_def)
  from discriminator_returns [OF assms(3) assms(4) assms(5) this]
  show ?thesis using assms(1)
    by (simp add: discriminate_def built_def CGANModel_init_def)
qed

lemma y_fake_returns:
  assumes "built ev args m" "total_env ev args" "shape y = [n, 3, 32, 32]" "0 < n"
  shows "\<exists>s m'. y_fake (format_images ev) m y = Inr (s, m') \<and>
           (\<exists>xf. state_hooks m' ''xfake'' = Some xf \<and> shape xf = [n, 3, 32, 32]) \<and>
           state_hooks m' ''y'' = Some y \<and>
           state_hooks m' ''xreal'' = state_hooks m ''xreal''"
proof -
  from generate_returns [OF assms] obtain xf m' where
    g: "generate (format_images ev) m y = Inr (xf, m')" "shape xf = [n, 3, 32, 32]"
       "state_hooks m' ''xfake'' = Some xf" "state_hooks m' ''y'' = Some y"
       "state_hooks m' ''xreal'' = state_hooks m ''xreal''"
    by blast
  from generate_fields [OF g(1)] assms(1) have b: "built ev args m'"
    by (simp add: built_def)
  from discriminate_returns [OF b assms(2) g(2) assms(3) assms(4)] obtain s where
    "discriminate m' xf y = Inr s" by blast
  with g show ?thesis by (simp add: y_fake_def)
qed

lemma y_real_returns:
  assumes "built ev args m" "total_env ev args"
    "shape x = [n, 3, 32, 32]" "shape y = [n, 3, 32, 32]" "0 < n"
  shows "\<exists>s m'. y_real (format_images ev) m x y = Inr (s, m') \<and>
           state_hooks m' ''xreal'' = Some x"
proof -
  from discriminate_returns [OF assms] obtain s where s: "discriminate m x y = Inr s"
    by blast
  from total_env_format [OF assms(2)] obtain r where "format_images ev x = Inr r"
    by blast
  with s show ?thesis by (simp add: y_real_def Let_def)
qed

lemma forward_returns:
  assumes "built ev args m" "total_env ev args"
    "shape x = [n, 3, 32, 32]" "shape y = [n, 3, 32, 32]" "0 < n"
  shows "\<exists>p m'. forward (format_images ev) m x y = Inr (p, m') \<and>
           state_hooks m' ''xreal'' = Some x \<and>
           (\<exists>xf. state_hooks m' ''xfake'' = Some xf \<and> shape xf = [n, 3, 32, 32]) \<and>
           state_hooks m' ''y'' = Some y"
proof -
  from y_real_returns [OF assms] obtain s m1 where
    r: "y_real (format_images ev) m x y = Inr (s, m1)" "state_hooks m1 ''xreal'' = Some x"
    by blast
  from y_real_fields [OF r(1)] assms(1) have b: "built ev args m1"
    by (simp add: built_def)
  from y_fake_returns [OF b assms(2) assms(4) assms(5)] obtain s2 m2 where
    f: "y_fake (format_images ev) m1 y = Inr (s2, m2)"
       "\<exists>xf. state_hooks m2 ''xfake'' = Some xf \<and> shape xf = [n, 3, 32, 32]"
       "state_hooks m2 ''y'' = Some y"
       "state_hooks m2 ''xreal'' = state_hooks m1 ''xreal''"
    by blast
  with r show ?thesis by (simp add: forward_def)
qed

lemma criterion_returns:
  assumes "built ev args m" "total_env ev args" "0 < n"
    "state_hooks m ''xreal'' = Some x" "shape x = [n, 3, 32, 32]"
    "state_hooks m ''xfake'' = Some xf" "shape xf = [n, 3, 32, 32]"
    "state_hooks m ''y'' = Some y" "shape y = [n, 3, 32, 32]"
  shows "\<exists>l. WGANDiscriminatorLoss_forward ev m input target = Inr l"
proof -
  from assms(5) assms(7) have "shape x = shape xf" by simp
  from total_env_mix [OF assms(2) this] assms(5) obtain xmix where
    x: "mix ev x xf = Inr xmix" "shape xmix = [n, 3, 32, 32]"
    by auto
  from discriminate_returns [OF assms(1) assms(2) x(2) assms(9) assms(3)] obtain s where
    "discriminate m xmix y = Inr s" by blast
  with x assms show ?thesis
    by (simp add: WGANDiscriminatorLoss_forward_def CWGANDiscriminatorLoss_discriminate_def)
qed

lemma stack_nominal:
  assumes "ts \<noteq> []" "list_all nominal ts"
  shows "\<exists>b. stack ts = Inr b \<and> shape b = [length ts, 3, 32, 32]"
proof -
  from assms(1) obtain t rest where ts: "ts = t # rest" by (cases ts) auto
  with assms(2) have "list_all (\<lambda>u. shape u = shape t) ts" "shape t = [3, 32, 32]"
    by (auto simp: nominal_def list_all_iff)
  with ts show ?thesis by (simp add: stack_def)
qed

lemma collect_all:
  "(\<forall>x\<in>set xs. g x = Inr (f x)) \<Longrightarrow> collect (map g xs) = Inr (map f xs)"
  by (induction xs) simp_all

lemma training_inputs_returns:
  assumes "nominal_dataset d ds" "idxs \<noteq> []" "list_all (\<lambda>i. i < d) idxs"
  shows "\<exists>x y t. training_inputs ds idxs = Inr ((x, y), t) \<and>
           shape x = [length idxs, 3, 32, 32] \<and> shape y = [length idxs, 3, 32, 32]"
proof -
  let ?s = "\<lambda>i. (days ds ! i, nights ds ! i, nights ds ! i)"
  have "\<forall>i\<in>set idxs. DNIMWrapper_getitem ds (int i) = Inr (?s i)"
    using assms(1) assms(3)
    by (auto simp: DNIMWrapper_getitem_def py_index_nat nominal_dataset_def list_all_iff)
  then have c: "collect (map (\<lambda>i. DNIMWrapper_getitem ds (int i)) idxs) = Inr (map ?s idxs)"
    by (rule collect_all)
  have n: "list_all nominal (map (\<lambda>i. days ds ! i) idxs)"
          "list_all nominal (map (\<lambda>i. nights ds ! i) idxs)"
    using assms(1) assms(3) by (auto simp: nominal_dataset_def list_all_iff)
  from assms(2) have ne: "map (\<lambda>i. days ds ! i) idxs \<noteq> []" "map (\<lambda>i. nights ds ! i) idxs \<noteq> []"
    by simp_all
  from stack_nominal [OF ne(1) n(1)] obtain b0 where
    b0: "stack (map (\<lambda>i. days ds ! i) idxs) = Inr b0" "shape b0 = [length idxs, 3, 32, 32]"
    by auto
  from stack_nominal [OF ne(2) n(2)] obtain b1 where
    b1: "stack (map (\<lambda>i. nights ds ! i) idxs) = Inr b1" "shape b1 = [length idxs, 3, 32, 32]"
    by auto
  from c b0 b1 show ?thesis
    by (simp add: training_inputs_def fetch_batch_def item1_def comp_def)
qed

lemma gdc_end_effect:
  assumes "CGenerateDataCallback_end_of_training_iteration ev cb tr = Inr (cb', tr')"
  shows "gdc_y cb' = gdc_y cb \<and> gdc_frequency cb' = gdc_frequency cb \<and>
         gdc_dataset cb' = gdc_dataset cb \<and>
         (if gdc_count cb + 1 > gdc_frequency cb
          then gdc_count cb' = 0 \<and> gdc_image_count cb' = gdc_image_count cb + 1 \<and>
               map fst (written_files tr') = map fst (written_files tr) @
                 [os_path_join (os_path_join (trainer_save_directory tr) ''generated_images'')
                    (format_08d (gdc_image_count cb) @ ''.png'')]
          else gdc_count cb' = gdc_count cb + 1 \<and> gdc_image_count cb' = gdc_image_count cb \<and>
               written_files tr' = written_files tr) \<and>
         trainer_optimizer tr' = trainer_optimizer tr \<and>
         train_loader tr' = train_loader tr \<and> loader_iter tr' = loader_iter tr \<and>
         iterators_made tr' = iterators_made tr \<and> epoch_count tr' = epoch_count tr \<and> max_num_epochs tr' = max_num_epochs tr \<and>
         trainer_save_directory tr' = trainer_save_directory tr \<and>
         np_random_draws tr' = np_random_draws tr \<and>
         iteration_count tr' = iteration_count tr \<and>
         discriminator (model tr') = discriminator (model tr) \<and>
         generator (model tr') = generator (model tr) \<and>
         pvalues (model tr') = pvalues (model tr)"
proof (cases "gdc_count cb + 1 > gdc_frequency cb")
  case True
  with assms obtain cb2 where
    s: "save_images ev (cb\<lparr>gdc_count := gdc_count cb + 1\<rparr>) tr = Inr (cb2, tr')" and
    c: "cb' = cb2\<lparr>gdc_count := 0\<rparr>"
    by (auto simp: CGenerateDataCallback_end_of_training_iteration_def Let_def
        split: sum.splits)
  from save_images_effect [OF s] c True show ?thesis by simp
next
  case False
  with assms show ?thesis
    by (auto simp: CGenerateDataCallback_end_of_training_iteration_def Let_def)
qed

lemma gtc_end_effect:
  assumes "CGeneratorTrainingCallback_end_of_training_iteration ev cb tr = Inr (cb', tr')"
  shows "gtc_frequency cb' = gtc_frequency cb \<and> gtc_dataset cb' = gtc_dataset cb \<and>
         gtc_len cb' = gtc_len cb \<and> param_ids (gtc_opt cb') = param_ids (gtc_opt cb) \<and>
         (if gtc_count cb + 1 > gtc_frequency cb
          then gtc_count cb' = 0 \<and> step_count (gtc_opt cb') = Suc (step_count (gtc_opt cb))
          else gtc_count cb' = gtc_count cb + 1 \<and> gtc_opt cb' = gtc_opt cb \<and>
               model tr' = model tr) \<and>
         trainer_optimizer tr' = trainer_optimizer tr \<and>
         train_loader tr' = train_loader tr \<and> loader_iter tr' = loader_iter tr \<and>
         iterators_made tr' = iterators_made tr \<and> epoch_count tr' = epoch_count tr \<and> max_num_epochs tr' = max_num_epochs tr \<and>
         trainer_save_directory tr' = trainer_save_directory tr \<and>
         written_files tr' = written_files tr \<and>
         iteration_count tr' = iteration_count tr \<and>
         discriminator (model tr') = discriminator (model tr) \<and>
         generator (model tr') = generator (model tr) \<and>
         (\<forall>p. p \<notin> set (param_ids (gtc_opt cb)) \<longrightarrow>
              pvalues (model tr') p = pvalues (model tr) p)"
proof (cases "gtc_count cb + 1 > gtc_frequency cb")
  case True
  with assms obtain cb2 where
    s: "train_generator ev (cb\<lparr>gtc_count := gtc_count cb + 1\<rparr>) tr = Inr (cb2, tr')" and
    c: "cb' = cb2\<lparr>gtc_count := 0\<rparr>"
    by (auto simp: CGeneratorTrainingCallback_end_of_training_iteration_def Let_def
        split: sum.splits)
  from train_generator_effect [OF s] c True show ?thesis by simp
next
  case False
  with assms show ?thesis
    by (auto simp: CGeneratorTrainingCallback_end_of_training_iteration_def Let_def)
qed

section \<open>The run returns on nominal data\<close>

lemma train_iteration_returns:
  assumes "built ev args (model tr)" "total_env ev args"
    "nominal_dataset d (loader_dataset (train_loader tr))"
    "idxs \<noteq> []" "list_all (\<lambda>i. i < d) idxs"
  shows "\<exists>tr'. train_iteration ev tr idxs = Inr tr'"
proof -
  let ?n = "length idxs"
  from assms(4) have n: "0 < ?n" by simp
  from training_inputs_returns [OF assms(3) assms(4) assms(5)] obtain x y t where
    i: "training_inputs (loader_dataset (train_loader tr)) idxs = Inr ((x, y), t)"
       "shape x = [?n, 3, 32, 32]" "shape y = [?n, 3, 32, 32]"
    by blast
  let ?m1 = "zero_grad (trainer_optimizer tr) (model tr)"
  from assms(1) have b1: "built ev args ?m1" by (simp add: built_def)
  from forward_returns [OF b1 assms(2) i(2) i(3) n] obtain p m2 xf where
    f: "forward (format_images ev) ?m1 x y = Inr (p, m2)"
       "state_hooks m2 ''xreal'' = Some x" "state_hooks m2 ''xfake'' = Some xf"
       "shape xf = [?n, 3, 32, 32]" "state_hooks m2 ''y'' = Some y"
    by blast
  from forward_fields [OF f(1)] b1 have b2: "built ev args m2" by (simp add: built_def)
  from criterion_returns [OF b2 assms(2) n f(2) i(2) f(3) f(4) f(5) i(3)] obtain l where
    "WGANDiscriminatorLoss_forward ev m2 p t = Inr l" by blast
  with i(1) f(1) show ?thesis
    by (simp add: train_iteration_def Let_def split: prod.splits)
qed

lemma gdc_end_returns:
  assumes "built ev args (model tr)" "total_env ev args" "shape (gdc_y cb) = [1, 3, 32, 32]"
  shows "\<exists>cb' tr'. CGenerateDataCallback_end_of_training_iteration ev cb tr = Inr (cb', tr')"
proof -
  let ?m1 = "(model tr)\<lparr>training := False\<rparr>"
  from assms(1) have b: "built ev args ?m1" by (simp add: built_def)
  have one: "0 < (1::nat)" by simp
  from generate_returns [OF b assms(2) assms(3) one] obtain xf m2 where
    g: "generate (format_images ev) ?m1 (gdc_y cb) = Inr (xf, m2)" by blast
  from total_env_format [OF assms(2)] obtain grid where gr: "format_images ev xf = Inr grid"
    by blast
  from total_env_png [OF assms(2)] obtain bytes where "write_png ev grid = Inr bytes"
    by blast
  with g gr show ?thesis
    by (simp add: CGenerateDataCallback_end_of_training_iteration_def save_images_def
        CGenerateDataCallback_generate_def Let_def)
qed

lemma train_generator_condition_returns:
  assumes "nominal_dataset d (gtc_dataset cb)" "gtc_len cb = int d" "0 < d"
  shows "\<exists>y. train_generator_condition cb u = Inr y \<and> shape y = [1, 3, 32, 32]"
proof -
  let ?i = "u mod d"
  from assms(3) have i: "?i < d" by simp
  from assms(2) assms(3) have r: "np_random_randint u 0 (gtc_len cb) = Inr (int ?i)"
    by (simp add: randint_value)
  from assms(1) i have
    g: "DNIMWrapper_getitem (gtc_dataset cb) (int ?i) =
          Inr (days (gtc_dataset cb) ! ?i, nights (gtc_dataset cb) ! ?i, nights (gtc_dataset cb) ! ?i)"
    and s: "shape (nights (gtc_dataset cb) ! ?i) = [3, 32, 32]"
    by (auto simp: DNIMWrapper_getitem_def py_index_nat nominal_dataset_def list_all_length
        nominal_def)
  from r g s show ?thesis
    by (simp add: train_generator_condition_def item1_def unsqueeze0_def)
qed

lemma gtc_end_returns:
  assumes "built ev args (model tr)" "total_env ev args"
    "nominal_dataset d (gtc_dataset cb)" "gtc_len cb = int d" "0 < d"
  shows "\<exists>cb' tr'. CGeneratorTrainingCallback_end_of_training_iteration ev cb tr = Inr (cb', tr')"
proof -
  let ?cb1 = "cb\<lparr>gtc_count := gtc_count cb + 1\<rparr>"
  have "nominal_dataset d (gtc_dataset ?cb1)" "gtc_len ?cb1 = int d"
    using assms(3) assms(4) by simp_all
  from train_generator_condition_returns [OF this assms(5)] obtain y where
    y: "train_generator_condition ?cb1 (np_random ev (np_random_draws tr)) = Inr y"
       "shape y = [1, 3, 32, 32]"
    by blast
  have one: "0 < (1::nat)" by simp
  from y_fake_returns [OF assms(1) assms(2) y(2) one] obtain s m1 where
    "y_fake (format_images ev) (model tr) y = Inr (s, m1)" by blast
  with y(1) show ?thesis
    by (simp add: CGeneratorTrainingCallback_end_of_training_iteration_def train_generator_def
        Let_def split: prod.splits)
qed


lemma fit_iteration_returns:
  assumes "ready ev args d st" "total_env ev args" "valid_batch d b"
  shows "\<exists>st'. fit_iteration ev st b = Inr st' \<and> ready ev args d st'"
proof -
  from assms(3) have vb: "b \<noteq> []" "list_all (\<lambda>i. i < d) b"
    by (simp_all add: valid_batch_def)
  from assms(1) have
    r: "0 < d" "built ev args (model (trainer st))"
       "nominal_dataset d (loader_dataset (train_loader (trainer st)))"
       "shape (gdc_y (image_callback st)) = [1, 3, 32, 32]"
       "nominal_dataset d (gtc_dataset (generator_callback st))"
       "gtc_len (generator_callback st) = int d"
    and r': "0 < loader_batch_size (train_loader (trainer st))"
       "case loader_iter (trainer st) of None \<Rightarrow> True | Some it \<Rightarrow> list_all (valid_batch d) it"
    by (simp_all add: ready_def)
  from train_iteration_returns [OF r(2) assms(2) r(3) vb] obtain tr1 where
    t: "train_iteration ev (trainer st) b = Inr tr1" by blast
  from train_iteration_effect [OF t] r(2) have b1: "built ev args (model tr1)"
    by (simp add: built_def)
  from gdc_end_returns [OF b1 assms(2) r(4)] obtain gdc tr2 where
    g: "CGenerateDataCallback_end_of_training_iteration ev (image_callback st) tr1
          = Inr (gdc, tr2)" by blast
  from gdc_end_effect [OF g] b1 have b2: "built ev args (model tr2)"
    by (simp add: built_def)
  from gtc_end_returns [OF b2 assms(2) r(5) r(6) r(1)] obtain gtc tr3 where
    c: "CGeneratorTrainingCallback_end_of_training_iteration ev (generator_callback st) tr2
          = Inr (gtc, tr3)" by blast
  from gtc_end_effect [OF c] b2 have b3: "built ev args (model tr3)"
    by (simp add: built_def)
  let ?st' = "\<lparr>trainer = tr3, image_callback = gdc, generator_callback = gtc\<rparr>"
  have f: "fit_iteration ev st b = Inr ?st'"
    using t g c by (simp add: fit_iteration_def)
  have "ready ev args d ?st'"
    using r r' b3 train_iteration_effect [OF t] gdc_end_effect [OF g] gtc_end_effect [OF c]
    by (simp add: ready_def)
  with f show ?thesis by blast
qed

section \<open>The loader's batches\<close>

lemma chunks_length: "0 < n \<Longrightarrow> length (chunks n xs) = (length xs + n - 1) div n"
proof (induction n xs rule: chunks.induct)
  case (1 n xs)
  show ?case
  proof (cases "xs = []")
    case True
    with "1.prems" show ?thesis by (simp add: chunks.simps)
  next
    case False
    with "1.prems" have ih: "length (chunks n (drop n xs)) = (length (drop n xs) + n - 1) div n"
      using "1.IH" by simp
    from False have pos: "0 < length xs" by simp
    have "(length xs + n - 1) div n = Suc ((length xs - n + n - 1) div n)"
    proof (cases "n \<le> length xs")
      case True
      then have "length xs + n - 1 = (length xs - n + n - 1) + n"
        using "1.prems" by simp
      then show ?thesis using "1.prems" by (simp del: add_diff_assoc add_diff_assoc2)
    next
      case False
      then have a: "length xs - n = 0" by simp
      from False pos "1.prems" have b: "n \<le> length xs + n - 1" "length xs + n - 1 < n + n"
        by linarith+
      have "(length xs + n - 1) div n = 1"
        by (rule div_nat_eqI) (use b in simp_all)
      with a "1.prems" show ?thesis by simp
    qed
    with ih False "1.prems" show ?thesis
      by (subst chunks.simps) simp
  qed
qed

lemma chunks_batches:
  "0 < n \<Longrightarrow> list_all P xs \<Longrightarrow> list_all (\<lambda>b. b \<noteq> [] \<and> list_all P b) (chunks n xs)"
proof (induction n xs rule: chunks.induct)
  case (1 n xs)
  show ?case
  proof (cases "xs = []")
    case True
    then show ?thesis by (simp add: chunks.simps)
  next
    case False
    from "1.prems"(2) have t: "list_all P (take n xs)" and d: "list_all P (drop n xs)"
      by (auto simp: list_all_iff dest: in_set_takeD in_set_dropD)
    from "1.IH" False "1.prems"(1) d have
      "list_all (\<lambda>b. b \<noteq> [] \<and> list_all P b) (chunks n (drop n xs))" by simp
    with False "1.prems"(1) t show ?thesis
      by (subst chunks.simps) simp
  qed
qed


lemma chunks_nonempty: "0 < n \<Longrightarrow> xs \<noteq> [] \<Longrightarrow> chunks n xs \<noteq> []"
  by (subst chunks.simps) simp

lemma loader_batches_valid:
  assumes "valid_shuffles ev d" "0 < loader_batch_size (train_loader tr)"
  shows "loader_batches ev tr k \<noteq> [] \<and> list_all (valid_batch d) (loader_batches ev tr k)"
proof -
  from assms(1) have s: "shuffle ev k \<noteq> []" "list_all (\<lambda>i. i < d) (shuffle ev k)"
    by (simp_all add: valid_shuffles_def)
  from chunks_batches [OF assms(2) s(2)] chunks_nonempty [OF assms(2) s(1)]
  show ?thesis
    by (simp add: loader_batches_def valid_batch_def [abs_def])
qed

section \<open>The trainer's loop\<close>

lemma fetch_next_batch_effect:
  assumes "fetch_next_batch ev tr = Inr (b, tr')"
  shows "model tr' = model tr \<and> trainer_optimizer tr' = trainer_optimizer tr \<and>
         train_loader tr' = train_loader tr \<and> max_num_epochs tr' = max_num_epochs tr \<and>
         trainer_save_directory tr' = trainer_save_directory tr \<and>
         written_files tr' = written_files tr \<and> np_random_draws tr' = np_random_draws tr \<and>
         iteration_count tr' = iteration_count tr"
  using assms
  by (auto simp: fetch_next_batch_def Let_def split: option.splits list.splits prod.splits)

lemma fetch_next_batch_returns:
  assumes "valid_shuffles ev d" "0 < loader_batch_size (train_loader tr)"
    "case loader_iter tr of None \<Rightarrow> True | Some it \<Rightarrow> list_all (valid_batch d) it"
  shows "\<exists>b tr'. fetch_next_batch ev tr = Inr (b, tr') \<and> valid_batch d b \<and>
           (case loader_iter tr' of None \<Rightarrow> True | Some it \<Rightarrow> list_all (valid_batch d) it)"
proof -
  note v = loader_batches_valid [OF assms(1) assms(2)]
  show ?thesis
  proof (cases "loader_iter tr")
    case None
    from v [of "iterators_made tr"] obtain b rest where
      "loader_batches ev tr (iterators_made tr) = b # rest" "valid_batch d b"
      "list_all (valid_batch d) rest"
      by (cases "loader_batches ev tr (iterators_made tr)") auto
    with None show ?thesis by (simp add: fetch_next_batch_def)
  next
    case (Some it)
    show ?thesis
    proof (cases it)
      case Nil
      from v [of "iterators_made tr"] obtain b rest where
        "loader_batches ev tr (iterators_made tr) = b # rest" "valid_batch d b"
        "list_all (valid_batch d) rest"
        by (cases "loader_batches ev tr (iterators_made tr)") auto
      with Some Nil show ?thesis by (simp add: fetch_next_batch_def)
    next
      case (Cons b rest)
      with Some assms(3) show ?thesis by (simp add: fetch_next_batch_def)
    qed
  qed
qed

lemma sum_upt_first:
  "sum_list (map f [m ..< m + Suc k]) = f m + sum_list (map f [Suc m ..< Suc m + k])"
proof -
  have "[m ..< m + Suc k] = m # [Suc m ..< m + Suc k]"
    by (rule upt_conv_Cons) simp
  then show ?thesis by simp
qed

lemma remaining_some:
  "\<not> stop_fitting tr \<Longrightarrow> loader_iter tr = Some it \<Longrightarrow> iterators_made tr = made \<Longrightarrow>
     nat (max_num_epochs tr) - Suc (epoch_count tr) = k \<Longrightarrow>
     train_loader tr = train_loader tr0 \<Longrightarrow>
     remaining ev tr =
       length it + sum_list (map (\<lambda>j. length (loader_batches ev tr0 j)) [made ..< made + k]) + 1"
  by (auto simp: remaining_def loader_batches_def)

text \<open>Every batch that is fetched takes one off the passes the loop has ahead of it.\<close>

lemma fetch_next_batch_remaining:
  assumes "\<not> stop_fitting tr" "fetch_next_batch ev tr = Inr (b, tr')"
  shows "remaining ev tr = Suc (remaining ev tr')"
proof -
  let ?E = "nat (max_num_epochs tr)"
  let ?len = "\<lambda>k. length (chunks (loader_batch_size (train_loader tr)) (shuffle ev k))"
  from assms(1) have e: "epoch_count tr < ?E" by (simp add: stop_fitting_def)
  obtain it made where
    im: "(case loader_iter tr of
            None \<Rightarrow> (loader_batches ev tr (iterators_made tr), Suc (iterators_made tr))
          | Some it \<Rightarrow> (it, iterators_made tr)) = (it, made)"
    by (cases "case loader_iter tr of
            None \<Rightarrow> (loader_batches ev tr (iterators_made tr), Suc (iterators_made tr))
          | Some it \<Rightarrow> (it, iterators_made tr)")
  from assms(1) im have r: "remaining ev tr =
      length it + sum_list (map ?len [made ..< made + (?E - Suc (epoch_count tr))]) + 1"
    by (simp add: remaining_def loader_batches_def)
  show ?thesis
  proof (cases it)
    case (Cons b0 rest)
    with assms(2) im have t: "tr' = tr\<lparr>loader_iter := Some rest, iterators_made := made\<rparr>"
      by (simp add: fetch_next_batch_def)
    with assms(1) have "remaining ev tr' =
        length rest + sum_list (map ?len [made ..< made + (?E - Suc (epoch_count tr))]) + 1"
      by (simp add: remaining_def loader_batches_def stop_fitting_def)
    with r Cons show ?thesis by simp
  next
    case Nil
    with assms(2) im obtain b0 rest where
      l: "loader_batches ev tr made = b0 # rest" and
      t: "tr' = tr\<lparr>loader_iter := Some rest, iterators_made := Suc made,
                    epoch_count := Suc (epoch_count tr)\<rparr>"
      by (auto simp: fetch_next_batch_def split: list.splits)
    from l have len: "?len made = Suc (length rest)" by (simp add: loader_batches_def)
    show ?thesis
    proof (cases "Suc (epoch_count tr) < ?E")
      case True
      define k' where "k' = ?E - Suc (Suc (epoch_count tr))"
      define A where "A = sum_list (map ?len [Suc made ..< Suc made + k'])"
      from True have k: "?E - Suc (epoch_count tr) = Suc k'" by (simp add: k'_def)
      from True have "\<not> max_num_epochs tr \<le> int (Suc (epoch_count tr))" by arith
      then have ns: "\<not> stop_fitting tr'" by (simp add: stop_fitting_def t)
      have "remaining ev tr' =
          length rest +
          sum_list (map (\<lambda>j. length (loader_batches ev tr j)) [Suc made ..< Suc made + k']) + 1"
        by (rule remaining_some [OF ns]) (simp_all add: t k'_def)
      then have r': "remaining ev tr' = length rest + A + 1"
        by (simp only: A_def loader_batches_def)
      have "sum_list (map ?len [made ..< made + (?E - Suc (epoch_count tr))]) = ?len made + A"
        unfolding k A_def by (rule sum_upt_first)
      with r r' Nil len show ?thesis by simp
    next
      case False
      with e have k: "?E - Suc (epoch_count tr) = 0" by simp
      from False t have "remaining ev tr' = 0"
        by (simp add: remaining_def stop_fitting_def)
      with r Nil k show ?thesis by simp
    qed
  qed
qed

lemma remaining_fields:
  assumes "train_loader tr' = train_loader tr" "loader_iter tr' = loader_iter tr"
    "iterators_made tr' = iterators_made tr" "epoch_count tr' = epoch_count tr"
    "max_num_epochs tr' = max_num_epochs tr"
  shows "remaining ev tr' = remaining ev tr"
  using assms
  by (cases "loader_iter tr") (simp_all add: remaining_def stop_fitting_def loader_batches_def)

lemma fit_iteration_keeps:
  assumes "fit_iteration ev st b = Inr st'"
  shows "train_loader (trainer st') = train_loader (trainer st) \<and>
         loader_iter (trainer st') = loader_iter (trainer st) \<and>
         iterators_made (trainer st') = iterators_made (trainer st) \<and>
         epoch_count (trainer st') = epoch_count (trainer st) \<and>
         max_num_epochs (trainer st') = max_num_epochs (trainer st) \<and>
         trainer_save_directory (trainer st') = trainer_save_directory (trainer st)"
proof -
  from assms obtain tr1 gdc tr2 gtc tr3 where
    t: "train_iteration ev (trainer st) b = Inr tr1" and
    g: "CGenerateDataCallback_end_of_training_iteration ev (image_callback st) tr1
          = Inr (gdc, tr2)" and
    c: "CGeneratorTrainingCallback_end_of_training_iteration ev (generator_callback st) tr2
          = Inr (gtc, tr3)" and
    s: "st' = \<lparr>trainer = tr3, image_callback = gdc, generator_callback = gtc\<rparr>"
    by (auto simp: fit_iteration_def split: sum.splits)
  from train_iteration_effect [OF t] gdc_end_effect [OF g] gtc_end_effect [OF c] s
  show ?thesis by simp
qed

lemma fit_step_parts:
  assumes "fit_step ev st = Inr st'"
  obtains b tr where "fetch_next_batch ev (trainer st) = Inr (b, tr)"
    "fit_iteration ev (st\<lparr>trainer := tr\<rparr>) b = Inr st'"
  using assms by (auto simp: fit_step_def split: sum.splits)

lemma fit_step_remaining:
  assumes "\<not> stop_fitting (trainer st)" "fit_step ev st = Inr st'"
  shows "remaining ev (trainer st) = Suc (remaining ev (trainer st'))"
proof -
  from assms(2) obtain b tr where
    f: "fetch_next_batch ev (trainer st) = Inr (b, tr)" and
    i: "fit_iteration ev (st\<lparr>trainer := tr\<rparr>) b = Inr st'"
    by (rule fit_step_parts)
  from fit_iteration_keeps [OF i] have "remaining ev (trainer st') = remaining ev tr"
    by (intro remaining_fields) simp_all
  with fetch_next_batch_remaining [OF assms(1) f] show ?thesis by simp
qed

termination fit_loop
  by (relation "measure (\<lambda>(ev, st). remaining ev (trainer st))")
     (auto dest: fit_step_remaining)

declare fit_loop.simps [simp del]

lemma fit_step_returns:
  assumes "ready ev args d st" "total_env ev args" "valid_shuffles ev d"
  shows "\<exists>st'. fit_step ev st = Inr st' \<and> ready ev args d st'"
proof -
  from assms(1) have
    r: "0 < loader_batch_size (train_loader (trainer st))"
       "case loader_iter (trainer st) of None \<Rightarrow> True | Some it \<Rightarrow> list_all (valid_batch d) it"
    by (simp_all add: ready_def)
  from fetch_next_batch_returns [OF assms(3) r] obtain b tr where
    f: "fetch_next_batch ev (trainer st) = Inr (b, tr)" "valid_batch d b"
       "case loader_iter tr of None \<Rightarrow> True | Some it \<Rightarrow> list_all (valid_batch d) it"
    by blast
  from assms(1) fetch_next_batch_effect [OF f(1)] f(3) have "ready ev args d (st\<lparr>trainer := tr\<rparr>)"
    by (simp add: ready_def)
  from fit_iteration_returns [OF this assms(2) f(2)] f(1) show ?thesis
    by (simp add: fit_step_def)
qed

lemma fit_loop_returns:
  "total_env ev args \<Longrightarrow> valid_shuffles ev d \<Longrightarrow> ready ev args d st \<Longrightarrow>
     \<exists>st'. fit_loop ev st = Inr st' \<and> ready ev args d st'"
proof (induction ev st rule: fit_loop.induct)
  case (1 ev st)
  show ?case
  proof (cases "stop_fitting (trainer st)")
    case True
    with "1.prems" show ?thesis by (subst fit_loop.simps) simp
  next
    case False
    from fit_step_returns [OF "1.prems"(3) "1.prems"(1) "1.prems"(2)] obtain st1 where
      s: "fit_step ev st = Inr st1" "ready ev args d st1" by blast
    from "1.IH" [OF False s(1) "1.prems"(1) "1.prems"(2) s(2)] False s(1) show ?thesis
      by (subst fit_loop.simps) simp
  qed
qed

section \<open>Every iteration is a tick of the schedule\<close>

lemma fit_iteration_tick:
  assumes "fit_iteration ev st b = Inr st'"
  shows "schedule_of st' = tick (schedule_of st)"
proof -
  from assms obtain tr1 gdc tr2 gtc tr3 where
    t: "train_iteration ev (trainer st) b = Inr tr1" and
    g: "CGenerateDataCallback_end_of_training_iteration ev (image_callback st) tr1
          = Inr (gdc, tr2)" and
    c: "CGeneratorTrainingCallback_end_of_training_iteration ev (generator_callback st) tr2
          = Inr (gtc, tr3)" and
    s: "st' = \<lparr>trainer = tr3, image_callback = gdc, generator_callback = gtc\<rparr>"
    by (auto simp: fit_iteration_def split: sum.splits)
  from train_iteration_effect [OF t] gdc_end_effect [OF g] gtc_end_effect [OF c] s
  show ?thesis
    by (auto simp: schedule_of_def tick_def Let_def image_path_def split: if_splits)
qed


lemma fit_step_tick:
  assumes "fit_step ev st = Inr st'"
  shows "schedule_of st' = tick (schedule_of st)"
proof -
  from assms obtain b tr where
    f: "fetch_next_batch ev (trainer st) = Inr (b, tr)" and
    i: "fit_iteration ev (st\<lparr>trainer := tr\<rparr>) b = Inr st'"
    by (rule fit_step_parts)
  from fetch_next_batch_effect [OF f] have "schedule_of (st\<lparr>trainer := tr\<rparr>) = schedule_of st"
    by (simp add: schedule_of_def)
  with fit_iteration_tick [OF i] show ?thesis by simp
qed

lemma fit_loop_tick:
  "fit_loop ev st = Inr st' \<Longrightarrow>
     schedule_of st' = (tick ^^ remaining ev (trainer st)) (schedule_of st)"
proof (induction ev st rule: fit_loop.induct)
  case (1 ev st)
  show ?case
  proof (cases "stop_fitting (trainer st)")
    case True
    with "1.prems" have "st' = st" by (subst (asm) fit_loop.simps) simp
    with True show ?thesis by (simp add: remaining_def)
  next
    case False
    with "1.prems" obtain st1 where
      s: "fit_step ev st = Inr st1" "fit_loop ev st1 = Inr st'"
      by (subst (asm) fit_loop.simps) (auto split: sum.splits)
    from "1.IH" [OF False s] fit_step_tick [OF s(1)] fit_step_remaining [OF False s(1)]
    show ?thesis by (simp add: funpow_swap1)
  qed
qed

lemma initial_session_parts:
  assumes "initial_session ev args data init_values = Inr st"
  obtains loader gdc where "dnim_cgan_data_loader args data = Inr loader"
    "CGenerateDataCallback_init args data = Inr gdc"
    "st = \<lparr>trainer = initial_trainer ev args loader init_values, image_callback = gdc,
           generator_callback = CGeneratorTrainingCallback_init args
             (module_parameters Generator (CGeneratorNetwork args)) data\<rparr>"
  using assms by (auto simp: initial_session_def Let_def split: sum.splits)

lemma initial_session_schedule:
  assumes "initial_session ev args data init_values = Inr st"
  shows "schedule_of st = initial_schedule args \<and> remaining ev (trainer st) = iterations ev args"
proof -
  from assms obtain loader gdc where
    l: "dnim_cgan_data_loader args data = Inr loader" and
    g: "CGenerateDataCallback_init args data = Inr gdc" and
    s: "st = \<lparr>trainer = initial_trainer ev args loader init_values, image_callback = gdc,
           generator_callback = CGeneratorTrainingCallback_init args
             (module_parameters Generator (CGeneratorNetwork args)) data\<rparr>"
    by (rule initial_session_parts)
  from l have b: "loader_batch_size loader = nat (batch_size args)"
    by (auto simp: dnim_cgan_data_loader_def split: if_splits)
  from image_callback_condition [OF g] have
    c: "gdc_frequency gdc = image_frequency args" "gdc_count gdc = 0" "gdc_image_count gdc = 0"
    by simp_all
  from s c have sched: "schedule_of st = initial_schedule args"
    by (simp add: schedule_of_def initial_schedule_def Adam_def
        CGeneratorTrainingCallback_init_def Let_def initial_trainer_def)
  have "remaining ev (trainer st) = iterations ev args"
  proof (cases "epochs args \<le> 0")
    case True
    with s show ?thesis
      by (simp add: remaining_def stop_fitting_def iterations_def initial_trainer_def)
  next
    case False
    then have "[0 ..< nat (epochs args)] = 0 # [Suc 0 ..< nat (epochs args)]"
      by (intro upt_conv_Cons) simp
    moreover from False have "Suc 0 + (nat (epochs args) - Suc 0) = nat (epochs args)"
      by simp
    ultimately show ?thesis using False s b
      by (simp add: remaining_def stop_fitting_def iterations_def initial_trainer_def
          loader_batches_def)
  qed
  with sched show ?thesis by simp
qed

lemma initial_session_returns:
  assumes "0 < batch_size args" "data \<noteq> []"
    "list_all (\<lambda>s. nominal (fst s) \<and> nominal (snd s)) data"
  shows "\<exists>st. initial_session ev args data init_values = Inr st \<and>
              ready ev args (length data) st"
proof -
  let ?ds = "DNIMWrapper_init data"
  let ?d = "length data"
  from assms(3) have nd: "nominal_dataset ?d ?ds"
    by (auto simp: nominal_dataset_def DNIMWrapper_init_def list_all_iff)
  from assms(2) have d: "0 < ?d" by simp
  from assms(2) assms(3) have h: "shape (snd (hd data)) = [3, 32, 32]"
    by (cases data) (auto simp: nominal_def)
  from assms(2) have
    "DNIMWrapper_getitem ?ds 0 = Inr (fst (hd data), snd (hd data), snd (hd data))"
    by (cases data) (simp_all add: DNIMWrapper_getitem_def py_index_def DNIMWrapper_init_def)
  then obtain gdc where
    g: "CGenerateDataCallback_init args data = Inr gdc" "gdc_y gdc = unsqueeze0 (snd (hd data))"
    by (simp add: CGenerateDataCallback_init_def Let_def item1_def)
  let ?loader = "\<lparr>loader_dataset = ?ds, loader_batch_size = nat (batch_size args)\<rparr>"
  from assms(1) have l: "dnim_cgan_data_loader args data = Inr ?loader"
    by (simp add: dnim_cgan_data_loader_def)
  let ?tr = "initial_trainer ev args ?loader init_values"
  let ?gtc = "CGeneratorTrainingCallback_init args
                (module_parameters Generator (CGeneratorNetwork args)) data"
  let ?st = "\<lparr>trainer = ?tr, image_callback = gdc, generator_callback = ?gtc\<rparr>"
  have r: "ready ev args ?d ?st"
    using d nd g(2) h assms(1)
    by (simp add: ready_def built_def CGANModel_init_def CGeneratorTrainingCallback_init_def
        Let_def DNIMWrapper_len_def unsqueeze0_def DNIMWrapper_init_def initial_trainer_def)
  from l g(1) have "initial_session ev args data init_values = Inr ?st"
    by (simp add: initial_session_def Let_def)
  with r show ?thesis by blast
qed

lemma run_returns:
  assumes "total_env ev args" "0 < batch_size args" "data \<noteq> []"
    "list_all (\<lambda>s. nominal (fst s) \<and> nominal (snd s)) data"
    "valid_shuffles ev (length data)"
  shows "\<exists>st. run ev args data init_values = Inr st"
proof -
  from initial_session_returns [OF assms(2) assms(3) assms(4)] obtain st0 where
    s: "initial_session ev args data init_values = Inr st0" "ready ev args (length data) st0"
    by blast
  from fit_loop_returns [OF assms(1) assms(5) s(2)] obtain st where
    "fit_loop ev st0 = Inr st" by blast
  with s(1) show ?thesis by (simp add: run_def fit_def)
qed

lemma run_schedule:
  assumes "run ev args data init_values = Inr st"
  shows "schedule_of st = (tick ^^ iterations ev args) (initial_schedule args)"
proof -
  from assms obtain st0 where
    s: "initial_session ev args data init_values = Inr st0" and f: "fit_loop ev st0 = Inr st"
    by (auto simp: run_def fit_def split: sum.splits)
  from fit_loop_tick [OF f] initial_session_schedule [OF s] show ?thesis by simp
qed

lemma iterations_uniform:
  assumes "0 < batch_size args" "0 < epochs args" "\<And>e. length (shuffle ev e) = d"
  shows "iterations ev args =
           nat (epochs args) * ((d + nat (batch_size args) - 1) div nat (batch_size args)) + 1"
proof -
  from assms(1) have "0 < nat (batch_size args)" by simp
  then have "\<And>e. length (chunks (nat (batch_size args)) (shuffle ev e)) =
                 (d + nat (batch_size args) - 1) div nat (batch_size args)"
    using assms(3) by (simp add: chunks_length)
  with assms(2) show ?thesis
    by (simp add: iterations_def sum_list_triv)
qed

section \<open>The schedule in closed form\<close>

lemma counter_step:
  fixes x m :: int
  assumes "0 < m"
  shows "(x + 1) mod m = (if x mod m + 1 = m then 0 else x mod m + 1) \<and>
         (x + 1) div m = (if x mod m + 1 = m then x div m + 1 else x div m)"
proof (cases "x mod m + 1 = m")
  case True
  have "x + 1 = m * (x div m) + (x mod m + 1)" by simp
  with True have e: "x + 1 = m * (x div m + 1) + 0" by (simp add: algebra_simps)
  from assms have "(0::int) \<le> 0" "0 < m" by simp_all
  from int_div_pos_eq [OF e this] int_mod_pos_eq [OF e this] True show ?thesis by simp
next
  case False
  have e: "x + 1 = m * (x div m) + (x mod m + 1)" by simp
  from assms have "0 \<le> x mod m" "x mod m < m" by simp_all
  with False have r: "0 \<le> x mod m + 1" "x mod m + 1 < m" by simp_all
  from int_div_pos_eq [OF e r] int_mod_pos_eq [OF e r] False show ?thesis by simp
qed

lemma tick_fixed:
  "gen_frequency (tick s) = gen_frequency s \<and> img_frequency (tick s) = img_frequency s \<and>
   img_directory (tick s) = img_directory s \<and> disc_steps (tick s) = Suc (disc_steps s)"
  by (simp add: tick_def Let_def)

lemma tick_pow_fixed:
  "gen_frequency ((tick ^^ n) s) = gen_frequency s \<and>
   img_frequency ((tick ^^ n) s) = img_frequency s \<and>
   img_directory ((tick ^^ n) s) = img_directory s \<and>
   disc_steps ((tick ^^ n) s) = disc_steps s + n"
  by (induction n) (simp_all add: tick_fixed)

lemma tick_pow_generator:
  assumes "0 \<le> gen_count s" "gen_count s \<le> gen_frequency s"
  shows "gen_count ((tick ^^ n) s) = (gen_count s + int n) mod (gen_frequency s + 1) \<and>
         int (gen_steps ((tick ^^ n) s)) =
           int (gen_steps s) + (gen_count s + int n) div (gen_frequency s + 1)"
proof (induction n)
  case 0
  from assms show ?case by (simp add: div_pos_pos_trivial mod_pos_pos_trivial)
next
  case (Suc n)
  define t where "t = (tick ^^ n) s"
  define m where "m = gen_frequency s + 1"
  define x where "x = gen_count s + int n"
  from assms have m: "0 < m" by (simp add: m_def)
  have f: "gen_frequency t = m - 1" by (simp add: t_def m_def tick_pow_fixed)
  from Suc.IH have ih: "gen_count t = x mod m" "int (gen_steps t) = int (gen_steps s) + x div m"
    by (simp_all add: t_def m_def x_def)
  have bound: "x mod m < m" using m by (rule pos_mod_bound)
  have goal: "gen_count (tick t) = (x + 1) mod m \<and>
              int (gen_steps (tick t)) = int (gen_steps s) + (x + 1) div m"
  proof (cases "x mod m + 1 = m")
    case True
    then have "gen_count t + 1 > gen_frequency t" using ih f by simp
    then have "gen_count (tick t) = 0" "gen_steps (tick t) = Suc (gen_steps t)"
      by (simp_all add: tick_def Let_def)
    moreover from counter_step [OF m, of x] True
    have "(x + 1) mod m = 0" "(x + 1) div m = x div m + 1" by simp_all
    ultimately show ?thesis using ih by simp
  next
    case False
    with bound have "\<not> gen_count t + 1 > gen_frequency t" using ih f by simp
    then have "gen_count (tick t) = gen_count t + 1" "gen_steps (tick t) = gen_steps t"
      by (simp_all add: tick_def Let_def)
    moreover from counter_step [OF m, of x] False
    have "(x + 1) mod m = x mod m + 1" "(x + 1) div m = x div m" by simp_all
    ultimately show ?thesis using ih by simp
  qed
  have "gen_count s + int (Suc n) = x + 1" by (simp add: x_def)
  with goal show ?case
    by (simp only: funpow.simps comp_apply t_def [symmetric] m_def [symmetric])
qed

lemma tick_pow_images:
  assumes "0 \<le> img_count s" "img_count s \<le> img_frequency s"
  shows "img_count ((tick ^^ n) s) = (img_count s + int n) mod (img_frequency s + 1) \<and>
         img_index ((tick ^^ n) s) =
           img_index s + (img_count s + int n) div (img_frequency s + 1) \<and>
         img_files ((tick ^^ n) s) =
           img_files s @ map (image_path (img_directory s))
                             [img_index s .. img_index ((tick ^^ n) s) - 1]"
proof (induction n)
  case 0
  from assms show ?case by (simp add: div_pos_pos_trivial mod_pos_pos_trivial)
next
  case (Suc n)
  define t where "t = (tick ^^ n) s"
  define m where "m = img_frequency s + 1"
  define x where "x = img_count s + int n"
  from assms have m: "0 < m" by (simp add: m_def)
  have f: "img_frequency t = m - 1" "img_directory t = img_directory s"
    by (simp_all add: t_def m_def tick_pow_fixed)
  from Suc.IH have ih: "img_count t = x mod m" "img_index t = img_index s + x div m"
    "img_files t = img_files s @ map (image_path (img_directory s)) [img_index s .. img_index t - 1]"
    by (simp_all add: t_def m_def x_def)
  have bound: "x mod m < m" using m by (rule pos_mod_bound)
  from assms have "0 \<le> x" by (simp add: x_def)
  with m have "0 \<le> x div m" by (simp add: pos_imp_zdiv_nonneg_iff)
  with ih(2) have le: "img_index s \<le> img_index t" by simp
  have goal: "img_count (tick t) = (x + 1) mod m \<and>
              img_index (tick t) = img_index s + (x + 1) div m \<and>
              img_files (tick t) =
                img_files s @ map (image_path (img_directory s))
                                  [img_index s .. img_index (tick t) - 1]"
  proof (cases "x mod m + 1 = m")
    case True
    then have "img_count t + 1 > img_frequency t" using ih f by simp
    then have k: "img_count (tick t) = 0" "img_index (tick t) = img_index t + 1"
      "img_files (tick t) = img_files t @ [image_path (img_directory s) (img_index t)]"
      by (simp_all add: tick_def Let_def f)
    from le have "[img_index s .. img_index t] = [img_index s .. img_index t - 1] @ [img_index t]"
      by (simp add: upto_rec2)
    with k ih(3) have "img_files (tick t) =
        img_files s @ map (image_path (img_directory s)) [img_index s .. img_index (tick t) - 1]"
      by simp
    moreover from counter_step [OF m, of x] True
    have "(x + 1) mod m = 0" "(x + 1) div m = x div m + 1" by simp_all
    ultimately show ?thesis using ih k by simp
  next
    case False
    with bound have "\<not> img_count t + 1 > img_frequency t" using ih f by simp
    then have "img_count (tick t) = img_count t + 1" "img_index (tick t) = img_index t"
      "img_files (tick t) = img_files t"
      by (simp_all add: tick_def Let_def)
    moreover from counter_step [OF m, of x] False
    have "(x + 1) mod m = x mod m + 1" "(x + 1) div m = x div m" by simp_all
    ultimately show ?thesis using ih by simp
  qed
  have "img_count s + int (Suc n) = x + 1" by (simp add: x_def)
  with goal show ?case
    by (simp only: funpow.simps comp_apply t_def [symmetric] m_def [symmetric])
qed


section \<open>The sample inputs\<close>

lemma example_env_total: "\<not> discriminator_instancenorm args \<Longrightarrow> total_env example_env args"
  by (simp add: total_env_def example_env_def)

lemma example_data_nominal:
  "list_all (\<lambda>s. nominal (fst s) \<and> nominal (snd s)) example_data"
  by (simp add: example_data_def nominal_def image_def)

lemma example_shuffle:
  "valid_shuffles example_env (length example_data)"
  "length (shuffle example_env e) = 4"
  by (simp_all add: valid_shuffles_def example_env_def example_data_def list_all_iff)

lemma example_run_returns:
  assumes "\<not> discriminator_instancenorm args" "0 < batch_size args"
  shows "\<exists>st. run example_env args example_data init_values = Inr st"
proof (rule run_returns)
  show "total_env example_env args" by (rule example_env_total [OF assms(1)])
  show "0 < batch_size args" by (rule assms(2))
  show "example_data \<noteq> []" by (simp add: example_data_def)
  show "list_all (\<lambda>s. nominal (fst s) \<and> nominal (snd s)) example_data"
    by (rule example_data_nominal)
  show "valid_shuffles example_env (length example_data)"
    by (rule example_shuffle)
qed

lemma decimal_small: "decimal 0 = ''0''" "decimal (Suc 0) = ''1''"
  by (subst decimal.simps, simp add: digit_char_def)+

lemma zeros_seven: "replicate 7 CHR ''0'' = ''0000000''"
  by (simp add: numeral_eq_Suc)

lemma format_08d_small:
  "format_08d 0 = ''00000000''" "format_08d 1 = ''00000001''"
  by (simp_all add: format_08d_def decimal_small zeros_seven)

lemma image_path_small:
  "image_path ''output/dnim_cwgangp/v1'' 0 = ''output/dnim_cwgangp/v1/generated_images/00000000.png''"
  "image_path ''output/dnim_cwgangp/v1'' 1 = ''output/dnim_cwgangp/v1/generated_images/00000001.png''"
  by (simp_all add: image_path_def os_path_join_def format_08d_small)

lemma schedule_of_fields:
  "step_count (trainer_optimizer (trainer st)) = disc_steps (schedule_of st)"
  "step_count (gtc_opt (generator_callback st)) = gen_steps (schedule_of st)"
  "map fst (written_files (trainer st)) = img_files (schedule_of st)"
  by (simp_all add: schedule_of_def)

lemma example_trainer_built: "built example_env default_args (model example_trainer)"
  by (simp add: example_trainer_def initial_trainer_def built_def CGANModel_init_def)

lemma example_dataset_nominal: "nominal_dataset 4 (DNIMWrapper_init example_data)"
  by (simp add: nominal_dataset_def DNIMWrapper_init_def example_data_def nominal_def image_def)

lemma default_args_total: "total_env example_env default_args"
  by (rule example_env_total) (simp add: default_args_def)


section \<open>What the two optimization steps compute\<close>

lemma forward_hooks_xreal:
  "forward fi m xreal y = Inr (r, m') \<Longrightarrow> state_hooks m' ''xreal'' = Some xreal"
  by (auto simp: forward_def y_real_def y_fake_def generate_def Let_def split: sum.splits)

lemma zero_grad_pgrads:
  "pgrads m = pgrads m' \<Longrightarrow> pgrads (zero_grad opt m) = pgrads (zero_grad opt m')"
  by (simp add: zero_grad_def)

lemma optimizer_step_snd:
  "pgrads (snd (optimizer_step upd opt m)) = pgrads m \<and>
   state_hooks (snd (optimizer_step upd opt m)) = state_hooks m"
  by (simp add: optimizer_step_def)

lemma train_iteration_parts:
  assumes "train_iteration ev tr idxs = Inr tr'"
  obtains xreal y target scores m2 l where
    "training_inputs (loader_dataset (train_loader tr)) idxs = Inr ((xreal, y), target)"
    "forward (format_images ev) (zero_grad (trainer_optimizer tr) (model tr)) xreal y
       = Inr (scores, m2)"
    "WGANDiscriminatorLoss_forward ev m2 scores target = Inr l"
    "model tr' = snd (optimizer_step (adam_rule ev) (trainer_optimizer tr) (backward l m2))"
  using assms
  by (auto simp: train_iteration_def Let_def split: sum.splits prod.splits)

text \<open>
  A training iteration gives every parameter of the trainer's optimizer that the loss has a
  gradient for the value Adam's rule computes from that gradient.
\<close>

lemma train_iteration_updates:
  assumes "train_iteration ev tr idxs = Inr tr'" "distinct (param_ids (trainer_optimizer tr))"
  shows "\<exists>xreal y target scores m2 l.
     training_inputs (loader_dataset (train_loader tr)) idxs = Inr ((xreal, y), target) \<and>
     forward (format_images ev) (zero_grad (trainer_optimizer tr) (model tr)) xreal y
       = Inr (scores, m2) \<and>
     WGANDiscriminatorLoss_forward ev m2 scores target = Inr l \<and>
     (\<forall>p d. p \<in> set (param_ids (trainer_optimizer tr)) \<and> loss_grad l p = Some d \<longrightarrow>
        pgrads (model tr') p = Some (accumulated (pgrads (model tr) p) d) \<and>
        pvalues (model tr') p =
          adam_rule ev (lr (trainer_optimizer tr)) (step_count (trainer_optimizer tr)) p
            (pvalues (model tr) p) (accumulated (pgrads (model tr) p) d))"
proof -
  let ?opt = "trainer_optimizer tr"
  from assms(1) obtain xreal y target scores m2 l where
    i: "training_inputs (loader_dataset (train_loader tr)) idxs = Inr ((xreal, y), target)" and
    f: "forward (format_images ev) (zero_grad ?opt (model tr)) xreal y = Inr (scores, m2)" and
    c: "WGANDiscriminatorLoss_forward ev m2 scores target = Inr l" and
    m: "model tr' = snd (optimizer_step (adam_rule ev) ?opt (backward l m2))"
    by (rule train_iteration_parts)
  from forward_fields [OF f] have
    g: "pgrads m2 = pgrads (zero_grad ?opt (model tr))" and v: "pvalues m2 = pvalues (model tr)"
    by simp_all
  have "pgrads (model tr') p = Some (accumulated (pgrads (model tr) p) d) \<and>
        pvalues (model tr') p =
          adam_rule ev (lr ?opt) (step_count ?opt) p
            (pvalues (model tr) p) (accumulated (pgrads (model tr) p) d)"
    if "p \<in> set (param_ids ?opt) \<and> loss_grad l p = Some d" for p d
  proof -
    from that have p: "p \<in> set (param_ids ?opt)" and d: "loss_grad l p = Some d" by simp_all
    from update_from_loss [OF assms(2) p d g v, of "adam_rule ev"] m optimizer_step_snd
    show ?thesis by simp
  qed
  with i f c show ?thesis by blast
qed

lemma train_generator_parts:
  assumes "train_generator ev cb tr = Inr (cb', tr')"
  obtains y yfake m1 where
    "train_generator_condition cb (np_random ev (np_random_draws tr)) = Inr y"
    "y_fake (format_images ev) (model tr) y = Inr (yfake, m1)"
    "model tr' = snd (optimizer_step (adam_rule ev) (gtc_opt cb)
                        (backward (g_loss ev m1 yfake) (zero_grad (gtc_opt cb) m1)))"
  using assms
  by (auto simp: train_generator_def Let_def split: sum.splits prod.splits)

text \<open>
  A generator training step gives every parameter of the callback's optimizer that the
  generator loss has a gradient for the value Adam's rule computes from that gradient.
\<close>

lemma train_generator_updates:
  assumes "train_generator ev cb tr = Inr (cb', tr')" "distinct (param_ids (gtc_opt cb))"
  shows "\<exists>y yfake m1.
     train_generator_condition cb (np_random ev (np_random_draws tr)) = Inr y \<and>
     y_fake (format_images ev) (model tr) y = Inr (yfake, m1) \<and>
     state_hooks (model tr') ''y'' = Some y \<and>
     (\<forall>p d. p \<in> set (param_ids (gtc_opt cb)) \<and> loss_grad (g_loss ev m1 yfake) p = Some d \<longrightarrow>
        pgrads (model tr') p = Some (accumulated (pgrads (model tr) p) d) \<and>
        pvalues (model tr') p =
          adam_rule ev (lr (gtc_opt cb)) (step_count (gtc_opt cb)) p
            (pvalues (model tr) p) (accumulated (pgrads (model tr) p) d))"
proof -
  let ?opt = "gtc_opt cb"
  from assms(1) obtain y yfake m1 where
    c: "train_generator_condition cb (np_random ev (np_random_draws tr)) = Inr y" and
    f: "y_fake (format_images ev) (model tr) y = Inr (yfake, m1)" and
    m: "model tr' = snd (optimizer_step (adam_rule ev) ?opt
                          (backward (g_loss ev m1 yfake) (zero_grad ?opt m1)))"
    by (rule train_generator_parts)
  let ?mz = "zero_grad ?opt m1"
  from y_fake_fields [OF f] have "pgrads m1 = pgrads (model tr)" by simp
  then have g: "pgrads ?mz = pgrads (zero_grad ?opt (model tr))" by (rule zero_grad_pgrads)
  from y_fake_fields [OF f] have v: "pvalues ?mz = pvalues (model tr)" by simp
  from y_fake_hooks_y [OF f] m optimizer_step_snd
  have h: "state_hooks (model tr') ''y'' = Some y" by simp
  have "pgrads (model tr') p = Some (accumulated (pgrads (model tr) p) d) \<and>
        pvalues (model tr') p =
          adam_rule ev (lr ?opt) (step_count ?opt) p
            (pvalues (model tr) p) (accumulated (pgrads (model tr) p) d)"
    if "p \<in> set (param_ids ?opt) \<and> loss_grad (g_loss ev m1 yfake) p = Some d" for p d
  proof -
    from that have p: "p \<in> set (param_ids ?opt)" and
      d: "loss_grad (g_loss ev m1 yfake) p = Some d" by simp_all
    from update_from_loss [OF assms(2) p d g v, of "adam_rule ev"] m optimizer_step_snd
    show ?thesis by simp
  qed
  with c f h show ?thesis by blast
qed

lemma train_generator_returns:
  assumes "built ev args (model tr)" "total_env ev args"
    "nominal_dataset d (gtc_dataset cb)" "gtc_len cb = int d" "0 < d"
  shows "\<exists>cb' tr'. train_generator ev cb tr = Inr (cb', tr')"
proof -
  from train_generator_condition_returns [OF assms(3) assms(4) assms(5)] obtain y where
    y: "train_generator_condition cb (np_random ev (np_random_draws tr)) = Inr y"
       "shape y = [1, 3, 32, 32]"
    by blast
  have one: "0 < (1::nat)" by simp
  from y_fake_returns [OF assms(1) assms(2) y(2) one] obtain s m1 where
    "y_fake (format_images ev) (model tr) y = Inr (s, m1)" by blast
  with y(1) show ?thesis
    by (simp add: train_generator_def Let_def split: prod.splits)
qed


section \<open>The draw of the generator step\<close>

lemma randint_distribution_support:
  "map fst (randint_distribution low high) = [low .. high - 1]"
  by (simp add: randint_distribution_def comp_def)

lemma randint_distribution_uniform:
  "list_all (\<lambda>jp. snd jp = 1 / real_of_int (high - low)) (randint_distribution low high)"
  by (simp add: randint_distribution_def list_all_iff)


lemma randint_reaches:
  assumes "low \<le> j" "j < high"
  shows "np_random_randint (nat (j - low)) low high = Inr j"
proof -
  from assms have "nat (j - low) < nat (high - low)" by simp
  then have "nat (j - low) mod nat (high - low) = nat (j - low)" by simp
  with assms show ?thesis by (simp add: randint_value)
qed

section \<open>The sessions of a run\<close>

lemma fit_iteration_wiring:
  assumes "fit_iteration ev st b = Inr st'"
  shows "param_ids (trainer_optimizer (trainer st')) = param_ids (trainer_optimizer (trainer st)) \<and>
         param_ids (gtc_opt (generator_callback st')) = param_ids (gtc_opt (generator_callback st)) \<and>
         gtc_dataset (generator_callback st') = gtc_dataset (generator_callback st) \<and>
         gtc_len (generator_callback st') = gtc_len (generator_callback st)"
proof -
  from assms obtain tr1 gdc tr2 gtc tr3 where
    t: "train_iteration ev (trainer st) b = Inr tr1" and
    g: "CGenerateDataCallback_end_of_training_iteration ev (image_callback st) tr1
          = Inr (gdc, tr2)" and
    c: "CGeneratorTrainingCallback_end_of_training_iteration ev (generator_callback st) tr2
          = Inr (gtc, tr3)" and
    s: "st' = \<lparr>trainer = tr3, image_callback = gdc, generator_callback = gtc\<rparr>"
    by (auto simp: fit_iteration_def split: sum.splits)
  from train_iteration_effect [OF t] gdc_end_effect [OF g] gtc_end_effect [OF c] s
  show ?thesis by simp
qed

text \<open>
  In every session of a run the trainer's optimizer holds the parameters of the
  discriminator and the callback's optimizer those of the generator, as \<^verbatim>\<open>run\<close> has built
  them, and the callback's dataset is the one the run was given.
\<close>

lemma reachable_wiring:
  assumes "reachable ev args data init_values st"
  shows "param_ids (trainer_optimizer (trainer st)) =
           module_parameters Discriminator (CDiscriminatorNetwork_trunk args) \<and>
         param_ids (gtc_opt (generator_callback st)) =
           module_parameters Generator (CGeneratorNetwork args) \<and>
         gtc_dataset (generator_callback st) = DNIMWrapper_init data \<and>
         gtc_len (generator_callback st) = int (length data)"
  using assms
proof (induction rule: reachable.induct)
  case (start st)
  from start obtain loader gdc where
    "st = \<lparr>trainer = initial_trainer ev args loader init_values, image_callback = gdc,
           generator_callback = CGeneratorTrainingCallback_init args
             (module_parameters Generator (CGeneratorNetwork args)) data\<rparr>"
    by (rule initial_session_parts)
  then show ?case
    by (simp add: initial_trainer_def Adam_def CGeneratorTrainingCallback_init_def Let_def
        DNIMWrapper_len_def DNIMWrapper_init_def)
next
  case (pass st st')
  from pass.hyps(3) obtain b tr where
    f: "fetch_next_batch ev (trainer st) = Inr (b, tr)" and
    i: "fit_iteration ev (st\<lparr>trainer := tr\<rparr>) b = Inr st'"
    by (rule fit_step_parts)
  from fit_iteration_wiring [OF i] fetch_next_batch_effect [OF f] pass.IH show ?case
    by simp
qed

lemma module_parameters_first:
  assumes "has_parameters l"
  shows "(sm, 0, Weight) \<in> set (module_parameters sm (l # ls))"
proof -
  have "[0 ..< length (l # ls)] = 0 # [Suc 0 ..< length (l # ls)]"
    by (rule upt_conv_Cons) simp
  with assms show ?thesis
    by (simp add: module_parameters_def del: upt_Suc)
qed

lemma first_parameters:
  "(Generator, 0, Weight) \<in> set (module_parameters Generator (CGeneratorNetwork args))"
  "(Discriminator, 0, Weight) \<in>
     set (module_parameters Discriminator (CDiscriminatorNetwork_trunk args))"
proof -
  have "\<exists>ls. CGeneratorNetwork args = Conv2d 3 32 3 1 3 # ls"
    by (simp add: CGeneratorNetwork_def not_none_def)
  then show "(Generator, 0, Weight) \<in> set (module_parameters Generator (CGeneratorNetwork args))"
    by (auto simp: module_parameters_first)
  have "\<exists>ls. CDiscriminatorNetwork_trunk args = Conv2d 6 64 4 2 1 # ls"
    by (simp add: CDiscriminatorNetwork_trunk_def not_none_def)
  then show "(Discriminator, 0, Weight) \<in>
     set (module_parameters Discriminator (CDiscriminatorNetwork_trunk args))"
    by (auto simp: module_parameters_first)
qed

lemma example_session:
  "\<exists>st. initial_session example_env default_args example_data (\<lambda>p. [0]) = Inr st \<and>
        trainer st = initial_trainer example_env default_args example_loader (\<lambda>p. [0]) \<and>
        generator_callback st = example_generator_callback"
  by (simp add: initial_session_def dnim_cgan_data_loader_def default_args_def
      CGenerateDataCallback_init_def dataset_defs Let_def example_loader_def
      example_generator_callback_def)

text \<open>The session a run returns is one of its sessions.\<close>

lemma fit_loop_reachable:
  "reachable ev args data init_values st \<Longrightarrow> fit_loop ev st = Inr st' \<Longrightarrow>
     reachable ev args data init_values st'"
proof (induction ev st rule: fit_loop.induct)
  case (1 ev st)
  show ?case
  proof (cases "stop_fitting (trainer st)")
    case True
    with "1.prems"(2) have "st' = st" by (subst (asm) fit_loop.simps) simp
    with "1.prems"(1) show ?thesis by simp
  next
    case False
    with "1.prems"(2) obtain st1 where
      s: "fit_step ev st = Inr st1" "fit_loop ev st1 = Inr st'"
      by (subst (asm) fit_loop.simps) (auto split: sum.splits)
    from reachable.pass [OF "1.prems"(1) False s(1)]
    have "reachable ev args data init_values st1" .
    from "1.IH" [OF False s(1) this s(2)] show ?thesis .
  qed
qed

lemma run_reachable:
  assumes "run ev args data init_values = Inr st"
  shows "reachable ev args data init_values st"
proof -
  from assms obtain st0 where
    s: "initial_session ev args data init_values = Inr st0" and f: "fit_loop ev st0 = Inr st"
    by (auto simp: run_def fit_def split: sum.splits)
  from fit_loop_reachable [OF reachable.start [OF s] f] show ?thesis .
qed

section \<open>Claims about the schedule\<close>

text \<open>
  The counts of every run that returns, in closed form. With \<open>T\<close> iterations and
  non-negative frequencies, the trainer's optimizer steps \<open>T\<close> times, the generator's
  optimizer steps \<open>T div (generator_frequency + 1)\<close> times and
  \<open>T div (image_frequency + 1)\<close> image files are written, with the indices from 0
  upwards in their names: a callback fires when its counter exceeds its frequency, which
  is every \<open>frequency + 1\<close> iterations.
\<close>

theorem run_counts:
  assumes "run ev args data init_values = Inr st"
    and "0 \<le> generator_frequency args" and "0 \<le> image_frequency args"
  shows "step_count (trainer_optimizer (trainer st)) = iterations ev args \<and>
         int (step_count (gtc_opt (generator_callback st))) =
           int (iterations ev args) div (generator_frequency args + 1) \<and>
         int (length (written_files (trainer st))) =
           int (iterations ev args) div (image_frequency args + 1) \<and>
         map fst (written_files (trainer st)) =
           map (image_path (save_directory args))
               [0 .. int (iterations ev args) div (image_frequency args + 1) - 1]"
proof -
  define i where "i = initial_schedule args"
  define n where "n = iterations ev args"
  have i: "gen_count i = 0" "gen_frequency i = generator_frequency args" "img_count i = 0"
    "img_frequency i = image_frequency args" "gen_steps i = 0" "img_index i = 0"
    "img_files i = []" "disc_steps i = 0" "img_directory i = save_directory args"
    by (simp_all add: i_def initial_schedule_def)
  from run_schedule [OF assms(1)] have s: "schedule_of st = (tick ^^ n) i"
    by (simp add: i_def n_def)
  have c: "0 \<le> gen_count i" "gen_count i \<le> gen_frequency i"
    "0 \<le> img_count i" "img_count i \<le> img_frequency i"
    using i assms(2) assms(3) by simp_all
  have d: "disc_steps ((tick ^^ n) i) = n"
    using tick_pow_fixed [of n i] i by simp
  have g: "int (gen_steps ((tick ^^ n) i)) = int n div (generator_frequency args + 1)"
    using tick_pow_generator [OF c(1,2), of n] i by simp
  have x: "img_index ((tick ^^ n) i) = int n div (image_frequency args + 1)"
    using tick_pow_images [OF c(3,4), of n] i by simp
  have f: "img_files ((tick ^^ n) i) =
      map (image_path (save_directory args)) [0 .. int n div (image_frequency args + 1) - 1]"
    using tick_pow_images [OF c(3,4), of n] i x by simp
  from assms(3) have "0 \<le> int n div (image_frequency args + 1)"
    by (simp add: pos_imp_zdiv_nonneg_iff)
  then have l: "int (length (img_files ((tick ^^ n) i))) = int n div (image_frequency args + 1)"
    by (simp add: f)
  have "length (written_files (trainer st)) = length (img_files (schedule_of st))"
    by (simp add: schedule_of_fields [symmetric])
  with d g f l show ?thesis
    by (simp add: schedule_of_fields s n_def)
qed

text \<open>
  The closed form at the spec's scenario (four samples, batches of two, two epochs, both
  frequencies one): the run returns after five iterations and the generator's optimizer
  has stepped \<open>5 div 2\<close> times.
\<close>

theorem run_counts_witness:
  "\<exists>st. run example_env scenario_args example_data (\<lambda>p. [0]) = Inr st \<and>
        iterations example_env scenario_args = 5 \<and>
        step_count (trainer_optimizer (trainer st)) = 5 \<and>
        int (step_count (gtc_opt (generator_callback st))) = 2 \<and>
        int (length (written_files (trainer st))) = 2"
proof -
  have a: "\<not> discriminator_instancenorm scenario_args" "0 < batch_size scenario_args"
    "0 < epochs scenario_args"
    by (simp_all add: scenario_args_def default_args_def)
  from example_run_returns [OF a(1) a(2)] obtain st where
    r: "run example_env scenario_args example_data (\<lambda>p. [0]) = Inr st" by blast
  have n: "iterations example_env scenario_args = 5"
    using iterations_uniform [OF a(2) a(3), of example_env 4] example_shuffle(2)
    by (simp add: scenario_args_def default_args_def)
  have f: "0 \<le> generator_frequency scenario_args" "0 \<le> image_frequency scenario_args"
    "generator_frequency scenario_args = 1" "image_frequency scenario_args = 1"
    by (simp_all add: scenario_args_def default_args_def)
  from run_counts [OF r f(1) f(2)] n f(3) f(4) r show ?thesis by auto
qed

text \<open>
  \<^bold>\<open>Claim C1.\<close> The claim promises \<open>E * ceil(D / B)\<close> discriminator updates,
  \<open>floor(E * ceil(D / B) / generator_frequency)\<close> generator updates and
  \<open>floor(E * ceil(D / B) / image_frequency)\<close> image files. The code is evaluated at a
  run of ten epochs over the sample dataset of four pairs with batches of two and the
  default frequencies of ten, for which the claim promises 20 discriminator updates, two
  generator updates and two image files. The run returns; the discriminator's optimizer has
  stepped 21 times, the generator's optimizer once, and one image file has been written.
\<close>

theorem ten_epochs_one_generator_update:
  "\<exists>st. run example_env ten_epochs_args example_data (\<lambda>p. [0]) = Inr st \<and>
        epochs ten_epochs_args = 10 \<and> batch_size ten_epochs_args = 2 \<and>
        length example_data = 4 \<and>
        generator_frequency ten_epochs_args = 10 \<and>
        image_frequency ten_epochs_args = 10 \<and>
        step_count (trainer_optimizer (trainer st)) = 21 \<and>
        step_count (gtc_opt (generator_callback st)) = 1 \<and>
        map fst (written_files (trainer st)) =
          [''output/dnim_cwgangp/v1/generated_images/00000000.png'']"
proof -
  have a: "\<not> discriminator_instancenorm ten_epochs_args" "0 < batch_size ten_epochs_args"
    "0 < epochs ten_epochs_args"
    by (simp_all add: ten_epochs_args_def default_args_def)
  from example_run_returns [OF a(1) a(2)] obtain st where
    r: "run example_env ten_epochs_args example_data (\<lambda>p. [0]) = Inr st" by blast
  have n: "iterations example_env ten_epochs_args = 21"
    using iterations_uniform [OF a(2) a(3), of example_env 4] example_shuffle(2)
    by (simp add: ten_epochs_args_def default_args_def)
  define i where "i = initial_schedule ten_epochs_args"
  have i: "gen_count i = 0" "gen_frequency i = 10" "img_count i = 0" "img_frequency i = 10"
    "gen_steps i = 0" "img_index i = 0" "img_files i = []" "disc_steps i = 0"
    "img_directory i = ''output/dnim_cwgangp/v1''"
    by (simp_all add: i_def initial_schedule_def ten_epochs_args_def default_args_def)
  from run_schedule [OF r] n have s: "schedule_of st = (tick ^^ 21) i" by (simp add: i_def)
  have c: "0 \<le> gen_count i" "gen_count i \<le> gen_frequency i"
    "0 \<le> img_count i" "img_count i \<le> img_frequency i"
    using i by simp_all
  have "disc_steps ((tick ^^ 21) i) = 21"
    using tick_pow_fixed [of 21 i] i by simp
  moreover have "gen_steps ((tick ^^ 21) i) = 1"
    using tick_pow_generator [OF c(1,2), of 21] i by simp
  moreover have x: "img_index ((tick ^^ 21) i) = 1"
    using tick_pow_images [OF c(3,4), of 21] i by simp
  have "[0 .. (0::int)] = [0]" by (simp add: upto.simps)
  with x have "img_files ((tick ^^ 21) i) =
      [''output/dnim_cwgangp/v1/generated_images/00000000.png'']"
    using tick_pow_images [OF c(3,4), of 21] i by (simp add: image_path_small)
  ultimately have "step_count (trainer_optimizer (trainer st)) = 21"
    "step_count (gtc_opt (generator_callback st)) = 1"
    "map fst (written_files (trainer st)) =
       [''output/dnim_cwgangp/v1/generated_images/00000000.png'']"
    by (simp_all add: schedule_of_fields s)
  with r show ?thesis
    by (simp add: ten_epochs_args_def default_args_def example_data_def)
qed

text \<open>
  \<^bold>\<open>Claim C2.\<close> The claim promises four discriminator updates, four generator updates
  and four image files for the scenario of four samples, batches of two, two epochs and
  both frequencies one. The code is evaluated at that scenario: the run returns, the
  discriminator's optimizer has stepped five times, the generator's optimizer twice, and
  two image files have been written, named by the zero-padded indices 0 and 1.
\<close>

theorem scenario_two_generator_updates:
  "\<exists>st. run example_env scenario_args example_data (\<lambda>p. [0]) = Inr st \<and>
        epochs scenario_args = 2 \<and> batch_size scenario_args = 2 \<and>
        length example_data = 4 \<and>
        generator_frequency scenario_args = 1 \<and> image_frequency scenario_args = 1 \<and>
        step_count (trainer_optimizer (trainer st)) = 5 \<and>
        step_count (gtc_opt (generator_callback st)) = 2 \<and>
        map fst (written_files (trainer st)) =
          [''output/dnim_cwgangp/v1/generated_images/00000000.png'',
           ''output/dnim_cwgangp/v1/generated_images/00000001.png'']"
proof -
  have a: "\<not> discriminator_instancenorm scenario_args" "0 < batch_size scenario_args"
    "0 < epochs scenario_args"
    by (simp_all add: scenario_args_def default_args_def)
  from example_run_returns [OF a(1) a(2)] obtain st where
    r: "run example_env scenario_args example_data (\<lambda>p. [0]) = Inr st" by blast
  have n: "iterations example_env scenario_args = 5"
    using iterations_uniform [OF a(2) a(3), of example_env 4] example_shuffle(2)
    by (simp add: scenario_args_def default_args_def)
  define i where "i = initial_schedule scenario_args"
  have i: "gen_count i = 0" "gen_frequency i = 1" "img_count i = 0" "img_frequency i = 1"
    "gen_steps i = 0" "img_index i = 0" "img_files i = []" "disc_steps i = 0"
    "img_directory i = ''output/dnim_cwgangp/v1''"
    by (simp_all add: i_def initial_schedule_def scenario_args_def default_args_def)
  from run_schedule [OF r] n have s: "schedule_of st = (tick ^^ 5) i" by (simp add: i_def)
  have c: "0 \<le> gen_count i" "gen_count i \<le> gen_frequency i"
    "0 \<le> img_count i" "img_count i \<le> img_frequency i"
    using i by simp_all
  have "disc_steps ((tick ^^ 5) i) = 5"
    using tick_pow_fixed [of 5 i] i by simp
  moreover have "gen_steps ((tick ^^ 5) i) = 2"
    using tick_pow_generator [OF c(1,2), of 5] i by simp
  moreover have x: "img_index ((tick ^^ 5) i) = 2"
    using tick_pow_images [OF c(3,4), of 5] i by simp
  have "[0 .. (1::int)] = [0, 1]" by (simp add: upto.simps)
  with x have "img_files ((tick ^^ 5) i) =
      [''output/dnim_cwgangp/v1/generated_images/00000000.png'',
       ''output/dnim_cwgangp/v1/generated_images/00000001.png'']"
    using tick_pow_images [OF c(3,4), of 5] i by (simp add: image_path_small)
  ultimately have "step_count (trainer_optimizer (trainer st)) = 5"
    "step_count (gtc_opt (generator_callback st)) = 2"
    "map fst (written_files (trainer st)) =
          [''output/dnim_cwgangp/v1/generated_images/00000000.png'',
           ''output/dnim_cwgangp/v1/generated_images/00000001.png'']"
    by (simp_all add: schedule_of_fields s)
  with r show ?thesis
    by (simp add: scenario_args_def default_args_def example_data_def)
qed

section \<open>Claims about the conditions of the training steps\<close>

text \<open>
  Claim C4 as stated fails. The image callback built on the sample dataset holds the night
  image of the first pair, not its day image.
\<close>

theorem image_callback_condition_is_not_day:
  "(case CGenerateDataCallback_init default_args example_data of
      Inl e \<Rightarrow> False
    | Inr cb \<Rightarrow>
        gdc_y cb = unsqueeze0 (snd (example_data ! 0)) \<and>
        gdc_y cb \<noteq> unsqueeze0 (fst (example_data ! 0)))"
  by (simp add: CGenerateDataCallback_init_def dataset_defs unsqueeze0_def image_def)

text \<open>
  \<^bold>\<open>Claim C4, amended.\<close> Every condition the program consumes is the night image of its
  sample pair, the component at index 1 of the sample. In a training iteration the model's
  forward pass is called with the stack of the day images at the batch's indices as the real
  images \<open>xreal\<close> and the stack of the night images at those indices as the condition
  \<open>y\<close>, and after the iteration the wrapper caches exactly these two. The condition of a
  batch the loader collates is the stack of the night images. The condition drawn by the
  generator-training callback is the night image at an index of the dataset, with a leading
  axis of size one, and the condition the image callback captures at construction is the
  night image of the first pair, with a leading axis of size one.
\<close>

theorem conditions_are_night_images:
  "(train_iteration ev tr idxs = Inr tr' \<longrightarrow>
      (\<exists>xr yn scores m2.
         stack (map (\<lambda>i. days (loader_dataset (train_loader tr)) ! i) idxs) = Inr xr \<and>
         stack (map (\<lambda>i. nights (loader_dataset (train_loader tr)) ! i) idxs) = Inr yn \<and>
         forward (format_images ev) (zero_grad (trainer_optimizer tr) (model tr)) xr yn
           = Inr (scores, m2) \<and>
         state_hooks (model tr') ''xreal'' = Some xr \<and>
         state_hooks (model tr') ''y'' = Some yn)) \<and>
   (training_inputs ds idxs = Inr ((xreal, y), target) \<longrightarrow>
      stack (map (\<lambda>i. nights ds ! i) idxs) = Inr y \<and>
      stack (map (\<lambda>i. days ds ! i) idxs) = Inr xreal) \<and>
   (train_generator_condition cb u = Inr c \<longrightarrow>
      (\<exists>i. i < length (nights (gtc_dataset cb)) \<and> int i < gtc_len cb \<and>
           c = unsqueeze0 (nights (gtc_dataset cb) ! i))) \<and>
   (CGenerateDataCallback_init args data = Inr gdc \<longrightarrow>
      data \<noteq> [] \<and> gdc_y gdc = unsqueeze0 (snd (hd data)))"
proof (intro conjI impI)
  assume "train_iteration ev tr idxs = Inr tr'"
  then obtain xr yn target scores m2 l where
    i: "training_inputs (loader_dataset (train_loader tr)) idxs = Inr ((xr, yn), target)" and
    f: "forward (format_images ev) (zero_grad (trainer_optimizer tr) (model tr)) xr yn
          = Inr (scores, m2)" and
    m: "model tr' = snd (optimizer_step (adam_rule ev) (trainer_optimizer tr) (backward l m2))"
    by (rule train_iteration_parts)
  from m optimizer_step_snd have h: "state_hooks (model tr') = state_hooks m2" by simp
  from training_inputs_components [OF i] f forward_hooks_xreal [OF f] forward_hooks_y [OF f] h
  show "\<exists>xr yn scores m2.
         stack (map (\<lambda>i. days (loader_dataset (train_loader tr)) ! i) idxs) = Inr xr \<and>
         stack (map (\<lambda>i. nights (loader_dataset (train_loader tr)) ! i) idxs) = Inr yn \<and>
         forward (format_images ev) (zero_grad (trainer_optimizer tr) (model tr)) xr yn
           = Inr (scores, m2) \<and>
         state_hooks (model tr') ''xreal'' = Some xr \<and>
         state_hooks (model tr') ''y'' = Some yn"
    by auto
next
  assume a: "training_inputs ds idxs = Inr ((xreal, y), target)"
  from training_inputs_components [OF a]
  show "stack (map (\<lambda>i. nights ds ! i) idxs) = Inr y"
    and "stack (map (\<lambda>i. days ds ! i) idxs) = Inr xreal" by simp_all
next
  assume "train_generator_condition cb u = Inr c"
  then show "\<exists>i. i < length (nights (gtc_dataset cb)) \<and> int i < gtc_len cb \<and>
           c = unsqueeze0 (nights (gtc_dataset cb) ! i)"
    by (rule train_generator_condition_night)
next
  assume a: "CGenerateDataCallback_init args data = Inr gdc"
  from image_callback_condition [OF a]
  show "data \<noteq> []" and "gdc_y gdc = unsqueeze0 (snd (hd data))" by simp_all
qed

text \<open>
  The amended claim C4 on the sample dataset: a training iteration of the trainer built
  from the default arguments on the batch of the indices 0 and 1, after which the cached
  condition is the stack of the two night images; the loader's batch of those indices; the
  draw whose raw value is 5 (index 1 of four); and the image callback.
\<close>

theorem conditions_are_night_images_witness:
  "\<exists>tr' yn xreal y target c gdc.
     train_iteration example_env example_trainer [0, 1] = Inr tr' \<and>
     stack [image 0, image (1 / 4)] = Inr yn \<and>
     state_hooks (model tr') ''y'' = Some yn \<and>
     training_inputs (DNIMWrapper_init example_data) [0, 1] = Inr ((xreal, y), target) \<and>
     stack [image 0, image (1 / 4)] = Inr y \<and>
     train_generator_condition
       (CGeneratorTrainingCallback_init default_args [] example_data) 5 = Inr c \<and>
     c = unsqueeze0 (image (1 / 4)) \<and>
     CGenerateDataCallback_init default_args example_data = Inr gdc \<and>
     gdc_y gdc = unsqueeze0 (image 0)"
proof -
  let ?ds = "DNIMWrapper_init example_data"
  let ?cb = "CGeneratorTrainingCallback_init default_args [] example_data"
  have ld: "loader_dataset (train_loader example_trainer) = ?ds"
    by (simp add: example_trainer_def initial_trainer_def example_loader_def)
  with example_dataset_nominal have
    nd: "nominal_dataset 4 (loader_dataset (train_loader example_trainer))" by simp
  have "[0, 1] \<noteq> ([]::nat list)" "list_all (\<lambda>i. i < 4) [0, 1::nat]" by simp_all
  from train_iteration_returns [OF example_trainer_built default_args_total nd this]
  obtain tr' where i: "train_iteration example_env example_trainer [0, 1] = Inr tr'"
    by blast
  obtain xreal y target where t: "training_inputs ?ds [0, 1] = Inr ((xreal, y), target)"
    by (simp add: training_inputs_def fetch_batch_def stack_def dataset_defs image_def)
  obtain c where c: "train_generator_condition ?cb 5 = Inr c"
    by (simp add: train_generator_condition_def CGeneratorTrainingCallback_init_def
        randint_value dataset_defs)
  have c': "c = unsqueeze0 (image (1 / 4))"
    using c
    by (simp add: train_generator_condition_def CGeneratorTrainingCallback_init_def
        randint_value dataset_defs)
  obtain gdc where g: "CGenerateDataCallback_init default_args example_data = Inr gdc"
    by (simp add: CGenerateDataCallback_init_def dataset_defs)
  have n: "nights ?ds ! 0 = image 0" "nights ?ds ! Suc 0 = image (1 / 4)"
    "snd (hd example_data) = image 0"
    by (simp_all add: dataset_defs)
  from conditions_are_night_images [of example_env example_trainer "[0, 1]" tr' ?ds
      xreal y target ?cb 5 c default_args example_data gdc] i t c c' g ld n
  show ?thesis
    by auto
qed

section \<open>Claims about the optimization steps\<close>

lemma criterion_loss:
  "WGANDiscriminatorLoss_forward ev m input target = Inr l \<Longrightarrow> \<exists>ymix. l = d_loss ev m input ymix"
  by (auto simp: WGANDiscriminatorLoss_forward_def split: option.splits sum.splits)

lemma example_data_length: "length example_data = 4"
  by (simp add: example_data_def)

lemma example_session_ready:
  assumes "initial_session example_env default_args example_data (\<lambda>p. [0]) = Inr st"
  shows "ready example_env default_args 4 st"
proof -
  have "0 < batch_size default_args" "example_data \<noteq> []"
    by (simp_all add: default_args_def example_data_def)
  from initial_session_returns [OF this example_data_nominal, of example_env "\<lambda>p. [0]"] assms
  show ?thesis by (simp add: example_data_length)
qed

lemma example_session_values:
  assumes "initial_session example_env default_args example_data (\<lambda>p. [0]) = Inr st"
  shows "pvalues (model (trainer st)) = (\<lambda>p. [0])" "pgrads (model (trainer st)) = Map.empty"
    "lr (trainer_optimizer (trainer st)) = 3 / 10000"
    "lr (gtc_opt (generator_callback st)) = 3 / 10000"
    "step_count (gtc_opt (generator_callback st)) = 0"
    "np_random_draws (trainer st) = 0"
proof -
  from assms obtain loader gdc where
    "st = \<lparr>trainer = initial_trainer example_env default_args loader (\<lambda>p. [0]),
           image_callback = gdc,
           generator_callback = CGeneratorTrainingCallback_init default_args
             (module_parameters Generator (CGeneratorNetwork default_args)) example_data\<rparr>"
    by (rule initial_session_parts)
  then show "pvalues (model (trainer st)) = (\<lambda>p. [0])"
    "pgrads (model (trainer st)) = Map.empty"
    "lr (trainer_optimizer (trainer st)) = 3 / 10000"
    "lr (gtc_opt (generator_callback st)) = 3 / 10000"
    "step_count (gtc_opt (generator_callback st)) = 0"
    "np_random_draws (trainer st) = 0"
    by (simp_all add: initial_trainer_def CGANModel_init_def Adam_def default_args_def
        CGeneratorTrainingCallback_init_def Let_def)
qed

lemma example_descent:
  "adam_rule example_env (3 / 10000) k p [0] (accumulated None [1]) = [- (3 / 10000)]"
  by (simp add: example_env_def accumulated_def)

text \<open>
  \<^bold>\<open>Claim C7.\<close> In every session of a run, with the optimizers as \<^verbatim>\<open>run\<close> has built
  them: a training iteration of the trainer on the batch it fetches (an optimization step
  on the discriminator loss) leaves the value of every generator parameter as it was, and
  gives every discriminator parameter the loss has a gradient for the value Adam's rule
  computes from it; a generator training step of the callback (an optimization step on
  the generator loss) leaves the value of every discriminator parameter as it was, and
  gives every generator parameter the generator loss has a gradient for the value Adam's
  rule computes from it.
\<close>

theorem optimizers_update_their_own_network_only:
  assumes "reachable ev args data init_values st"
  shows
    "(fetch_next_batch ev (trainer st) = Inr (idxs, tr0) \<and>
      train_iteration ev tr0 idxs = Inr tr1 \<longrightarrow>
        (\<forall>p. fst p = Generator \<longrightarrow> pvalues (model tr1) p = pvalues (model (trainer st)) p) \<and>
        (\<exists>xreal y target scores m2 l.
           training_inputs (loader_dataset (train_loader (trainer st))) idxs
             = Inr ((xreal, y), target) \<and>
           forward (format_images ev)
             (zero_grad (trainer_optimizer (trainer st)) (model (trainer st))) xreal y
             = Inr (scores, m2) \<and>
           WGANDiscriminatorLoss_forward ev m2 scores target = Inr l \<and>
           (\<forall>p d. p \<in> set (module_parameters Discriminator (CDiscriminatorNetwork_trunk args)) \<and>
                  loss_grad l p = Some d \<longrightarrow>
              pvalues (model tr1) p =
                adam_rule ev (lr (trainer_optimizer (trainer st)))
                  (step_count (trainer_optimizer (trainer st))) p
                  (pvalues (model (trainer st)) p)
                  (accumulated (pgrads (model (trainer st)) p) d)))) \<and>
     (train_generator ev ((generator_callback st)\<lparr>gtc_count := c\<rparr>) tr = Inr (cb2, tr2) \<longrightarrow>
        (\<forall>p. fst p = Discriminator \<longrightarrow> pvalues (model tr2) p = pvalues (model tr) p) \<and>
        (\<exists>y yfake m1.
           y_fake (format_images ev) (model tr) y = Inr (yfake, m1) \<and>
           (\<forall>p d. p \<in> set (module_parameters Generator (CGeneratorNetwork args)) \<and>
                  loss_grad (g_loss ev m1 yfake) p = Some d \<longrightarrow>
              pvalues (model tr2) p =
                adam_rule ev (lr (gtc_opt (generator_callback st)))
                  (step_count (gtc_opt (generator_callback st))) p
                  (pvalues (model tr) p) (accumulated (pgrads (model tr) p) d))))"
proof (intro conjI impI)
  from reachable_wiring [OF assms] have
    w: "param_ids (trainer_optimizer (trainer st)) =
          module_parameters Discriminator (CDiscriminatorNetwork_trunk args)"
    by simp
  assume a: "fetch_next_batch ev (trainer st) = Inr (idxs, tr0) \<and>
             train_iteration ev tr0 idxs = Inr tr1"
  then have f: "fetch_next_batch ev (trainer st) = Inr (idxs, tr0)" and
    t: "train_iteration ev tr0 idxs = Inr tr1" by simp_all
  from fetch_next_batch_effect [OF f] have
    e: "model tr0 = model (trainer st)" "trainer_optimizer tr0 = trainer_optimizer (trainer st)"
       "train_loader tr0 = train_loader (trainer st)"
    by simp_all
  have fr: "\<And>q. q \<notin> set (param_ids (trainer_optimizer tr0)) \<Longrightarrow>
                pvalues (model tr1) q = pvalues (model tr0) q"
    using train_iteration_effect [OF t] by blast
  show "\<forall>p. fst p = Generator \<longrightarrow> pvalues (model tr1) p = pvalues (model (trainer st)) p"
  proof (intro allI impI)
    fix p :: pname
    assume "fst p = Generator"
    with w e have "p \<notin> set (param_ids (trainer_optimizer tr0))"
      by (auto dest: module_parameters_owner)
    from fr [OF this] e
    show "pvalues (model tr1) p = pvalues (model (trainer st)) p" by simp
  qed
  from w e have "distinct (param_ids (trainer_optimizer tr0))"
    by (simp add: module_parameters_distinct)
  from train_iteration_updates [OF t this]
  show "\<exists>xreal y target scores m2 l.
           training_inputs (loader_dataset (train_loader (trainer st))) idxs
             = Inr ((xreal, y), target) \<and>
           forward (format_images ev)
             (zero_grad (trainer_optimizer (trainer st)) (model (trainer st))) xreal y
             = Inr (scores, m2) \<and>
           WGANDiscriminatorLoss_forward ev m2 scores target = Inr l \<and>
           (\<forall>p d. p \<in> set (module_parameters Discriminator (CDiscriminatorNetwork_trunk args)) \<and>
                  loss_grad l p = Some d \<longrightarrow>
              pvalues (model tr1) p =
                adam_rule ev (lr (trainer_optimizer (trainer st)))
                  (step_count (trainer_optimizer (trainer st))) p
                  (pvalues (model (trainer st)) p)
                  (accumulated (pgrads (model (trainer st)) p) d))"
    unfolding e w by blast
next
  let ?cb = "(generator_callback st)\<lparr>gtc_count := c\<rparr>"
  from reachable_wiring [OF assms] have
    w: "param_ids (gtc_opt ?cb) = module_parameters Generator (CGeneratorNetwork args)"
    by simp
  have o: "gtc_opt ?cb = gtc_opt (generator_callback st)" by simp
  from w have w': "param_ids (gtc_opt (generator_callback st)) =
                     module_parameters Generator (CGeneratorNetwork args)"
    by simp
  assume t: "train_generator ev ?cb tr = Inr (cb2, tr2)"
  have fr: "\<And>q. q \<notin> set (param_ids (gtc_opt ?cb)) \<Longrightarrow>
                pvalues (model tr2) q = pvalues (model tr) q"
    using train_generator_effect [OF t] by blast
  show "\<forall>p. fst p = Discriminator \<longrightarrow> pvalues (model tr2) p = pvalues (model tr) p"
  proof (intro allI impI)
    fix p :: pname
    assume "fst p = Discriminator"
    with w have "p \<notin> set (param_ids (gtc_opt ?cb))"
      by (auto dest: module_parameters_owner)
    then show "pvalues (model tr2) p = pvalues (model tr) p" by (rule fr)
  qed
  from w have "distinct (param_ids (gtc_opt ?cb))"
    by (simp add: module_parameters_distinct)
  from train_generator_updates [OF t this]
  show "\<exists>y yfake m1.
           y_fake (format_images ev) (model tr) y = Inr (yfake, m1) \<and>
           (\<forall>p d. p \<in> set (module_parameters Generator (CGeneratorNetwork args)) \<and>
                  loss_grad (g_loss ev m1 yfake) p = Some d \<longrightarrow>
              pvalues (model tr2) p =
                adam_rule ev (lr (gtc_opt (generator_callback st)))
                  (step_count (gtc_opt (generator_callback st))) p
                  (pvalues (model tr) p) (accumulated (pgrads (model tr) p) d))"
    unfolding o w' by blast
qed

text \<open>
  Claim C7 on the session \<^verbatim>\<open>run\<close> starts from with the default arguments and the sample
  dataset, all parameters zero: the training iteration on the first batch returns, moves
  the first weight of the discriminator and leaves that of the generator; the generator
  step returns, moves the first weight of the generator and leaves that of the
  discriminator.
\<close>

theorem optimizers_update_their_own_network_only_witness:
  "\<exists>st idxs tr0 tr1 cb2 tr2.
     reachable example_env default_args example_data (\<lambda>p. [0]) st \<and>
     fetch_next_batch example_env (trainer st) = Inr (idxs, tr0) \<and>
     train_iteration example_env tr0 idxs = Inr tr1 \<and>
     pvalues (model (trainer st)) (Generator, 0, Weight) = [0] \<and>
     pvalues (model (trainer st)) (Discriminator, 0, Weight) = [0] \<and>
     pvalues (model tr1) (Generator, 0, Weight) = [0] \<and>
     pvalues (model tr1) (Discriminator, 0, Weight) = [- (3 / 10000)] \<and>
     train_generator example_env ((generator_callback st)\<lparr>gtc_count := 1\<rparr>) (trainer st)
       = Inr (cb2, tr2) \<and>
     pvalues (model tr2) (Discriminator, 0, Weight) = [0] \<and>
     pvalues (model tr2) (Generator, 0, Weight) = [- (3 / 10000)]"
proof -
  from example_session obtain st where
    s: "initial_session example_env default_args example_data (\<lambda>p. [0]) = Inr st" by blast
  then have r: "reachable example_env default_args example_data (\<lambda>p. [0]) st"
    by (rule reachable.start)
  note v = example_session_values [OF s]
  from example_session_ready [OF s] have
    rd: "built example_env default_args (model (trainer st))"
        "nominal_dataset 4 (loader_dataset (train_loader (trainer st)))"
        "0 < loader_batch_size (train_loader (trainer st))"
        "case loader_iter (trainer st) of None \<Rightarrow> True | Some it \<Rightarrow> list_all (valid_batch 4) it"
        "nominal_dataset 4 (gtc_dataset (generator_callback st))"
        "gtc_len (generator_callback st) = int 4"
    by (simp_all add: ready_def)
  have vs: "valid_shuffles example_env 4"
    using example_shuffle(1) by (simp add: example_data_length)
  from fetch_next_batch_returns [OF vs rd(3) rd(4)] obtain idxs tr0 where
    f: "fetch_next_batch example_env (trainer st) = Inr (idxs, tr0)" "valid_batch 4 idxs"
    by blast
  from f(2) have b: "idxs \<noteq> []" "list_all (\<lambda>i. i < 4) idxs" by (simp_all add: valid_batch_def)
  from fetch_next_batch_effect [OF f(1)] rd have
    "built example_env default_args (model tr0)"
    "nominal_dataset 4 (loader_dataset (train_loader tr0))"
    by simp_all
  from train_iteration_returns [OF this(1) default_args_total this(2) b] obtain tr1 where
    t: "train_iteration example_env tr0 idxs = Inr tr1" by blast
  let ?cb = "(generator_callback st)\<lparr>gtc_count := 1\<rparr>"
  have "nominal_dataset 4 (gtc_dataset ?cb)" "gtc_len ?cb = int 4"
    using rd(5) rd(6) by simp_all
  moreover have "0 < (4::nat)" by simp
  ultimately obtain cb2 tr2 where
    g: "train_generator example_env ?cb (trainer st) = Inr (cb2, tr2)"
    using train_generator_returns [OF rd(1) default_args_total] by blast
  from optimizers_update_their_own_network_only [OF r, of idxs tr0 tr1 1 "trainer st" cb2 tr2]
       f(1) t g
  obtain xreal y target scores m2 l yc yfake m1 where
    k: "\<forall>p. fst p = Generator \<longrightarrow> pvalues (model tr1) p = pvalues (model (trainer st)) p"
       "WGANDiscriminatorLoss_forward example_env m2 scores target = Inr l"
       "\<forall>p d. p \<in> set (module_parameters Discriminator
                          (CDiscriminatorNetwork_trunk default_args)) \<and>
              loss_grad l p = Some d \<longrightarrow>
          pvalues (model tr1) p =
            adam_rule example_env (lr (trainer_optimizer (trainer st)))
              (step_count (trainer_optimizer (trainer st))) p
              (pvalues (model (trainer st)) p)
              (accumulated (pgrads (model (trainer st)) p) d)"
       "\<forall>p. fst p = Discriminator \<longrightarrow> pvalues (model tr2) p = pvalues (model (trainer st)) p"
       "\<forall>p d. p \<in> set (module_parameters Generator (CGeneratorNetwork default_args)) \<and>
              loss_grad (g_loss example_env m1 yfake) p = Some d \<longrightarrow>
          pvalues (model tr2) p =
            adam_rule example_env (lr (gtc_opt (generator_callback st)))
              (step_count (gtc_opt (generator_callback st))) p
              (pvalues (model (trainer st)) p)
              (accumulated (pgrads (model (trainer st)) p) d)"
    by blast
  from criterion_loss [OF k(2)] have dl: "loss_grad l (Discriminator, 0, Weight) = Some [1]"
    by (auto simp: example_env_def)
  have gl: "loss_grad (g_loss example_env m1 yfake) (Generator, 0, Weight) = Some [1]"
    by (simp add: example_env_def)
  from k(1) v(1) have a1: "pvalues (model tr1) (Generator, 0, Weight) = [0]" by simp
  from k(4) v(1) have a2: "pvalues (model tr2) (Discriminator, 0, Weight) = [0]" by simp
  from k(3) first_parameters(2) [of default_args] dl v example_descent
  have a3: "pvalues (model tr1) (Discriminator, 0, Weight) = [- (3 / 10000)]" by simp
  from k(5) first_parameters(1) [of default_args] gl v example_descent
  have a4: "pvalues (model tr2) (Generator, 0, Weight) = [- (3 / 10000)]" by simp
  from r f(1) t g a1 a2 a3 a4 v(1) show ?thesis by auto
qed

text \<open>
  \<^bold>\<open>Claim C8.\<close> In every session of a run, a generator training step of the callback
  that returns, on whatever trainer state and batch it is called after, makes exactly one
  draw \<^verbatim>\<open>np.random.randint(0, self.len)\<close> over the whole dataset the run was given. The
  drawn index is an outcome of the uniform distribution on the indices of the dataset: the
  outcomes of that distribution are exactly the indices from 0 to \<open>D - 1\<close>, each with
  probability \<open>1 / D\<close>, and every one of them is drawn for some raw value of the random
  generator. The condition of the step is the one example at the drawn index (its night
  image with a leading axis of size one), a function of the dataset and the draw alone; it
  is the condition \<^verbatim>\<open>y_fake\<close> is called with and the one the wrapper caches. The
  generator loss is backpropagated: every generator parameter it has a gradient for holds
  that gradient afterwards, and has the value Adam's rule computes from it. The callback's
  optimizer has stepped once, and no discriminator parameter has changed its value.
\<close>

theorem generator_step_uses_one_random_example:
  assumes "reachable ev args data init_values st"
    and "train_generator ev ((generator_callback st)\<lparr>gtc_count := c\<rparr>) tr = Inr (cb', tr')"
  shows "\<exists>i y yfake m1.
           i < length data \<and>
           int i = pick (np_random ev (np_random_draws tr))
                        (randint_distribution 0 (int (length data))) \<and>
           map fst (randint_distribution 0 (int (length data))) = [0 .. int (length data) - 1] \<and>
           list_all (\<lambda>jp. snd jp = 1 / real (length data))
                    (randint_distribution 0 (int (length data))) \<and>
           (\<forall>j. j < length data \<longrightarrow>
                (\<exists>u. np_random_randint u 0 (int (length data)) = Inr (int j))) \<and>
           np_random_draws tr' = Suc (np_random_draws tr) \<and>
           y = unsqueeze0 (snd (data ! i)) \<and> hd (shape y) = 1 \<and>
           y_fake (format_images ev) (model tr) y = Inr (yfake, m1) \<and>
           state_hooks (model tr') ''y'' = Some y \<and>
           step_count (gtc_opt cb') = Suc (step_count (gtc_opt (generator_callback st))) \<and>
           (\<forall>p d. p \<in> set (module_parameters Generator (CGeneratorNetwork args)) \<and>
                  loss_grad (g_loss ev m1 yfake) p = Some d \<longrightarrow>
              pgrads (model tr') p = Some (accumulated (pgrads (model tr) p) d) \<and>
              pvalues (model tr') p =
                adam_rule ev (lr (gtc_opt (generator_callback st)))
                  (step_count (gtc_opt (generator_callback st))) p
                  (pvalues (model tr) p) (accumulated (pgrads (model tr) p) d)) \<and>
           (\<forall>p. fst p = Discriminator \<longrightarrow> pvalues (model tr') p = pvalues (model tr) p)"
proof -
  let ?cb = "(generator_callback st)\<lparr>gtc_count := c\<rparr>"
  let ?u = "np_random ev (np_random_draws tr)"
  let ?D = "int (length data)"
  from reachable_wiring [OF assms(1)] have
    w: "param_ids (gtc_opt ?cb) = module_parameters Generator (CGeneratorNetwork args)" and
    ds: "gtc_dataset ?cb = DNIMWrapper_init data" and len: "gtc_len ?cb = ?D"
    by simp_all
  have o: "gtc_opt ?cb = gtc_opt (generator_callback st)" by simp
  from w have w': "param_ids (gtc_opt (generator_callback st)) =
                     module_parameters Generator (CGeneratorNetwork args)"
    by simp
  from w have "distinct (param_ids (gtc_opt ?cb))"
    by (simp add: module_parameters_distinct)
  from train_generator_updates [OF assms(2) this] obtain y yfake m1 where
    cnd: "train_generator_condition ?cb ?u = Inr y" and
    f: "y_fake (format_images ev) (model tr) y = Inr (yfake, m1)" and
    h: "state_hooks (model tr') ''y'' = Some y" and
    upd: "\<forall>p d. p \<in> set (param_ids (gtc_opt ?cb)) \<and>
                 loss_grad (g_loss ev m1 yfake) p = Some d \<longrightarrow>
            pgrads (model tr') p = Some (accumulated (pgrads (model tr) p) d) \<and>
            pvalues (model tr') p =
              adam_rule ev (lr (gtc_opt ?cb)) (step_count (gtc_opt ?cb)) p
                (pvalues (model tr) p) (accumulated (pgrads (model tr) p) d)"
    by blast
  from cnd obtain j s where
    j: "np_random_randint ?u 0 (gtc_len ?cb) = Inr j" and
    s: "DNIMWrapper_getitem (gtc_dataset ?cb) j = Inr s" and y: "y = unsqueeze0 (item1 s)"
    by (auto simp: train_generator_condition_def split: sum.splits)
  from j len have pk: "j = pick ?u (randint_distribution 0 ?D)"
    by (auto simp: np_random_randint_def split: if_splits)
  from randint_range [OF j] obtain i where i: "j = int i"
    by (metis nonneg_int_cases)
  from getitem_nat [OF s [unfolded i]] y ds have
    yi: "y = unsqueeze0 (snd (data ! i))" "i < length data"
    by (simp_all add: item1_def DNIMWrapper_init_def)
  have one: "hd (shape y) = 1" using yi(1) by (simp add: unsqueeze0_def)
  have reach: "\<forall>k. k < length data \<longrightarrow> (\<exists>u. np_random_randint u 0 ?D = Inr (int k))"
  proof (intro allI impI)
    fix k
    assume "k < length data"
    then have "(0::int) \<le> int k" "int k < ?D" by simp_all
    from randint_reaches [OF this] show "\<exists>u. np_random_randint u 0 ?D = Inr (int k)"
      by blast
  qed
  have uni: "list_all (\<lambda>jp. snd jp = 1 / real (length data)) (randint_distribution 0 ?D)"
    using randint_distribution_uniform [of ?D 0] by simp
  have fr: "\<And>q. q \<notin> set (param_ids (gtc_opt ?cb)) \<Longrightarrow>
                pvalues (model tr') q = pvalues (model tr) q"
    using train_generator_effect [OF assms(2)] by blast
  have frame: "\<forall>p. fst p = Discriminator \<longrightarrow> pvalues (model tr') p = pvalues (model tr) p"
  proof (intro allI impI)
    fix p :: pname
    assume "fst p = Discriminator"
    with w have "p \<notin> set (param_ids (gtc_opt ?cb))"
      by (auto dest: module_parameters_owner)
    then show "pvalues (model tr') p = pvalues (model tr) p" by (rule fr)
  qed
  from train_generator_effect [OF assms(2)] have
    cnt: "np_random_draws tr' = Suc (np_random_draws tr)"
         "step_count (gtc_opt cb') = Suc (step_count (gtc_opt (generator_callback st)))"
    by simp_all
  from upd have upd': "\<forall>p d. p \<in> set (module_parameters Generator (CGeneratorNetwork args)) \<and>
                  loss_grad (g_loss ev m1 yfake) p = Some d \<longrightarrow>
              pgrads (model tr') p = Some (accumulated (pgrads (model tr) p) d) \<and>
              pvalues (model tr') p =
                adam_rule ev (lr (gtc_opt (generator_callback st)))
                  (step_count (gtc_opt (generator_callback st))) p
                  (pvalues (model tr) p) (accumulated (pgrads (model tr) p) d)"
    unfolding o w' .
  from pk i have pk': "int i = pick ?u (randint_distribution 0 ?D)" by simp
  show ?thesis
    using yi(2) pk' randint_distribution_support [of 0 ?D] uni reach cnt(1) yi(1) one f h cnt(2)
      upd' frame
    by blast
qed

text \<open>
  Claim C8 on the session \<^verbatim>\<open>run\<close> starts from with the default arguments and the sample
  dataset, all parameters zero: the step returns; the raw value 5 gives index 1 of four,
  whose night image becomes the cached condition; the first weight of the generator moves
  and that of the discriminator does not.
\<close>

theorem generator_step_uses_one_random_example_witness:
  "\<exists>st cb' tr'.
     reachable example_env default_args example_data (\<lambda>p. [0]) st \<and>
     train_generator example_env ((generator_callback st)\<lparr>gtc_count := 1\<rparr>) (trainer st)
       = Inr (cb', tr') \<and>
     np_random example_env (np_random_draws (trainer st)) = 5 \<and>
     pick 5 (randint_distribution 0 (int (length example_data))) = 1 \<and>
     state_hooks (model tr') ''y'' = Some (unsqueeze0 (image (1 / 4))) \<and>
     np_random_draws tr' = 1 \<and> step_count (gtc_opt cb') = 1 \<and>
     pgrads (model tr') (Generator, 0, Weight) = Some [1] \<and>
     pvalues (model (trainer st)) (Generator, 0, Weight) = [0] \<and>
     pvalues (model tr') (Generator, 0, Weight) = [- (3 / 10000)] \<and>
     pvalues (model tr') (Discriminator, 0, Weight) = [0]"
proof -
  from example_session obtain st where
    s: "initial_session example_env default_args example_data (\<lambda>p. [0]) = Inr st" by blast
  then have r: "reachable example_env default_args example_data (\<lambda>p. [0]) st"
    by (rule reachable.start)
  note v = example_session_values [OF s]
  from example_session_ready [OF s] have
    rd: "built example_env default_args (model (trainer st))"
        "nominal_dataset 4 (gtc_dataset (generator_callback st))"
        "gtc_len (generator_callback st) = int 4"
    by (simp_all add: ready_def)
  let ?cb = "(generator_callback st)\<lparr>gtc_count := 1\<rparr>"
  have "nominal_dataset 4 (gtc_dataset ?cb)" "gtc_len ?cb = int 4"
    using rd(2) rd(3) by simp_all
  moreover have "0 < (4::nat)" by simp
  ultimately obtain cb' tr' where
    g: "train_generator example_env ?cb (trainer st) = Inr (cb', tr')"
    using train_generator_returns [OF rd(1) default_args_total] by blast
  have u: "np_random example_env (np_random_draws (trainer st)) = 5"
    using v(6) by (simp add: example_env_def)
  have "np_random_randint 5 0 (int (length example_data)) = Inr 1"
    by (simp add: randint_value example_data_def)
  then have pk: "pick 5 (randint_distribution 0 (int (length example_data))) = 1"
    by (simp add: np_random_randint_def example_data_def)
  have d1: "snd (example_data ! 1) = image (1 / 4)" by (simp add: example_data_def)
  from generator_step_uses_one_random_example [OF r g] obtain i y yfake m1 where
    k: "int i = pick (np_random example_env (np_random_draws (trainer st)))
                  (randint_distribution 0 (int (length example_data)))"
       "np_random_draws tr' = Suc (np_random_draws (trainer st))"
       "y = unsqueeze0 (snd (example_data ! i))"
       "state_hooks (model tr') ''y'' = Some y"
       "step_count (gtc_opt cb') = Suc (step_count (gtc_opt (generator_callback st)))"
       "\<forall>p d. p \<in> set (module_parameters Generator (CGeneratorNetwork default_args)) \<and>
              loss_grad (g_loss example_env m1 yfake) p = Some d \<longrightarrow>
          pgrads (model tr') p = Some (accumulated (pgrads (model (trainer st)) p) d) \<and>
          pvalues (model tr') p =
            adam_rule example_env (lr (gtc_opt (generator_callback st)))
              (step_count (gtc_opt (generator_callback st))) p
              (pvalues (model (trainer st)) p)
              (accumulated (pgrads (model (trainer st)) p) d)"
       "\<forall>p. fst p = Discriminator \<longrightarrow> pvalues (model tr') p = pvalues (model (trainer st)) p"
    by blast
  from k(1) u pk have i: "i = 1" by simp
  have gl: "loss_grad (g_loss example_env m1 yfake) (Generator, 0, Weight) = Some [1]"
    by (simp add: example_env_def)
  from k(6) first_parameters(1) [of default_args] gl v example_descent
  have a: "pgrads (model tr') (Generator, 0, Weight) = Some [1]"
    "pvalues (model tr') (Generator, 0, Weight) = [- (3 / 10000)]"
    by (simp_all add: accumulated_def)
  from k(7) v(1) have b: "pvalues (model tr') (Discriminator, 0, Weight) = [0]" by simp
  from r g u pk k(2) k(3) k(4) k(5) i d1 v a b show ?thesis by auto
qed

end
